(* ===== verification/Prelude.thy ===== *)
theory Prelude
  imports Main "HOL-Library.Word" "HOL-Library.State_Monad" "HOL-Library.AList"
begin

text \<open>
  Shared vocabulary of the development.
  \<^item> Widths of the Go integers that occur in the operator.
  \<^item> Go error values with their wrapping chain, and the three ways a Go function can end:
    with a value, with an error, with a run-time panic.
  \<^item> Effects as a state monad over an explicit state, with a weakest-precondition
    operator whose equations (collection \<open>wp_simps\<close>) reduce a goal about a whole handler
    to goals about the calls it makes.
  \<^item> Go maps as association lists (reading a missing key gives the zero value).
\<close>

named_theorems wp_simps \<open>weakest-precondition equations of the state monad\<close>
named_theorems go_defs \<open>definitions that unfold to elementary operations\<close>

section \<open>Integers\<close>

type_synonym i32 = "32 word"
type_synonym i64 = "64 word"
type_synonym u64 = "64 word"

section \<open>Errors and outcomes\<close>

text \<open>
  \<open>ExtError reason text\<close> is an error made by code outside the repository (API server,
  database driver), \<open>Errorf text\<close> one made by \<open>fmt.Errorf\<close> without \<open>%w\<close> or by
  \<open>errors.New\<close>, and \<open>Wrapf prefix e\<close> is \<open>fmt.Errorf("prefix: %w", e)\<close>.
\<close>

datatype goerror =
    ExtError string string
  | Errorf string
  | Wrapf string goerror

fun err_text :: "goerror \<Rightarrow> string" where
  "err_text (ExtError r t) = t"
| "err_text (Errorf t) = t"
| "err_text (Wrapf p e) = p @ '': '' @ err_text e"

datatype 'a res = Ok 'a | Err goerror | Panic string

section \<open>Effects\<close>

type_synonym ('s, 'a) m = "('s, 'a) state"

definition wp :: "('s, 'a) state \<Rightarrow> ('a \<Rightarrow> 's \<Rightarrow> bool) \<Rightarrow> 's \<Rightarrow> bool" where
  "wp f Q s = (case run_state f s of (a, t) \<Rightarrow> Q a t)"

lemma wp_return [wp_simps]: "wp (State_Monad.return x) Q s = Q x s"
  by (simp add: wp_def)

lemma wp_bind [wp_simps]: "wp (State_Monad.bind f g) Q s = wp f (\<lambda>a. wp (g a) Q) s"
  by (simp add: wp_def split: prod.splits)

lemma wp_if [wp_simps]: "wp (if b then f else g) Q s = (if b then wp f Q s else wp g Q s)"
  by simp

lemma wp_case_sum [wp_simps]:
  "wp (case x of Inl a \<Rightarrow> f a | Inr b \<Rightarrow> g b) Q s =
   (case x of Inl a \<Rightarrow> wp (f a) Q s | Inr b \<Rightarrow> wp (g b) Q s)"
  by (cases x) simp_all

lemma wp_case_option [wp_simps]:
  "wp (case x of None \<Rightarrow> f | Some b \<Rightarrow> g b) Q s =
   (case x of None \<Rightarrow> wp f Q s | Some b \<Rightarrow> wp (g b) Q s)"
  by (cases x) simp_all

lemma wp_case_res [wp_simps]:
  "wp (case x of Ok a \<Rightarrow> f a | Err e \<Rightarrow> g e | Panic p \<Rightarrow> h p) Q s =
   (case x of Ok a \<Rightarrow> wp (f a) Q s | Err e \<Rightarrow> wp (g e) Q s | Panic p \<Rightarrow> wp (h p) Q s)"
  by (cases x) simp_all

lemma wp_case_prod [wp_simps]:
  "wp (case x of (a, b) \<Rightarrow> f a b) Q s = (case x of (a, b) \<Rightarrow> wp (f a b) Q s)"
  by (cases x) simp_all

lemma wp_Let [wp_simps]: "wp (let x = v in f x) Q s = (let x = v in wp (f x) Q s)"
  by (simp add: Let_def)

lemma wp_mono: "wp f R s \<Longrightarrow> (\<And>a t. R a t \<Longrightarrow> Q a t) \<Longrightarrow> wp f Q s"
  by (auto simp: wp_def split: prod.splits)

lemma wp_conj: "wp f (\<lambda>a t. P a t \<and> Q a t) s \<longleftrightarrow> wp f P s \<and> wp f Q s"
  by (auto simp: wp_def split: prod.splits)

lemma wp_run: "wp f Q s \<Longrightarrow> run_state f s = (a, t) \<Longrightarrow> Q a t"
  by (simp add: wp_def)

lemma wp_iff_run: "wp f Q s \<longleftrightarrow> (\<forall>a t. run_state f s = (a, t) \<longrightarrow> Q a t)"
  by (auto simp: wp_def split: prod.splits)

section \<open>Go maps\<close>

type_synonym strmap = "(string \<times> string) list"

definition go_lookup :: "strmap \<Rightarrow> string \<Rightarrow> string" where
  "go_lookup mp k = (case map_of mp k of None \<Rightarrow> [] | Some v \<Rightarrow> v)"

definition nil_lookup :: "strmap option \<Rightarrow> string \<Rightarrow> string" where
  "nil_lookup mp k = (case mp of None \<Rightarrow> [] | Some a \<Rightarrow> go_lookup a k)"

lemma map_of_update [simp]:
  "map_of (AList.update k v mp) k' = (if k' = k then Some v else map_of mp k')"
  by (simp add: update_conv)

lemma go_lookup_update [simp]:
  "go_lookup (AList.update k v mp) k' = (if k' = k then v else go_lookup mp k')"
  by (simp add: go_lookup_def)

lemma map_of_delete [simp]:
  "map_of (AList.delete k mp) k' = (if k' = k then None else map_of mp k')"
  by (simp add: delete_conv)

lemma update_nonempty [simp]: "AList.update k v mp \<noteq> []"
  by (cases mp) auto

section \<open>Lists\<close>

lemma takeWhile_neq_append:
  "c \<notin> set xs \<Longrightarrow> takeWhile (\<lambda>x. x \<noteq> c) (xs @ c # ys) = xs"
  by (induction xs) auto

lemma dropWhile_neq_append:
  "c \<notin> set xs \<Longrightarrow> dropWhile (\<lambda>x. x \<noteq> c) (xs @ c # ys) = c # ys"
  by (induction xs) auto

lemma split_at_first:
  assumes "c \<in> set s"
  shows "s = takeWhile (\<lambda>x. x \<noteq> c) s @ c # tl (dropWhile (\<lambda>x. x \<noteq> c) s)"
  using assms by (induction s) auto

lemma notin_takeWhile_neq: "c \<notin> set (takeWhile (\<lambda>x. x \<noteq> c) s)"
  by (induction s) auto

lemma append_separator_inj:
  assumes "xs @ c # ys = xs' @ c # ys'" and "c \<notin> set xs" and "c \<notin> set xs'"
  shows "xs = xs' \<and> ys = ys'"
proof -
  have "xs = xs'"
    using takeWhile_neq_append [of c xs ys] takeWhile_neq_append [of c xs' ys'] assms by metis
  with assms(1) show ?thesis by simp
qed

end
