(* ===== verification/Go_Std.thy ===== *)
theory Go_Std
  imports Prelude
begin

text \<open>
  The part of the Go standard library the operator calls, as executable definitions on
  byte strings: \<open>strings.Cut\<close>, decimal rendering and the \<open>%q\<close>, \<open>%v\<close> verbs of
  \<open>fmt\<close>, \<open>strconv.ParseUint\<close>, \<open>net.SplitHostPort\<close> and \<open>net.JoinHostPort\<close>, the
  percent-encoding of \<open>net/url\<close>, and the saturating subtraction of \<open>time.Time.Sub\<close>.
  The \<open>%q\<close> verb passes bytes above the ASCII range through, as it does for printable
  runes. The lemmas at the end of each section are the laws the components rely on.
\<close>

section \<open>strings\<close>

definition cut :: "char \<Rightarrow> string \<Rightarrow> string \<times> string \<times> bool" where
  "cut c s = (if c \<in> set s
     then (takeWhile (\<lambda>x. x \<noteq> c) s, tl (dropWhile (\<lambda>x. x \<noteq> c) s), True)
     else (s, [], False))"

lemma cut_append [simp]: "c \<notin> set xs \<Longrightarrow> cut c (xs @ c # ys) = (xs, ys, True)"
  by (simp add: cut_def takeWhile_neq_append dropWhile_neq_append)

lemma cut_absent [simp]: "c \<notin> set s \<Longrightarrow> cut c s = (s, [], False)"
  by (simp add: cut_def)

lemma cut_True_iff: "cut c s = (h, t, True) \<longleftrightarrow> s = h @ c # t \<and> c \<notin> set h"
  using split_at_first [of c s] notin_takeWhile_neq [of c s]
  by (auto simp: cut_def takeWhile_neq_append dropWhile_neq_append split: if_splits)

text \<open>\<open>strings.Join\<close> with a separator.\<close>

fun join :: "string \<Rightarrow> string list \<Rightarrow> string" where
  "join sep [] = []"
| "join sep [x] = x"
| "join sep (x # y # ys) = x @ sep @ join sep (y # ys)"

section \<open>fmt and strconv: rendering\<close>

definition digit_char :: "nat \<Rightarrow> char" where
  "digit_char d = char_of (48 + d)"

function show_dec :: "int \<Rightarrow> string" where
  "show_dec n = (if n < 10 then [digit_char (nat n)]
     else show_dec (n div 10) @ [digit_char (nat (n mod 10))])"
  by pat_completeness auto
termination
  by (relation "measure nat") auto

declare show_dec.simps [simp del]

definition show_int :: "int \<Rightarrow> string" where
  "show_int i = (if i < 0 then ''-'' @ show_dec (- i) else show_dec i)"

definition fmt_bool :: "bool \<Rightarrow> string" where
  "fmt_bool b = (if b then ''true'' else ''false'')"

definition hex_char :: "nat \<Rightarrow> char" where
  "hex_char d = (if d < 10 then char_of (48 + d) else char_of (87 + d))"

definition hex_char_upper :: "nat \<Rightarrow> char" where
  "hex_char_upper d = (if d < 10 then char_of (48 + d) else char_of (55 + d))"

definition quote_char :: "char \<Rightarrow> string" where
  "quote_char c = (let n = (of_char c :: nat) in
     if n = 34 \<or> n = 92 then [CHR 0x5C, c]
     else if n = 7 then [CHR 0x5C, CHR ''a'']
     else if n = 8 then [CHR 0x5C, CHR ''b'']
     else if n = 12 then [CHR 0x5C, CHR ''f'']
     else if n = 10 then [CHR 0x5C, CHR ''n'']
     else if n = 13 then [CHR 0x5C, CHR ''r'']
     else if n = 9 then [CHR 0x5C, CHR ''t'']
     else if n = 11 then [CHR 0x5C, CHR ''v'']
     else if n < 32 \<or> n = 127
       then [CHR 0x5C, CHR ''x'', hex_char (n div 16), hex_char (n mod 16)]
     else [c])"

definition fmt_q :: "string \<Rightarrow> string" where
  "fmt_q s = [CHR 0x22] @ concat (map quote_char s) @ [CHR 0x22]"

definition fmt_strings :: "string list \<Rightarrow> string" where
  "fmt_strings xs = ''['' @ join '' '' xs @ '']''"

section \<open>strconv.ParseUint\<close>

definition digit_val :: "char \<Rightarrow> nat option" where
  "digit_val c = (let n = (of_char c :: nat) in
     if 48 \<le> n \<and> n \<le> 57 then Some (n - 48)
     else if 97 \<le> n \<and> n \<le> 122 then Some (n - 87)
     else if 65 \<le> n \<and> n \<le> 90 then Some (n - 55)
     else None)"

definition num_error :: "string \<Rightarrow> string \<Rightarrow> goerror" where
  "num_error s why = Errorf (''strconv.ParseUint: parsing '' @ fmt_q s @ '': '' @ why)"

text \<open>
  The digit loop. \<open>cutoff\<close> is the least value whose product with the base leaves 64
  bits, \<open>maxVal\<close> the largest value of the requested size.
\<close>

fun parse_digits :: "string \<Rightarrow> nat \<Rightarrow> u64 \<Rightarrow> u64 \<Rightarrow> string \<Rightarrow> u64 \<Rightarrow> goerror + u64" where
  "parse_digits s base cutoff maxVal [] n = Inr n"
| "parse_digits s base cutoff maxVal (c # cs) n =
     (case digit_val c of
        None \<Rightarrow> Inl (num_error s ''invalid syntax'')
      | Some d \<Rightarrow>
          if base \<le> d then Inl (num_error s ''invalid syntax'')
          else if cutoff \<le> n then Inl (num_error s ''value out of range'')
          else let n' = n * of_nat base; n1 = n' + of_nat d in
            if n1 < n' \<or> maxVal < n1 then Inl (num_error s ''value out of range'')
            else parse_digits s base cutoff maxVal cs n1)"

definition ParseUint :: "string \<Rightarrow> nat \<Rightarrow> nat \<Rightarrow> goerror + u64" where
  "ParseUint s base bitSize =
     (if s = [] then Inl (num_error s ''invalid syntax'')
      else parse_digits s base (word_of_int ((2 ^ 64 - 1) div int base + 1))
        (word_of_int (2 ^ bitSize - 1)) s 0)"

section \<open>net: host and port\<close>

text \<open>
  \<open>net.SplitHostPort\<close>: the port follows the last colon; a host with colons must be in
  brackets. The error text names the address and the reason.
\<close>

definition last_colon :: "string \<Rightarrow> string \<times> string" where
  "last_colon s = (let r = rev s in
     (rev (tl (dropWhile (\<lambda>x. x \<noteq> CHR '':'') r)), rev (takeWhile (\<lambda>x. x \<noteq> CHR '':'') r)))"

definition addr_error :: "string \<Rightarrow> string \<Rightarrow> goerror" where
  "addr_error addr why = Errorf (''address '' @ addr @ '': '' @ why)"

definition SplitHostPort :: "string \<Rightarrow> goerror + (string \<times> string)" where
  "SplitHostPort hp =
     (if CHR '':'' \<notin> set hp then Inl (addr_error hp ''missing port in address'')
      else let (hpre, port) = last_colon hp in
        if hp \<noteq> [] \<and> hd hp = CHR ''['' then
          (if CHR '']'' \<notin> set hp then Inl (addr_error hp ''missing ']' in address'')
           else let inner = takeWhile (\<lambda>x. x \<noteq> CHR '']'') hp;
                    after = tl (dropWhile (\<lambda>x. x \<noteq> CHR '']'') hp) in
             if after = [] then Inl (addr_error hp ''missing port in address'')
             else if length inner + 1 = length hpre then
               (if CHR ''['' \<in> set (tl hp) then Inl (addr_error hp ''unexpected '[' in address'')
                else if CHR '']'' \<in> set after then Inl (addr_error hp ''unexpected ']' in address'')
                else Inr (tl inner, port))
             else if hd after = CHR '':'' then Inl (addr_error hp ''too many colons in address'')
             else Inl (addr_error hp ''missing port in address''))
        else if CHR '':'' \<in> set hpre then Inl (addr_error hp ''too many colons in address'')
        else if CHR ''['' \<in> set hp then Inl (addr_error hp ''unexpected '[' in address'')
        else if CHR '']'' \<in> set hp then Inl (addr_error hp ''unexpected ']' in address'')
        else Inr (hpre, port))"

definition JoinHostPort :: "string \<Rightarrow> string \<Rightarrow> string" where
  "JoinHostPort host port =
     (if CHR '':'' \<in> set host then ''['' @ host @ '']:'' @ port else host @ '':'' @ port)"

section \<open>net/url: percent-encoding\<close>

datatype url_mode = encodePath | encodeHost | encodeUserPassword | encodeQueryComponent

definition alnum :: "char \<Rightarrow> bool" where
  "alnum c = (let n = (of_char c :: nat) in
     (97 \<le> n \<and> n \<le> 122) \<or> (65 \<le> n \<and> n \<le> 90) \<or> (48 \<le> n \<and> n \<le> 57))"

definition shouldEscape :: "url_mode \<Rightarrow> char \<Rightarrow> bool" where
  "shouldEscape md c =
     (if alnum c then False
      else if md = encodeHost \<and> c \<in> set (''!$&()*+,;=:[]<>'' @ [CHR 0x27, CHR 0x22]) then False
      else if c \<in> set ''-_.~'' then False
      else if c \<in> set ''$&+,/:;=?@'' then
        (case md of
           encodePath \<Rightarrow> c = CHR ''?''
         | encodeUserPassword \<Rightarrow> c \<in> set ''@/?:''
         | encodeQueryComponent \<Rightarrow> True
         | encodeHost \<Rightarrow> True)
      else True)"

definition pct :: "char \<Rightarrow> string" where
  "pct c = (let n = (of_char c :: nat) in
     [CHR 0x25, hex_char_upper (n div 16), hex_char_upper (n mod 16)])"

definition escape_char :: "url_mode \<Rightarrow> char \<Rightarrow> string" where
  "escape_char md c =
     (if \<not> shouldEscape md c then [c]
      else if md = encodeQueryComponent \<and> c = CHR '' '' then ''+''
      else pct c)"

definition escape :: "url_mode \<Rightarrow> string \<Rightarrow> string" where
  "escape md s = concat (map (escape_char md) s)"

section \<open>time\<close>

type_synonym time = int
type_synonym duration = i64

abbreviation Second :: duration where
  "Second \<equiv> 1000000000"

text \<open>\<open>Time.Sub\<close> saturates at the ends of the \<open>Duration\<close> range.\<close>

definition time_sub :: "time \<Rightarrow> time \<Rightarrow> duration" where
  "time_sub t u = word_of_int (max (- (2 ^ 63)) (min (2 ^ 63 - 1) (t - u)))"

lemma sint_time_sub:
  "sint (time_sub t u) = max (- (2 ^ 63)) (min (2 ^ 63 - 1) (t - u))"
proof -
  let ?d = "max (- (2 ^ 63)) (min (2 ^ 63 - 1) (t - u)) :: int"
  have "- (2 ^ 63) \<le> ?d" "?d < 2 ^ 63" by auto
  then show ?thesis
    unfolding time_sub_def by (simp add: sint_sbintrunc' signed_take_bit_int_eq_self)
qed

end
