(* ===== verification/Go_Float.thy ===== *)
theory Go_Float
  imports Go_Std Complex_Main
begin

text \<open>
  Go's \<open>float64\<close> (IEEE 754 binary64, round to nearest even) as far as the operator uses
  it: conversion from \<open>uint64\<close> and \<open>int64\<close>, multiplication, addition, division, the
  conversion to \<open>int64\<close>, and \<open>time.Duration.Seconds\<close>. A finite value is a pair of a
  mantissa and a binary exponent; signed zeros are not told apart. A conversion to
  \<open>int64\<close> that does not fit is implementation-dependent in Go, so it is \<open>None\<close> here and
  the caller supplies the value.
\<close>

datatype f64 = Finite int int | Infinite bool | NaN

function bitlen :: "int \<Rightarrow> int" where
  "bitlen n = (if n \<le> 0 then 0 else 1 + bitlen (n div 2))"
  by pat_completeness auto
termination
  by (relation "measure nat") auto

declare bitlen.simps [simp del]

definition rne :: "int \<Rightarrow> nat \<Rightarrow> int" where
  "rne n k = (let q = n div 2 ^ k; r = n mod 2 ^ k in
     if 2 ^ k < 2 * r \<or> (2 * r = 2 ^ k \<and> odd q) then q + 1 else q)"

definition f64_round :: "int \<Rightarrow> int \<Rightarrow> f64" where
  "f64_round n e =
     (let k = max (bitlen \<bar>n\<bar> - 53) (- 1074 - e);
          n' = (if k \<le> 0 then n else sgn n * rne \<bar>n\<bar> (nat k));
          e' = (if k \<le> 0 then e else e + k)
      in if 1024 < bitlen \<bar>n'\<bar> + e' then Infinite (n < 0) else Finite n' e')"

definition f64_of_int :: "int \<Rightarrow> f64" where
  "f64_of_int i = f64_round i 0"

definition f64_of_u64 :: "u64 \<Rightarrow> f64" where
  "f64_of_u64 w = f64_of_int (uint w)"

fun f64_mul :: "f64 \<Rightarrow> f64 \<Rightarrow> f64" where
  "f64_mul (Finite a e) (Finite b f) = f64_round (a * b) (e + f)"
| "f64_mul NaN _ = NaN"
| "f64_mul _ NaN = NaN"
| "f64_mul (Infinite s) (Finite b f) = (if b = 0 then NaN else Infinite (s \<noteq> (b < 0)))"
| "f64_mul (Finite a e) (Infinite s) = (if a = 0 then NaN else Infinite (s \<noteq> (a < 0)))"
| "f64_mul (Infinite s) (Infinite t) = Infinite (s \<noteq> t)"

text \<open>Sum and quotient of finite values, the only ones \<open>Duration.Seconds\<close> forms.\<close>

definition f64_add_fin :: "int \<Rightarrow> int \<Rightarrow> int \<Rightarrow> int \<Rightarrow> f64" where
  "f64_add_fin a e b f = (let g = min e f in
     f64_round (a * 2 ^ nat (e - g) + b * 2 ^ nat (f - g)) g)"

definition f64_div_int :: "int \<Rightarrow> int \<Rightarrow> f64" where
  "f64_div_int a b =
     (let k = nat (max 0 (56 + bitlen \<bar>b\<bar> - bitlen \<bar>a\<bar>));
          q = (\<bar>a\<bar> * 2 ^ k) div \<bar>b\<bar>; r = (\<bar>a\<bar> * 2 ^ k) mod \<bar>b\<bar>
      in f64_round (sgn a * sgn b * (2 * q + (if r = 0 then 0 else 1))) (- int k - 1))"

definition trunc_quot :: "int \<Rightarrow> int \<Rightarrow> int" where
  "trunc_quot a b = sgn a * sgn b * (\<bar>a\<bar> div \<bar>b\<bar>)"

definition trunc_rem :: "int \<Rightarrow> int \<Rightarrow> int" where
  "trunc_rem a b = a - b * trunc_quot a b"

definition Seconds :: "duration \<Rightarrow> f64" where
  "Seconds d = (let sec = trunc_quot (sint d) 1000000000; nsec = trunc_rem (sint d) 1000000000 in
     case (f64_of_int sec, f64_div_int nsec 1000000000) of
       (Finite a e, Finite b f) \<Rightarrow> f64_add_fin a e b f
     | _ \<Rightarrow> NaN)"

fun f64_trunc :: "f64 \<Rightarrow> int option" where
  "f64_trunc (Finite a e) = Some (if 0 \<le> e then a * 2 ^ nat e else trunc_quot a (2 ^ nat (- e)))"
| "f64_trunc _ = None"

definition f64_to_i64 :: "f64 \<Rightarrow> i64 option" where
  "f64_to_i64 x = (case f64_trunc x of
     None \<Rightarrow> None
   | Some i \<Rightarrow> if - (2 ^ 63) \<le> i \<and> i < 2 ^ 63 then Some (word_of_int i) else None)"

text \<open>The rational value of a finite float.\<close>

fun f64_val :: "f64 \<Rightarrow> rat option" where
  "f64_val (Finite a e) = Some (rat_of_int a * 2 powi e)"
| "f64_val _ = None"

lemma bitlen_le: "0 \<le> n \<Longrightarrow> n < 2 ^ k \<Longrightarrow> bitlen n \<le> int k"
proof (induction k arbitrary: n)
  case 0
  then show ?case by (simp add: bitlen.simps)
next
  case (Suc k)
  show ?case
  proof (cases "n \<le> 0")
    case False
    have "n div 2 < 2 ^ k" using Suc.prems by simp
    with Suc have "bitlen (n div 2) \<le> int k" by simp
    with False show ?thesis by (simp add: bitlen.simps [of n])
  qed (simp add: bitlen.simps)
qed

lemma f64_of_int_small: "\<bar>i\<bar> < 2 ^ 53 \<Longrightarrow> f64_of_int i = Finite i 0"
  using bitlen_le [of "\<bar>i\<bar>" 53] by (simp add: f64_of_int_def f64_round_def)

lemma f64_of_u64_small: "uint w < 2 ^ 53 \<Longrightarrow> f64_of_u64 w = Finite (uint w) 0"
  by (simp add: f64_of_u64_def f64_of_int_small)

lemma f64_of_u64_pow53: "uint w = 2 ^ 53 \<Longrightarrow> f64_of_u64 w = Finite (2 ^ 52) 1"
proof -
  have "f64_of_int (2 ^ 53) = Finite (2 ^ 52) 1" by code_simp
  then show "uint w = 2 ^ 53 \<Longrightarrow> ?thesis" by (simp add: f64_of_u64_def)
qed

lemma f64_of_u64_exact: "uint w \<le> 2 ^ 53 \<Longrightarrow> f64_val (f64_of_u64 w) = Some (of_int (uint w))"
proof (cases "uint w = 2 ^ 53")
  case True
  then show ?thesis using f64_of_u64_pow53 [OF True] by (simp add: power_int_def)
next
  case False
  assume "uint w \<le> 2 ^ 53"
  with False have "f64_of_u64 w = Finite (uint w) 0" by (simp add: f64_of_u64_small)
  then show ?thesis by simp
qed

lemma f64_of_u64_inexact: "f64_of_u64 (2 ^ 53 + 1) = Finite (2 ^ 52) 1"
  by code_simp

end
