(* ===== verification/Api_Types.thy ===== *)
theory Api_Types
  imports Go_Float
begin

text \<open>
  The custom resource of the operator (\<open>api/v1alpha1/hacluster_types.go\<close>): one record
  per struct, with the source's field names under a prefix where two structs share one,
  and the string constants of its enumerations. Strings stay strings, because an object
  that bypasses the CRD schema can carry any value there. \<open>crd_valid\<close> collects the
  schema markers of the types. The Kubernetes types the structs embed (object metadata,
  conditions, Secret selectors) are records of the fields the operator reads or writes.
\<close>

section \<open>Kubernetes types\<close>

record NamespacedName =
  nn_Namespace :: string
  nn_Name :: string

abbreviation nn :: "string \<Rightarrow> string \<Rightarrow> NamespacedName" where
  "nn ns n \<equiv> \<lparr>nn_Namespace = ns, nn_Name = n\<rparr>"

record SecretKeySelector =
  sel_Name :: string
  sel_Key :: string

record Condition =
  cond_Type :: string
  cond_Status :: string
  cond_ObservedGeneration :: i64
  cond_LastTransitionTime :: time
  cond_Reason :: string
  cond_Message :: string

definition ConditionTrue :: string where [simp]: "ConditionTrue = ''True''"
definition ConditionFalse :: string where [simp]: "ConditionFalse = ''False''"

section \<open>Enumerations\<close>

definition FailoverModeAutomatic :: string where [simp]: "FailoverModeAutomatic = ''Automatic''"
definition FailoverModeManual :: string where [simp]: "FailoverModeManual = ''Manual''"

definition PromotionPolicyMostAdvancedLSN :: string where
  [simp]: "PromotionPolicyMostAdvancedLSN = ''MostAdvancedLSN''"
definition PromotionPolicyOrdered :: string where
  [simp]: "PromotionPolicyOrdered = ''Ordered''"

definition RejoinPolicyManual :: string where [simp]: "RejoinPolicyManual = ''Manual''"
definition RejoinPolicyAutoReplica :: string where
  [simp]: "RejoinPolicyAutoReplica = ''AutoReplica''"

definition SiteRolePrimary :: string where [simp]: "SiteRolePrimary = ''Primary''"
definition SiteRoleReplica :: string where [simp]: "SiteRoleReplica = ''Replica''"
definition SiteRoleUnknown :: string where [simp]: "SiteRoleUnknown = ''Unknown''"

section \<open>Spec\<close>

record ClusterRef =
  cr_Name :: string
  cr_Namespace :: string

record PostgresProbe =
  pp_Endpoint :: string
  pp_Port :: i32
  pp_Database :: string
  pp_SSLMode :: string
  pp_UserSecretRef :: SecretKeySelector
  pp_PasswordSecretRef :: SecretKeySelector

record PrimarySite =
  ps_Name :: string
  ps_ClusterRef :: ClusterRef
  ps_ReplicationEndpoint :: string
  ps_PostgresProbe :: "PostgresProbe option"

record ReplicaSite =
  rs_Name :: string
  rs_KubeconfigSecretRef :: SecretKeySelector
  rs_ClusterRef :: ClusterRef
  rs_ReplicationEndpoint :: string
  rs_PostgresProbe :: "PostgresProbe option"

record FailoverSpec =
  fo_Mode :: string
  fo_HealthCheckIntervalSeconds :: i32
  fo_FailureThreshold :: i32
  fo_PromotionPolicy :: string
  fo_RejoinPolicy :: string

record HAClusterSpec =
  Primary :: PrimarySite
  Replicas :: "ReplicaSite list"
  Failover :: FailoverSpec

section \<open>Status\<close>

record SiteStatus =
  ss_Name :: string
  ss_Role :: string
  ss_Reachable :: bool
  ss_Ready :: bool
  ss_Phase :: string
  ss_Message :: string
  ss_LastObservedTime :: "time option"
  ss_CurrentLSN :: string
  ss_ReplicationLagMilliseconds :: "i64 option"

record HAClusterStatus =
  CurrentPrimarySite :: string
  LastFailoverTime :: "time option"
  ObservedGeneration :: i64
  Sites :: "SiteStatus list"
  Conditions :: "Condition list"

record HACluster =
  ha_Name :: string
  ha_Namespace :: string
  ha_ResourceVersion :: string
  ha_Generation :: i64
  ha_Annotations :: strmap
  ha_Spec :: HAClusterSpec
  ha_Status :: HAClusterStatus

abbreviation ha_key :: "HACluster \<Rightarrow> NamespacedName" where
  "ha_key ha \<equiv> nn (ha_Namespace ha) (ha_Name ha)"

abbreviation spec_replicas :: "HACluster \<Rightarrow> ReplicaSite list" where
  "spec_replicas ha \<equiv> Replicas (ha_Spec ha)"

abbreviation spec_primary :: "HACluster \<Rightarrow> PrimarySite" where
  "spec_primary ha \<equiv> Primary (ha_Spec ha)"

abbreviation spec_failover :: "HACluster \<Rightarrow> FailoverSpec" where
  "spec_failover ha \<equiv> Failover (ha_Spec ha)"

text \<open>All site names of a spec: the bootstrap site first, then the replicas in order.\<close>

definition site_names :: "HAClusterSpec \<Rightarrow> string list" where
  "site_names sp = ps_Name (Primary sp) # map rs_Name (Replicas sp)"

section \<open>Schema markers\<close>

definition label_char :: "char \<Rightarrow> bool" where
  "label_char c = (let n = (of_char c :: nat) in (97 \<le> n \<and> n \<le> 122) \<or> (48 \<le> n \<and> n \<le> 57))"

text \<open>The pattern \<open>^[a-z0-9]([-a-z0-9]*[a-z0-9])?$\<close> of a site name.\<close>

definition site_name_ok :: "string \<Rightarrow> bool" where
  "site_name_ok s \<longleftrightarrow> s \<noteq> [] \<and> label_char (hd s) \<and> label_char (last s) \<and>
     list_all (\<lambda>c. c = CHR ''-'' \<or> label_char c) s"

definition cluster_ref_ok :: "ClusterRef \<Rightarrow> bool" where
  "cluster_ref_ok r \<longleftrightarrow> cr_Name r \<noteq> [] \<and> cr_Namespace r \<noteq> []"

definition probe_ok :: "PostgresProbe option \<Rightarrow> bool" where
  "probe_ok p = (case p of None \<Rightarrow> True
     | Some q \<Rightarrow> 1 \<le> sint (pp_Port q) \<and> sint (pp_Port q) \<le> 65535 \<and>
         pp_SSLMode q \<in> {''disable'', ''allow'', ''prefer'', ''require'', ''verify-ca'', ''verify-full''})"

definition failover_ok :: "FailoverSpec \<Rightarrow> bool" where
  "failover_ok f \<longleftrightarrow>
     fo_Mode f \<in> {FailoverModeAutomatic, FailoverModeManual} \<and>
     1 \<le> sint (fo_HealthCheckIntervalSeconds f) \<and> sint (fo_HealthCheckIntervalSeconds f) \<le> 300 \<and>
     2 \<le> sint (fo_FailureThreshold f) \<and> sint (fo_FailureThreshold f) \<le> 20 \<and>
     fo_PromotionPolicy f \<in> {PromotionPolicyMostAdvancedLSN, PromotionPolicyOrdered} \<and>
     fo_RejoinPolicy f \<in> {RejoinPolicyManual, RejoinPolicyAutoReplica}"

definition crd_valid :: "HAClusterSpec \<Rightarrow> bool" where
  "crd_valid sp \<longleftrightarrow>
     site_name_ok (ps_Name (Primary sp)) \<and> cluster_ref_ok (ps_ClusterRef (Primary sp)) \<and>
     probe_ok (ps_PostgresProbe (Primary sp)) \<and>
     Replicas sp \<noteq> [] \<and> distinct (map rs_Name (Replicas sp)) \<and>
     list_all (\<lambda>r. site_name_ok (rs_Name r) \<and> cluster_ref_ok (rs_ClusterRef r) \<and>
       probe_ok (rs_PostgresProbe r)) (Replicas sp) \<and>
     failover_ok (Failover sp)"

text \<open>
  The schema keeps replica names apart from one another, but not from the name of the
  bootstrap site; the field comment asks for that. \<open>spec_ok\<close> adds it.
\<close>

definition spec_ok :: "HAClusterSpec \<Rightarrow> bool" where
  "spec_ok sp \<longleftrightarrow> crd_valid sp \<and> ps_Name (Primary sp) \<notin> set (map rs_Name (Replicas sp))"

lemma spec_ok_distinct: "spec_ok sp \<Longrightarrow> distinct (site_names sp)"
  by (simp add: spec_ok_def crd_valid_def site_names_def)

lemma site_name_ok_nonempty: "site_name_ok s \<Longrightarrow> s \<noteq> []"
  by (simp add: site_name_ok_def)

lemma crd_valid_site_names: "crd_valid sp \<Longrightarrow> list_all site_name_ok (site_names sp)"
  by (simp add: crd_valid_def site_names_def list_all_iff)

lemma crd_valid_names_nonempty: "crd_valid sp \<Longrightarrow> n \<in> set (site_names sp) \<Longrightarrow> n \<noteq> []"
  using crd_valid_site_names site_name_ok_nonempty by (fastforce simp: list_all_iff)

end
