(* ===== verification/Environment.thy ===== *)
theory Environment
  imports Api_Types "HOL-Library.Sublist"
begin

text \<open>
  What the operator calls outside the repository, as parameters. \<open>lib\<close> holds the pure
  third-party functions (unstructured accessors, condition helper, error predicates,
  kubeconfig parser), \<open>env\<close> extends it with the calls that touch the outside world: the
  Kubernetes API of a client, the clock, event recorder, metric vectors and the PostgreSQL
  driver. A world \<open>'w\<close> is everything outside the process; a call takes the world and
  returns its answer and the next world, so an environment may fail, change objects
  between two calls, or answer differently each time. Theorems quantify over every
  environment unless they name one of the laws at the end, which state the documented
  behaviour of the Kubernetes API without concurrent writers.

  \<open>traced E\<close> is the environment \<open>E\<close> that also writes down the calls it receives with
  their answers; theorems about the order of calls are stated over it.

  \<open>Patch\<close> and \<open>Status().Update\<close> decode the server's answer into the object they were
  given; \<open>patch_ha\<close> and \<open>status_update_ha\<close> return that object.

  \<open>Update\<close> addresses the object by the namespace and name in its metadata. The operator
  never edits those, so the model passes the key under which the object was read.
\<close>

section \<open>API objects\<close>

datatype json =
    JNull
  | JBool bool
  | JInt i64
  | JFloat f64
  | JStr string
  | JArr "json list"
  | JObj "(string \<times> json) list"

record Service =
  svc_annotations :: "strmap option"
  svc_spec :: json

record Secret =
  secret_Data :: strmap
  secret_ResourceVersion :: string

section \<open>Parameters\<close>

record lib =
  nestedBool :: "json \<Rightarrow> string list \<Rightarrow> bool \<times> bool \<times> goerror option"
  nestedString :: "json \<Rightarrow> string list \<Rightarrow> string \<times> bool \<times> goerror option"
  nestedInt64 :: "json \<Rightarrow> string list \<Rightarrow> i64 \<times> bool \<times> goerror option"
  nestedSlice :: "json \<Rightarrow> string list \<Rightarrow> json list \<times> bool \<times> goerror option"
  setNestedField :: "json \<Rightarrow> json \<Rightarrow> string list \<Rightarrow> goerror + json"
  setNestedSlice :: "json \<Rightarrow> json list \<Rightarrow> string list \<Rightarrow> goerror + json"
  getAnnotations :: "json \<Rightarrow> strmap option"
  setAnnotations :: "json \<Rightarrow> strmap \<Rightarrow> json"
  setStatusCondition :: "Condition list \<Rightarrow> Condition \<Rightarrow> Condition list"
  isNotFound :: "goerror \<Rightarrow> bool"
  ignoreNotFound :: "goerror \<Rightarrow> goerror option"
  restConfigFromKubeConfig :: "string \<Rightarrow> goerror + nat"
  f64_to_i64_other :: "f64 \<Rightarrow> i64"

record ('w, 'c) env = lib +
  get_cluster :: "'c \<Rightarrow> NamespacedName \<Rightarrow> 'w \<Rightarrow> (goerror + json) \<times> 'w"
  update_cluster :: "'c \<Rightarrow> NamespacedName \<Rightarrow> json \<Rightarrow> 'w \<Rightarrow> goerror option \<times> 'w"
  get_service :: "'c \<Rightarrow> NamespacedName \<Rightarrow> 'w \<Rightarrow> (goerror + Service) \<times> 'w"
  update_service :: "'c \<Rightarrow> NamespacedName \<Rightarrow> Service \<Rightarrow> 'w \<Rightarrow> goerror option \<times> 'w"
  get_secret :: "'c \<Rightarrow> NamespacedName \<Rightarrow> 'w \<Rightarrow> (goerror + Secret) \<times> 'w"
  get_ha :: "'c \<Rightarrow> NamespacedName \<Rightarrow> 'w \<Rightarrow> (goerror + HACluster) \<times> 'w"
  patch_ha :: "'c \<Rightarrow> HACluster \<Rightarrow> string \<Rightarrow> 'w \<Rightarrow> (goerror + HACluster) \<times> 'w"
  status_update_ha :: "'c \<Rightarrow> HACluster \<Rightarrow> 'w \<Rightarrow> (goerror + HACluster) \<times> 'w"
  new_client :: "nat \<Rightarrow> 'w \<Rightarrow> (goerror + 'c) \<times> 'w"
  now_time :: "'w \<Rightarrow> time \<times> 'w"
  emit_event :: "NamespacedName \<Rightarrow> string \<Rightarrow> string \<Rightarrow> string \<Rightarrow> 'w \<Rightarrow> 'w"
  gauge_set :: "string \<Rightarrow> string list \<Rightarrow> f64 \<Rightarrow> 'w \<Rightarrow> 'w"
  gauge_delete :: "string \<Rightarrow> string list \<Rightarrow> 'w \<Rightarrow> 'w"
  gauge_delete_partial :: "string \<Rightarrow> strmap \<Rightarrow> 'w \<Rightarrow> 'w"
  counter_inc :: "string \<Rightarrow> string list \<Rightarrow> 'w \<Rightarrow> 'w"
  histogram_observe :: "string \<Rightarrow> string list \<Rightarrow> f64 \<Rightarrow> 'w \<Rightarrow> 'w"
  pg_connect :: "string \<Rightarrow> 'w \<Rightarrow> (goerror + nat) \<times> 'w"
  pg_query_row :: "nat \<Rightarrow> string \<Rightarrow> 'w \<Rightarrow> (goerror + (bool \<times> string \<times> f64 option)) \<times> 'w"
  pg_close :: "nat \<Rightarrow> 'w \<Rightarrow> 'w"

section \<open>State and calls\<close>

text \<open>
  The state every effect threads. Components extend the record with the process state
  they keep (the client cache, the failure counters).
\<close>

record 'w mem =
  world :: 'w

type_synonym ('w, 'x, 'a) io = "(('w, 'x) mem_scheme, 'a) state"

definition call :: "('w \<Rightarrow> 'a \<times> 'w) \<Rightarrow> ('w, 'x, 'a) io" where
  "call f = State (\<lambda>s. case f (world s) of (r, w) \<Rightarrow> (r, s\<lparr>world := w\<rparr>))"

definition notify :: "('w \<Rightarrow> 'w) \<Rightarrow> ('w, 'x, unit) io" where
  "notify f = State (\<lambda>s. ((), s\<lparr>world := f (world s)\<rparr>))"

lemma run_call [simp]:
  "run_state (call f) s = (case f (world s) of (r, w) \<Rightarrow> (r, s\<lparr>world := w\<rparr>))"
  by (simp add: call_def)

lemma run_notify [simp]: "run_state (notify f) s = ((), s\<lparr>world := f (world s)\<rparr>)"
  by (simp add: notify_def)

lemma wp_call [wp_simps]:
  "wp (call f) Q s = (case f (world s) of (r, w) \<Rightarrow> Q r (s\<lparr>world := w\<rparr>))"
  by (simp add: wp_def split: prod.splits)

lemma wp_notify [wp_simps]: "wp (notify f) Q s = Q () (s\<lparr>world := f (world s)\<rparr>)"
  by (simp add: wp_def)

lemma mem_world_id [simp]: "s\<lparr>world := world s\<rparr> = s"
  by simp

section \<open>Traced environments\<close>

datatype 'c event =
    GotCluster 'c NamespacedName "goerror + json"
  | PutCluster 'c NamespacedName json "goerror option"
  | GotService 'c NamespacedName "goerror + Service"
  | PutService 'c NamespacedName Service "goerror option"
  | GotSecret 'c NamespacedName "goerror + Secret"
  | GotHA 'c NamespacedName "goerror + HACluster"
  | PatchedHA 'c HACluster string "goerror + HACluster"
  | PutHAStatus 'c HACluster "goerror + HACluster"
  | NewClient nat "goerror + 'c"
  | ReadClock time
  | Emitted NamespacedName string string string
  | GaugeSet string "string list" f64
  | GaugeDelete string "string list"
  | GaugeDeletePartial string strmap
  | CounterInc string "string list"
  | HistogramObserve string "string list" f64
  | PgConnect string "goerror + nat"
  | PgQuery nat string "goerror + (bool \<times> string \<times> f64 option)"
  | PgClose nat

definition tr :: "('a \<Rightarrow> 'e) \<Rightarrow> ('w \<Rightarrow> 'a \<times> 'w) \<Rightarrow> 'w \<times> 'e list \<Rightarrow> 'a \<times> ('w \<times> 'e list)" where
  "tr ev f = (\<lambda>(w, t). case f w of (r, w') \<Rightarrow> (r, (w', t @ [ev r])))"

definition tr_note :: "'e \<Rightarrow> ('w \<Rightarrow> 'w) \<Rightarrow> 'w \<times> 'e list \<Rightarrow> 'w \<times> 'e list" where
  "tr_note ev f = (\<lambda>(w, t). (f w, t @ [ev]))"

definition traced :: "('w, 'c) env \<Rightarrow> ('w \<times> 'c event list, 'c) env" where
  "traced E = \<lparr>
     nestedBool = nestedBool E, nestedString = nestedString E, nestedInt64 = nestedInt64 E,
     nestedSlice = nestedSlice E, setNestedField = setNestedField E,
     setNestedSlice = setNestedSlice E, getAnnotations = getAnnotations E,
     setAnnotations = setAnnotations E, setStatusCondition = setStatusCondition E,
     isNotFound = isNotFound E, ignoreNotFound = ignoreNotFound E,
     restConfigFromKubeConfig = restConfigFromKubeConfig E,
     f64_to_i64_other = f64_to_i64_other E,
     get_cluster = (\<lambda>c k. tr (GotCluster c k) (get_cluster E c k)),
     update_cluster = (\<lambda>c k u. tr (PutCluster c k u) (update_cluster E c k u)),
     get_service = (\<lambda>c k. tr (GotService c k) (get_service E c k)),
     update_service = (\<lambda>c k v. tr (PutService c k v) (update_service E c k v)),
     get_secret = (\<lambda>c k. tr (GotSecret c k) (get_secret E c k)),
     get_ha = (\<lambda>c k. tr (GotHA c k) (get_ha E c k)),
     patch_ha = (\<lambda>c h p. tr (PatchedHA c h p) (patch_ha E c h p)),
     status_update_ha = (\<lambda>c h. tr (PutHAStatus c h) (status_update_ha E c h)),
     new_client = (\<lambda>n. tr (NewClient n) (new_client E n)),
     now_time = tr ReadClock (now_time E),
     emit_event = (\<lambda>k ty rs msg. tr_note (Emitted k ty rs msg) (emit_event E k ty rs msg)),
     gauge_set = (\<lambda>g ls v. tr_note (GaugeSet g ls v) (gauge_set E g ls v)),
     gauge_delete = (\<lambda>g ls. tr_note (GaugeDelete g ls) (gauge_delete E g ls)),
     gauge_delete_partial = (\<lambda>g mp. tr_note (GaugeDeletePartial g mp) (gauge_delete_partial E g mp)),
     counter_inc = (\<lambda>g ls. tr_note (CounterInc g ls) (counter_inc E g ls)),
     histogram_observe = (\<lambda>g ls v. tr_note (HistogramObserve g ls v) (histogram_observe E g ls v)),
     pg_connect = (\<lambda>d. tr (PgConnect d) (pg_connect E d)),
     pg_query_row = (\<lambda>n q. tr (PgQuery n q) (pg_query_row E n q)),
     pg_close = (\<lambda>n. tr_note (PgClose n) (pg_close E n)) \<rparr>"

lemma traced_lib [simp]:
  "nestedBool (traced E) = nestedBool E" "nestedString (traced E) = nestedString E"
  "nestedInt64 (traced E) = nestedInt64 E" "nestedSlice (traced E) = nestedSlice E"
  "setNestedField (traced E) = setNestedField E" "setNestedSlice (traced E) = setNestedSlice E"
  "getAnnotations (traced E) = getAnnotations E" "setAnnotations (traced E) = setAnnotations E"
  "setStatusCondition (traced E) = setStatusCondition E" "isNotFound (traced E) = isNotFound E"
  "ignoreNotFound (traced E) = ignoreNotFound E"
  "restConfigFromKubeConfig (traced E) = restConfigFromKubeConfig E"
  "f64_to_i64_other (traced E) = f64_to_i64_other E"
  by (simp_all add: traced_def)

lemma traced_env [simp]:
  "get_cluster (traced E) c k = tr (GotCluster c k) (get_cluster E c k)"
  "update_cluster (traced E) c k u = tr (PutCluster c k u) (update_cluster E c k u)"
  "get_service (traced E) c k = tr (GotService c k) (get_service E c k)"
  "update_service (traced E) c k sv = tr (PutService c k sv) (update_service E c k sv)"
  "get_secret (traced E) c k = tr (GotSecret c k) (get_secret E c k)"
  "get_ha (traced E) c k = tr (GotHA c k) (get_ha E c k)"
  "patch_ha (traced E) c h p = tr (PatchedHA c h p) (patch_ha E c h p)"
  "status_update_ha (traced E) c h = tr (PutHAStatus c h) (status_update_ha E c h)"
  "new_client (traced E) n = tr (NewClient n) (new_client E n)"
  "now_time (traced E) = tr ReadClock (now_time E)"
  "emit_event (traced E) k ty rs msg = tr_note (Emitted k ty rs msg) (emit_event E k ty rs msg)"
  "gauge_set (traced E) g ls v = tr_note (GaugeSet g ls v) (gauge_set E g ls v)"
  "gauge_delete (traced E) g ls = tr_note (GaugeDelete g ls) (gauge_delete E g ls)"
  "gauge_delete_partial (traced E) g mp =
     tr_note (GaugeDeletePartial g mp) (gauge_delete_partial E g mp)"
  "counter_inc (traced E) g ls = tr_note (CounterInc g ls) (counter_inc E g ls)"
  "histogram_observe (traced E) g ls v =
     tr_note (HistogramObserve g ls v) (histogram_observe E g ls v)"
  "pg_connect (traced E) d = tr (PgConnect d) (pg_connect E d)"
  "pg_query_row (traced E) n q = tr (PgQuery n q) (pg_query_row E n q)"
  "pg_close (traced E) n = tr_note (PgClose n) (pg_close E n)"
  by (simp_all add: traced_def)

text \<open>The calls made so far, in the order they were made.\<close>

definition trace :: "('w \<times> 'e list, 'x) mem_scheme \<Rightarrow> 'e list" where
  "trace s = snd (world s)"

lemma trace_upd [simp]: "trace (s\<lparr>world := (w, t)\<rparr>) = t"
  by (simp add: trace_def)

lemma wp_call_tr:
  "wp (call (tr ev f)) Q s \<longleftrightarrow>
   (\<forall>r w. f (fst (world s)) = (r, w) \<longrightarrow> Q r (s\<lparr>world := (w, trace s @ [ev r])\<rparr>))"
  by (auto simp: wp_call tr_def trace_def split: prod.splits)

lemma wp_notify_tr:
  "wp (notify (tr_note ev f)) Q s \<longleftrightarrow> Q () (s\<lparr>world := (f (fst (world s)), trace s @ [ev])\<rparr>)"
  by (auto simp: wp_notify tr_note_def trace_def split: prod.splits)

section \<open>Relations between the start and the end of a run\<close>

text \<open>
  \<open>relates R f\<close>: every run of \<open>f\<close> ends in a state \<open>R\<close>-related to the one it started in.
  For a reflexive and transitive \<open>R\<close> this composes along the code; the locale
  \<open>run_relation\<close> holds the rules. Its interpretations are \<open>log\<close> (the calls a run adds to the
  trace all satisfy a predicate) and, for the controller, the frames of its state.
\<close>

definition relates :: "('s \<Rightarrow> 's \<Rightarrow> bool) \<Rightarrow> ('s, 'a) state \<Rightarrow> bool" where
  "relates R f \<longleftrightarrow> (\<forall>s. wp f (\<lambda>_ t. R s t) s)"

lemma relates_run: "relates R f \<Longrightarrow> run_state f s = (a, t) \<Longrightarrow> R s t"
  by (auto simp: relates_def wp_def split: prod.splits)

lemma relates_snd: "relates R f \<Longrightarrow> R s (snd (run_state f s))"
  by (metis prod.collapse relates_run)

locale run_relation =
  fixes R :: "'s \<Rightarrow> 's \<Rightarrow> bool"
  assumes start: "R s s"
    and seq: "R s t \<Longrightarrow> R t u \<Longrightarrow> R s u"
begin

lemma relates_return: "relates R (State_Monad.return x)"
  by (simp add: relates_def wp_simps start)

lemma relates_bind:
  assumes "relates R f" and "\<And>a. relates R (g a)"
  shows "relates R (State_Monad.bind f g)"
  unfolding relates_def
proof
  fix s
  obtain a t where f: "run_state f s = (a, t)" by fastforce
  obtain b u where g: "run_state (g a) t = (b, u)" by fastforce
  from relates_run [OF assms(1) f] relates_run [OF assms(2) g] have "R s u" by (rule seq)
  with f g show "wp (State_Monad.bind f g) (\<lambda>_ t. R s t) s"
    by (simp add: wp_def)
qed

lemma relates_if: "relates R f \<Longrightarrow> relates R g \<Longrightarrow> relates R (if b then f else g)"
  by simp

lemma relates_sum:
  "(\<And>a. relates R (f a)) \<Longrightarrow> (\<And>b. relates R (g b)) \<Longrightarrow> relates R (case x of Inl a \<Rightarrow> f a | Inr b \<Rightarrow> g b)"
  by (cases x) auto

lemma relates_option:
  "relates R f \<Longrightarrow> (\<And>b. relates R (g b)) \<Longrightarrow> relates R (case x of None \<Rightarrow> f | Some b \<Rightarrow> g b)"
  by (cases x) auto

lemma relates_res:
  "(\<And>a. relates R (f a)) \<Longrightarrow> (\<And>e. relates R (g e)) \<Longrightarrow> (\<And>p. relates R (h p)) \<Longrightarrow>
   relates R (case x of Ok a \<Rightarrow> f a | Err e \<Rightarrow> g e | Panic p \<Rightarrow> h p)"
  by (cases x) auto

lemma relates_prod: "(\<And>a b. relates R (f a b)) \<Longrightarrow> relates R (case x of (a, b) \<Rightarrow> f a b)"
  by (cases x) auto

lemma relates_let: "relates R (f v) \<Longrightarrow> relates R (let x = v in f x)"
  by simp

lemmas relates_rules = relates_return relates_bind relates_if relates_sum relates_option relates_res
  relates_prod relates_let

end

text \<open>The run only adds calls that satisfy \<open>P\<close>.\<close>

definition logs :: "('e \<Rightarrow> bool) \<Rightarrow> ('w \<times> 'e list, 'x) mem_scheme \<Rightarrow> ('w \<times> 'e list, 'x) mem_scheme \<Rightarrow> bool" where
  "logs P s t \<longleftrightarrow> (\<exists>es. trace t = trace s @ es \<and> list_all P es)"

interpretation log: run_relation "logs P" for P
  by unfold_locales (fastforce simp: logs_def)+

lemma logs_call: "(\<And>r. P (ev r)) \<Longrightarrow> relates (logs P) (call (tr ev f))"
  by (simp add: relates_def wp_call_tr logs_def)

lemma logs_notify: "P ev \<Longrightarrow> relates (logs P) (notify (tr_note ev f))"
  by (simp add: relates_def wp_notify_tr logs_def)

lemma logs_mono:
  assumes "relates (logs P) f" and "\<And>e. P e \<Longrightarrow> Q e"
  shows "relates (logs Q) f"
proof -
  have "logs P s t \<Longrightarrow> logs Q s t" for s t
    unfolding logs_def using assms(2) by (metis list.pred_mono_strong)
  with assms(1) show ?thesis unfolding relates_def by (blast intro: wp_mono)
qed

text \<open>The calls that change a site: updates of a CNPG Cluster or of a Service.\<close>

fun site_write :: "'c event \<Rightarrow> bool" where
  "site_write (PutCluster c k u r) = True"
| "site_write (PutService c k v r) = True"
| "site_write _ = False"

section \<open>Laws of the parameters\<close>

text \<open>Paths that fork: neither is a prefix of the other.\<close>

definition path_fork :: "string list \<Rightarrow> string list \<Rightarrow> bool" where
  "path_fork p q \<longleftrightarrow> \<not> prefix p q \<and> \<not> prefix q p"

definition same_reads :: "'x lib_scheme \<Rightarrow> json \<Rightarrow> json \<Rightarrow> string list \<Rightarrow> bool" where
  "same_reads L u v q \<longleftrightarrow> nestedBool L u q = nestedBool L v q \<and>
     nestedString L u q = nestedString L v q \<and> nestedSlice L u q = nestedSlice L v q"

definition same_annotations :: "'x lib_scheme \<Rightarrow> json \<Rightarrow> json \<Rightarrow> bool" where
  "same_annotations L u v \<longleftrightarrow>
     (\<forall>k. nil_lookup (getAnnotations L u) k = nil_lookup (getAnnotations L v) k)"

text \<open>An API object is a JSON object whose metadata, if present, is one too.\<close>

definition wf_object :: "json \<Rightarrow> bool" where
  "wf_object u = (case u of
     JObj m \<Rightarrow> (case map_of m ''metadata'' of None \<Rightarrow> True | Some (JObj _) \<Rightarrow> True | Some _ \<Rightarrow> False)
   | _ \<Rightarrow> False)"

text \<open>
  The accessors of \<open>unstructured\<close>: a field reads back as it was set, a write leaves the
  fields on other branches and (below \<open>spec\<close>) the annotations alone, and a boolean
  that was found can be overwritten.
\<close>

definition unstructured_laws :: "'x lib_scheme \<Rightarrow> bool" where
  "unstructured_laws L \<longleftrightarrow>
     (\<forall>u b p u'. setNestedField L u (JBool b) p = Inr u' \<longrightarrow> nestedBool L u' p = (b, True, None)) \<and>
     (\<forall>u v p u' q. setNestedField L u v p = Inr u' \<longrightarrow> path_fork p q \<longrightarrow> same_reads L u' u q) \<and>
     (\<forall>u xs p u'. setNestedSlice L u xs p = Inr u' \<longrightarrow> nestedSlice L u' p = (xs, True, None)) \<and>
     (\<forall>u xs p u' q. setNestedSlice L u xs p = Inr u' \<longrightarrow> path_fork p q \<longrightarrow> same_reads L u' u q) \<and>
     (\<forall>u v p u'. setNestedField L u v (''spec'' # p) = Inr u' \<longrightarrow> same_annotations L u' u) \<and>
     (\<forall>u xs p u'. setNestedSlice L u xs (''spec'' # p) = Inr u' \<longrightarrow> same_annotations L u' u) \<and>
     (\<forall>u a k. wf_object u \<longrightarrow> a \<noteq> [] \<longrightarrow>
        nil_lookup (getAnnotations L (setAnnotations L u a)) k = go_lookup a k) \<and>
     (\<forall>u a p. same_reads L (setAnnotations L u a) u (''spec'' # p)) \<and>
     (\<forall>u p b v. p \<noteq> [] \<longrightarrow> nestedBool L u p = (b, True, None) \<longrightarrow>
        (\<exists>u'. setNestedField L u v p = Inr u'))"

text \<open>
  An object read back after an update agrees with the one written in its annotations and
  below \<open>spec\<close>; the API server owns the rest (resource version, status).
\<close>

definition same_intent :: "'x lib_scheme \<Rightarrow> json \<Rightarrow> json \<Rightarrow> bool" where
  "same_intent L u v \<longleftrightarrow> same_annotations L u v \<and> (\<forall>p. same_reads L u v (''spec'' # p))"

definition same_service :: "Service \<Rightarrow> Service \<Rightarrow> bool" where
  "same_service u v \<longleftrightarrow>
     (\<forall>k. nil_lookup (svc_annotations u) k = nil_lookup (svc_annotations v) k)"

text \<open>
  The Kubernetes API without concurrent writers: reads change nothing and return
  well-formed objects; after a successful
  update the object reads back with the same intent; after any update, successful or not,
  the object is either the old or the written one, and objects elsewhere are unchanged; an
  object that reads is not reported missing by an update.
  \<open>srv\<close> names the API server a client talks to, since two clients may talk to the same.
\<close>

definition store_laws :: "('w, 'c) env \<Rightarrow> ('c \<Rightarrow> 's) \<Rightarrow> bool" where
  "store_laws E srv \<longleftrightarrow>
     (\<forall>c k w. snd (get_cluster E c k w) = w) \<and>
     (\<forall>c k w. snd (get_service E c k w) = w) \<and>
     (\<forall>c k w u. fst (get_cluster E c k w) = Inr u \<longrightarrow> wf_object u) \<and>
     (\<forall>c k u w w'. update_cluster E c k u w = (None, w') \<longrightarrow>
        (\<exists>u'. fst (get_cluster E c k w') = Inr u' \<and> same_intent E u' u)) \<and>
     (\<forall>c k v w w'. update_service E c k v w = (None, w') \<longrightarrow>
        (\<exists>v'. fst (get_service E c k w') = Inr v' \<and> same_service v' v)) \<and>
     (\<forall>c k u w e w'. update_cluster E c k u w = (Some e, w') \<longrightarrow>
        fst (get_cluster E c k w') = fst (get_cluster E c k w) \<or>
        (\<exists>u'. fst (get_cluster E c k w') = Inr u' \<and> same_intent E u' u)) \<and>
     (\<forall>c k u w r w' c' k'. update_cluster E c k u w = (r, w') \<longrightarrow> (srv c', k') \<noteq> (srv c, k) \<longrightarrow>
        fst (get_cluster E c' k' w') = fst (get_cluster E c' k' w)) \<and>
     (\<forall>c k u w r w' c' k'. update_cluster E c k u w = (r, w') \<longrightarrow>
        fst (get_service E c' k' w') = fst (get_service E c' k' w)) \<and>
     (\<forall>c k v w r w' c' k'. update_service E c k v w = (r, w') \<longrightarrow> (srv c', k') \<noteq> (srv c, k) \<longrightarrow>
        fst (get_service E c' k' w') = fst (get_service E c' k' w)) \<and>
     (\<forall>c k v w r w' c' k'. update_service E c k v w = (r, w') \<longrightarrow>
        fst (get_cluster E c' k' w') = fst (get_cluster E c' k' w)) \<and>
     (\<forall>c k u v w e w'. fst (get_cluster E c k w) = Inr v \<longrightarrow> update_cluster E c k u w = (Some e, w') \<longrightarrow>
        \<not> isNotFound E e) \<and>
     (\<forall>c k u v w e w'. fst (get_service E c k w) = Inr v \<longrightarrow> update_service E c k u w = (Some e, w') \<longrightarrow>
        \<not> isNotFound E e)"

text \<open>
  \<open>meta.SetStatusCondition\<close>: the condition of that type carries the new status, reason,
  message and generation; conditions of other types are unchanged.
\<close>

definition find_cond :: "Condition list \<Rightarrow> string \<Rightarrow> Condition option" where
  "find_cond cs ty = find (\<lambda>c. cond_Type c = ty) cs"

definition condition_laws :: "'x lib_scheme \<Rightarrow> bool" where
  "condition_laws L \<longleftrightarrow>
     (\<forall>cs c. \<exists>d. find_cond (setStatusCondition L cs c) (cond_Type c) = Some d \<and>
        cond_Status d = cond_Status c \<and> cond_Reason d = cond_Reason c \<and>
        cond_Message d = cond_Message c \<and> cond_ObservedGeneration d = cond_ObservedGeneration c) \<and>
     (\<forall>cs c ty. ty \<noteq> cond_Type c \<longrightarrow>
        find_cond (setStatusCondition L cs c) ty = find_cond cs ty)"

text \<open>\<open>errors.IsNotFound\<close> looks through wrapped errors.\<close>

definition not_found_wraps :: "'x lib_scheme \<Rightarrow> bool" where
  "not_found_wraps L \<longleftrightarrow> (\<forall>p e. isNotFound L (Wrapf p e) = isNotFound L e)"

lemma same_reads_refl [simp]: "same_reads L u u q"
  by (simp add: same_reads_def)

lemma same_intent_refl [simp]: "same_intent L u u"
  by (simp add: same_intent_def same_annotations_def)

lemma same_intentD:
  assumes "same_intent L u v"
  shows "nil_lookup (getAnnotations L u) k = nil_lookup (getAnnotations L v) k"
    and "nestedBool L u (''spec'' # p) = nestedBool L v (''spec'' # p)"
    and "nestedString L u (''spec'' # p) = nestedString L v (''spec'' # p)"
    and "nestedSlice L u (''spec'' # p) = nestedSlice L v (''spec'' # p)"
  using assms by (auto simp: same_intent_def same_annotations_def same_reads_def)

end
