(* ===== verification/Reference_World.thy ===== *)
theory Reference_World
  imports Environment
begin

text \<open>
  A concrete instance of the parameters: JSON accessors on association lists and an
  in-memory store with one API server per client number. It satisfies every law of
  \<open>Environment\<close>, so a theorem that assumes one of them is not empty, and the witnesses of
  the development run the operator on it. It models no code of the repository.
\<close>

section \<open>Accessors\<close>

fun nested :: "json \<Rightarrow> string list \<Rightarrow> goerror + json option" where
  "nested v [] = Inr (Some v)"
| "nested (JObj m) (f # fs) = (case map_of m f of None \<Rightarrow> Inr None | Some v \<Rightarrow> nested v fs)"
| "nested JNull (f # fs) = Inr None"
| "nested v (f # fs) = Inl (Errorf ''accessor error'')"

fun set_nested :: "json \<Rightarrow> json \<Rightarrow> string list \<Rightarrow> goerror + json" where
  "set_nested (JObj m) x [f] = Inr (JObj (AList.update f x m))"
| "set_nested (JObj m) x (f # g # fs) =
     (case set_nested (case map_of m f of None \<Rightarrow> JObj [] | Some v \<Rightarrow> v) x (g # fs) of
        Inl e \<Rightarrow> Inl e
      | Inr v \<Rightarrow> Inr (JObj (AList.update f v m)))"
| "set_nested v x fs = Inl (Errorf ''value cannot be set'')"

lemma nested_set_same: "set_nested u x p = Inr u' \<Longrightarrow> nested u' p = Inr (Some x)"
  by (induction u x p arbitrary: u' rule: set_nested.induct) (auto split: sum.splits)

lemma path_fork_Cons: "path_fork (f # fs) (g # gs) \<longleftrightarrow> f \<noteq> g \<or> path_fork fs gs"
  by (auto simp: path_fork_def)

lemma path_fork_Nil: "\<not> path_fork [] q" "\<not> path_fork q []"
  by (auto simp: path_fork_def)

lemma nested_set_fork:
  "set_nested u x p = Inr u' \<Longrightarrow> path_fork p q \<Longrightarrow> nested u' q = nested u q"
proof (induction u x p arbitrary: u' q rule: set_nested.induct)
  case (1 m x f)
  then show ?case by (cases q) (auto simp: path_fork_Cons path_fork_Nil)
next
  case (2 m x f g fs)
  from "2.prems"(1) obtain v where
    v: "set_nested (case map_of m f of None \<Rightarrow> JObj [] | Some v \<Rightarrow> v) x (g # fs) = Inr v"
    and u': "u' = JObj (AList.update f v m)"
    by (auto split: sum.splits)
  from "2.prems"(2) obtain h hs where q: "q = h # hs" by (cases q) (auto simp: path_fork_Nil)
  show ?case
  proof (cases "h = f")
    case False
    with q u' show ?thesis by simp
  next
    case True
    with "2.prems"(2) q have fk: "path_fork (g # fs) hs" by (simp add: path_fork_Cons)
    have "nested v hs = nested (case map_of m f of None \<Rightarrow> JObj [] | Some v \<Rightarrow> v) hs"
      by (rule "2.IH" [OF v fk])
    moreover have "hs \<noteq> []" using fk by (auto simp: path_fork_Nil)
    ultimately show ?thesis using True q u' by (cases hs) (auto split: option.splits)
  qed
qed simp_all

definition ref_nestedBool :: "json \<Rightarrow> string list \<Rightarrow> bool \<times> bool \<times> goerror option" where
  "ref_nestedBool u p = (case nested u p of
     Inl e \<Rightarrow> (False, False, Some e) | Inr None \<Rightarrow> (False, False, None)
   | Inr (Some (JBool b)) \<Rightarrow> (b, True, None)
   | Inr (Some _) \<Rightarrow> (False, False, Some (Errorf ''not a bool'')))"

definition ref_nestedString :: "json \<Rightarrow> string list \<Rightarrow> string \<times> bool \<times> goerror option" where
  "ref_nestedString u p = (case nested u p of
     Inl e \<Rightarrow> ([], False, Some e) | Inr None \<Rightarrow> ([], False, None)
   | Inr (Some (JStr s)) \<Rightarrow> (s, True, None)
   | Inr (Some _) \<Rightarrow> ([], False, Some (Errorf ''not a string'')))"

definition ref_nestedInt64 :: "json \<Rightarrow> string list \<Rightarrow> i64 \<times> bool \<times> goerror option" where
  "ref_nestedInt64 u p = (case nested u p of
     Inl e \<Rightarrow> (0, False, Some e) | Inr None \<Rightarrow> (0, False, None)
   | Inr (Some (JInt i)) \<Rightarrow> (i, True, None)
   | Inr (Some _) \<Rightarrow> (0, False, Some (Errorf ''not an int64'')))"

definition ref_nestedSlice :: "json \<Rightarrow> string list \<Rightarrow> json list \<times> bool \<times> goerror option" where
  "ref_nestedSlice u p = (case nested u p of
     Inl e \<Rightarrow> ([], False, Some e) | Inr None \<Rightarrow> ([], False, None)
   | Inr (Some (JArr xs)) \<Rightarrow> (xs, True, None)
   | Inr (Some _) \<Rightarrow> ([], False, Some (Errorf ''not a slice'')))"

fun str_entries :: "(string \<times> json) list \<Rightarrow> strmap option" where
  "str_entries [] = Some []"
| "str_entries ((k, JStr v) # m) = map_option (\<lambda>r. (k, v) # r) (str_entries m)"
| "str_entries _ = None"

lemma str_entries_map: "str_entries (map (\<lambda>(k, v). (k, JStr v)) a) = Some a"
  by (induction a) auto

definition ref_getAnnotations :: "json \<Rightarrow> strmap option" where
  "ref_getAnnotations u = (case nested u [''metadata'', ''annotations''] of
     Inr (Some (JObj m)) \<Rightarrow> str_entries m | _ \<Rightarrow> None)"

definition ref_setAnnotations :: "json \<Rightarrow> strmap \<Rightarrow> json" where
  "ref_setAnnotations u a =
     (case set_nested u (JObj (map (\<lambda>(k, v). (k, JStr v)) a)) [''metadata'', ''annotations''] of
        Inr v \<Rightarrow> v | Inl _ \<Rightarrow> u)"

fun ref_isNotFound :: "goerror \<Rightarrow> bool" where
  "ref_isNotFound (ExtError r t) = (r = ''NotFound'')"
| "ref_isNotFound (Errorf t) = False"
| "ref_isNotFound (Wrapf p e) = ref_isNotFound e"

fun ref_setStatusCondition :: "Condition list \<Rightarrow> Condition \<Rightarrow> Condition list" where
  "ref_setStatusCondition [] c = [c]"
| "ref_setStatusCondition (d # ds) c =
     (if cond_Type d = cond_Type c
      then c\<lparr>cond_LastTransitionTime := (if cond_Status d = cond_Status c
             then cond_LastTransitionTime d else cond_LastTransitionTime c)\<rparr> # ds
      else d # ref_setStatusCondition ds c)"

section \<open>Store\<close>

record rworld =
  rw_clusters :: "nat \<times> NamespacedName \<Rightarrow> json option"
  rw_services :: "nat \<times> NamespacedName \<Rightarrow> Service option"
  rw_secrets :: "nat \<times> NamespacedName \<Rightarrow> Secret option"
  rw_has :: "NamespacedName \<Rightarrow> HACluster option"
  rw_clock :: time
  rw_gauges :: "string \<times> string list \<Rightarrow> f64 option"
  rw_wal :: "string \<Rightarrow> (bool \<times> string \<times> f64 option) option"

definition rw_empty :: rworld where
  "rw_empty = \<lparr>rw_clusters = (\<lambda>_. None), rw_services = (\<lambda>_. None), rw_secrets = (\<lambda>_. None),
     rw_has = (\<lambda>_. None), rw_clock = 0, rw_gauges = (\<lambda>_. None), rw_wal = (\<lambda>_. None)\<rparr>"

abbreviation missing :: goerror where
  "missing \<equiv> ExtError ''NotFound'' ''not found''"

definition ref_env :: "(rworld, nat) env" where
  "ref_env = \<lparr>
     nestedBool = ref_nestedBool, nestedString = ref_nestedString, nestedInt64 = ref_nestedInt64,
     nestedSlice = ref_nestedSlice, setNestedField = set_nested,
     setNestedSlice = (\<lambda>u xs p. set_nested u (JArr xs) p),
     getAnnotations = ref_getAnnotations, setAnnotations = ref_setAnnotations,
     setStatusCondition = ref_setStatusCondition, isNotFound = ref_isNotFound,
     ignoreNotFound = (\<lambda>e. if ref_isNotFound e then None else Some e),
     restConfigFromKubeConfig = (\<lambda>kc. Inr (length kc)), f64_to_i64_other = (\<lambda>_. 0),
     get_cluster = (\<lambda>c k w. (case rw_clusters w (c, k) of
        None \<Rightarrow> (Inl missing, w)
      | Some u \<Rightarrow> (if wf_object u then Inr u else Inl (ExtError ''Invalid'' ''invalid''), w))),
     update_cluster = (\<lambda>c k u w. (if rw_clusters w (c, k) = None then (Some missing, w)
        else if wf_object u then (None, w\<lparr>rw_clusters := (rw_clusters w)((c, k) := Some u)\<rparr>)
        else (Some (ExtError ''Invalid'' ''invalid''), w))),
     get_service = (\<lambda>c k w. (case rw_services w (c, k) of
        None \<Rightarrow> (Inl missing, w) | Some v \<Rightarrow> (Inr v, w))),
     update_service = (\<lambda>c k v w. (if rw_services w (c, k) = None then (Some missing, w)
        else (None, w\<lparr>rw_services := (rw_services w)((c, k) := Some v)\<rparr>))),
     get_secret = (\<lambda>c k w. (case rw_secrets w (c, k) of
        None \<Rightarrow> (Inl missing, w) | Some v \<Rightarrow> (Inr v, w))),
     get_ha = (\<lambda>c k w. (case rw_has w k of None \<Rightarrow> (Inl missing, w) | Some h \<Rightarrow> (Inr h, w))),
     patch_ha = (\<lambda>c h p w. (case rw_has w (ha_key h) of
        None \<Rightarrow> (Inl missing, w)
      | Some g \<Rightarrow> (let g' = g\<lparr>ha_Annotations := AList.delete ''ha.cnpg.io/promote'' (ha_Annotations g)\<rparr>
          in (Inr g', w\<lparr>rw_has := (rw_has w)(ha_key h := Some g')\<rparr>)))),
     status_update_ha = (\<lambda>c h w. (case rw_has w (ha_key h) of
        None \<Rightarrow> (Inl missing, w)
      | Some g \<Rightarrow> (let g' = g\<lparr>ha_Status := ha_Status h\<rparr>
          in (Inr g', w\<lparr>rw_has := (rw_has w)(ha_key h := Some g')\<rparr>)))),
     new_client = (\<lambda>n w. (Inr n, w)),
     now_time = (\<lambda>w. (rw_clock w, w)),
     emit_event = (\<lambda>k ty rs msg w. w),
     gauge_set = (\<lambda>g ls v w. w\<lparr>rw_gauges := (rw_gauges w)((g, ls) := Some v)\<rparr>),
     gauge_delete = (\<lambda>g ls w. w\<lparr>rw_gauges := (rw_gauges w)((g, ls) := None)\<rparr>),
     gauge_delete_partial = (\<lambda>g mp w. w\<lparr>rw_gauges := (\<lambda>(g', ls).
        if g' = g \<and> take (length mp) ls = map snd mp then None else rw_gauges w (g', ls))\<rparr>),
     counter_inc = (\<lambda>g ls w. w), histogram_observe = (\<lambda>g ls v w. w),
     pg_connect = (\<lambda>d w. (case rw_wal w d of
        None \<Rightarrow> (Inl (ExtError ''Conn'' ''refused''), w) | Some _ \<Rightarrow> (Inr 0, w))),
     pg_query_row = (\<lambda>n q w. (Inl (ExtError ''Query'' ''no rows''), w)),
     pg_close = (\<lambda>n w. w) \<rparr>"

lemma ref_env_lib [simp]:
  "nestedBool ref_env = ref_nestedBool" "nestedString ref_env = ref_nestedString"
  "nestedInt64 ref_env = ref_nestedInt64" "nestedSlice ref_env = ref_nestedSlice"
  "setNestedField ref_env = set_nested" "setNestedSlice ref_env u xs p = set_nested u (JArr xs) p"
  "getAnnotations ref_env = ref_getAnnotations" "setAnnotations ref_env = ref_setAnnotations"
  "setStatusCondition ref_env = ref_setStatusCondition" "isNotFound ref_env = ref_isNotFound"
  "restConfigFromKubeConfig ref_env kc = Inr (length kc)"
  by (simp_all add: ref_env_def)

section \<open>The instance satisfies the laws\<close>

lemma ref_fork_reads:
  assumes "set_nested u x p = Inr u'" and "path_fork p q"
  shows "same_reads ref_env u' u q"
  by (simp add: same_reads_def ref_nestedBool_def ref_nestedString_def ref_nestedSlice_def
      nested_set_fork [OF assms])

lemma ref_spec_annotations:
  assumes "set_nested u x (''spec'' # p) = Inr u'"
  shows "same_annotations ref_env u' u"
proof -
  have "nested u' [''metadata'', ''annotations''] = nested u [''metadata'', ''annotations'']"
    by (rule nested_set_fork [OF assms]) (simp add: path_fork_Cons)
  then show ?thesis by (simp add: same_annotations_def ref_getAnnotations_def)
qed

lemma ref_setAnnotations_nested:
  assumes "wf_object u"
  shows "nested (ref_setAnnotations u a) [''metadata'', ''annotations''] =
    Inr (Some (JObj (map (\<lambda>(k, v). (k, JStr v)) a)))"
proof -
  let ?x = "JObj (map (\<lambda>(k, v). (k, JStr v)) a)"
  obtain m where m: "u = JObj m" using assms by (cases u) (simp_all add: wf_object_def)
  obtain v where "set_nested u ?x [''metadata'', ''annotations''] = Inr v"
    using assms m
    by (cases "map_of m ''metadata''"; cases "the (map_of m ''metadata'')")
       (auto simp: wf_object_def)
  then show ?thesis by (simp add: ref_setAnnotations_def nested_set_same)
qed

lemma ref_settable:
  assumes "p \<noteq> []" and "nested u p = Inr (Some y)"
  shows "\<exists>u'. set_nested u x p = Inr u'"
  using assms
proof (induction u x p rule: set_nested.induct)
  case (2 m x f g fs)
  then show ?case by (auto split: option.splits sum.splits)
qed (auto simp: neq_Nil_conv)

lemma unstructured_laws_ref: "unstructured_laws ref_env"
proof -
  have ann: "same_reads ref_env (ref_setAnnotations u a) u (''spec'' # p)" for u a p
    using ref_fork_reads
    by (auto simp: ref_setAnnotations_def path_fork_Cons split: sum.splits)
  have set: "\<exists>u'. set_nested u v p = Inr u'"
    if "p \<noteq> []" "ref_nestedBool u p = (b, True, None)" for u v p b
    using that ref_settable by (auto simp: ref_nestedBool_def split: sum.splits option.splits)
  show ?thesis
    unfolding unstructured_laws_def
    using ann set
    by (auto simp: ref_fork_reads ref_spec_annotations ref_setAnnotations_nested
        ref_nestedBool_def ref_nestedSlice_def nested_set_same ref_getAnnotations_def
        str_entries_map nil_lookup_def)
qed

lemma store_laws_ref: "store_laws ref_env id"
  unfolding store_laws_def
  by (auto simp: ref_env_def same_service_def split: option.splits if_splits)

lemma condition_laws_ref: "condition_laws ref_env"
proof -
  have 1: "\<exists>d. find_cond (ref_setStatusCondition cs c) (cond_Type c) = Some d \<and>
        cond_Status d = cond_Status c \<and> cond_Reason d = cond_Reason c \<and>
        cond_Message d = cond_Message c \<and> cond_ObservedGeneration d = cond_ObservedGeneration c" for cs c
    by (induction cs) (auto simp: find_cond_def)
  have 2: "ty \<noteq> cond_Type c \<Longrightarrow> find_cond (ref_setStatusCondition cs c) ty = find_cond cs ty" for cs c ty
    by (induction cs) (auto simp: find_cond_def)
  show ?thesis by (simp add: condition_laws_def 1 2)
qed

lemma not_found_wraps_ref: "not_found_wraps ref_env"
  by (simp add: not_found_wraps_def)

section \<open>A two-site sample\<close>

text \<open>
  A CNPG Cluster object with one external cluster, and a world with a primary-mode
  Cluster on server 0 and replica-mode Clusters on servers 1 and 2, whose kubeconfig Secrets
  are on server 0.
\<close>

definition demo_cluster :: "bool \<Rightarrow> string \<Rightarrow> i64 \<Rightarrow> json" where
  "demo_cluster replica host instances = JObj [
     (''metadata'', JObj [(''annotations'', JObj [(''team'', JStr ''db'')])]),
     (''spec'', JObj [
        (''replica'', JObj [(''enabled'', JBool replica), (''source'', JStr ''origin'')]),
        (''externalClusters'', JArr [JObj [(''name'', JStr ''origin''),
           (''connectionParameters'', JObj [(''host'', JStr host)])]])]),
     (''status'', JObj [(''readyInstances'', JInt instances), (''timelineID'', JInt 1)])]"

definition demo_service :: Service where
  "demo_service = \<lparr>svc_annotations = None, svc_spec = JNull\<rparr>"

definition demo_world :: "i64 \<Rightarrow> rworld" where
  "demo_world instances = rw_empty\<lparr>
     rw_clusters := (\<lambda>_. None)((0, nn ''db'' ''pg'') := Some (demo_cluster False ''old'' instances),
       (1, nn ''db'' ''pg'') := Some (demo_cluster True ''a'' 1),
       (2, nn ''db'' ''pg'') := Some (demo_cluster True ''a'' 1)),
     rw_services := (\<lambda>_. None)((0, nn ''db'' ''pg-rw'') := Some demo_service,
       (1, nn ''db'' ''pg-rw'') := Some demo_service, (2, nn ''db'' ''pg-rw'') := Some demo_service),
     rw_secrets := (\<lambda>_. None)(
       (0, nn ''ha'' ''site-b'') := Some \<lparr>secret_Data = [(''kubeconfig'', ''x'')], secret_ResourceVersion = ''7''\<rparr>,
       (0, nn ''ha'' ''site-c'') := Some \<lparr>secret_Data = [(''kubeconfig'', ''xx'')], secret_ResourceVersion = ''8''\<rparr>),
     rw_clock := 100000000000\<rparr>"

end
