(* ===== verification/Health.thy ===== *)
theory Health
  imports Reference_World
begin

text \<open>
  \<open>internal/health/health.go\<close>: the health of one site, read off its CNPG Cluster object.
  \<open>parseCluster\<close> is pure; \<open>Probe\<close> reads the object through a client and never returns an
  error, so that one unreachable site cannot fail a reconcile.
\<close>

record SiteHealth =
  Reachable :: bool
  sh_Primary :: bool
  Ready :: bool
  Phase :: string
  Reason :: string
  TimelineID :: i64
  LSNKnown :: bool
  LSN :: string
  LSNValue :: u64
  LagSeconds :: "f64 option"

definition zero_health :: SiteHealth where
  "zero_health = \<lparr>Reachable = False, sh_Primary = False, Ready = False, Phase = [], Reason = [],
     TimelineID = 0, LSNKnown = False, LSN = [], LSNValue = 0, LagSeconds = None\<rparr>"

definition replica_enabled_path :: "string list" where
  "replica_enabled_path = [''spec'', ''replica'', ''enabled'']"

definition parseCluster :: "'x lib_scheme \<Rightarrow> json \<Rightarrow> SiteHealth" where
  "parseCluster L u =
     (let (replicaEnabled, found, _) = nestedBool L u replica_enabled_path;
          h = zero_health\<lparr>sh_Primary := \<not> found \<or> \<not> replicaEnabled\<rparr>;
          h = h\<lparr>Phase := fst (nestedString L u [''status'', ''phase''])\<rparr>;
          h = h\<lparr>TimelineID := fst (nestedInt64 L u [''status'', ''timelineID''])\<rparr>;
          readyInstances = fst (nestedInt64 L u [''status'', ''readyInstances'']);
          h = h\<lparr>Ready := 0 < sint readyInstances\<rparr>
      in if \<not> Ready h
         then h\<lparr>Reason := ''not ready (phase='' @ fmt_q (Phase h) @ '', readyInstances='' @
                  show_int (sint readyInstances) @ '')''\<rparr>
         else h)"

definition Probe :: "('w, 'c) env \<Rightarrow> 'c \<Rightarrow> NamespacedName \<Rightarrow> ('w, 'x, SiteHealth) io" where
  "Probe E cli ref = do {
     r \<leftarrow> call (get_cluster E cli ref);
     case r of
       Inl e \<Rightarrow> State_Monad.return (zero_health\<lparr>Reason :=
         ''get cnpg cluster '' @ nn_Namespace ref @ ''/'' @ nn_Name ref @ '': '' @ err_text e\<rparr>)
     | Inr u \<Rightarrow> State_Monad.return ((parseCluster E u)\<lparr>Reachable := True\<rparr>)
   }"

text \<open>Primary mode of a Cluster object: \<open>spec.replica.enabled\<close> absent or false.\<close>

definition in_primary_mode :: "'x lib_scheme \<Rightarrow> json \<Rightarrow> bool" where
  "in_primary_mode L u \<longleftrightarrow>
     (case nestedBool L u replica_enabled_path of (b, found, _) \<Rightarrow> \<not> found \<or> \<not> b)"

lemma parseCluster_fields [simp]:
  "sh_Primary (parseCluster L u) = in_primary_mode L u"
  "Ready (parseCluster L u) = (0 < sint (fst (nestedInt64 L u [''status'', ''readyInstances''])))"
  "Phase (parseCluster L u) = fst (nestedString L u [''status'', ''phase''])"
  "TimelineID (parseCluster L u) = fst (nestedInt64 L u [''status'', ''timelineID''])"
  "Reachable (parseCluster L u) = False"
  "LSNKnown (parseCluster L u) = False" "LSN (parseCluster L u) = []"
  "LSNValue (parseCluster L u) = 0" "LagSeconds (parseCluster L u) = None"
  by (simp_all add: parseCluster_def in_primary_mode_def zero_health_def Let_def split: prod.splits)

lemma parseCluster_traced: "parseCluster (traced E) u = parseCluster E u"
  by (simp add: parseCluster_def)

lemma parseCluster_reason: "Reason (parseCluster L u) = [] \<longleftrightarrow> Ready (parseCluster L u)"
  by (simp add: parseCluster_def zero_health_def Let_def split: prod.splits)

lemma run_Probe:
  "run_state (Probe E cli ref) s =
     (case get_cluster E cli ref (world s) of
        (Inl e, w) \<Rightarrow> (zero_health\<lparr>Reason := ''get cnpg cluster '' @ nn_Namespace ref @ ''/'' @
           nn_Name ref @ '': '' @ err_text e\<rparr>, s\<lparr>world := w\<rparr>)
      | (Inr u, w) \<Rightarrow> ((parseCluster E u)\<lparr>Reachable := True\<rparr>, s\<lparr>world := w\<rparr>))"
  by (auto simp: Probe_def split: prod.splits sum.splits)

lemma in_primary_mode_same_intent:
  "same_intent L u v \<Longrightarrow> in_primary_mode L u = in_primary_mode L v"
  by (simp add: in_primary_mode_def replica_enabled_path_def same_intentD(2))

end
