(* ===== verification/Postgres_Probe.thy ===== *)
theory Postgres_Probe
  imports Reference_World
begin

text \<open>
  \<open>internal/postgres/probe.go\<close>: the optional SQL probe. \<open>ParseLSN\<close> reads a WAL location
  \<open>hi/lo\<close> into 64 bits, \<open>connString\<close> builds the connection URL, \<open>SQLProber_Probe\<close> connects,
  runs one query and parses its answer. The interface \<open>Prober\<close> of the source is the type
  \<open>prober\<close>; its promise (a reported value is the parse of the reported text) is the
  locale \<open>lsn_prober\<close>, interpreted on \<open>SQLProber_Probe\<close>.
\<close>

section \<open>Model\<close>

definition DefaultPort :: i32 where "DefaultPort = 5432"
definition defaultDatabase :: string where "defaultDatabase = ''postgres''"
definition defaultSSLMode :: string where "defaultSSLMode = ''require''"

abbreviation nl :: string where "nl \<equiv> [CHR 0x0A]"
abbreviation tab :: string where "tab \<equiv> [CHR 0x09]"

definition probeQuery :: string where
  "probeQuery = concat (map (\<lambda>l. nl @ l) [
     ''WITH state AS ('',
     tab @ ''SELECT pg_is_in_recovery() AS in_recovery'',
     '')'',
     ''SELECT'',
     tab @ ''in_recovery,'',
     tab @ ''CASE'',
     tab @ tab @ ''WHEN in_recovery THEN COALESCE(pg_last_wal_replay_lsn(), '0/0'::pg_lsn)'',
     tab @ tab @ ''ELSE pg_current_wal_lsn()'',
     tab @ ''END::text AS current_lsn,'',
     tab @ ''CASE'',
     tab @ tab @ ''WHEN in_recovery AND pg_last_xact_replay_timestamp() IS NOT NULL'',
     tab @ tab @ tab @ ''THEN EXTRACT(EPOCH FROM clock_timestamp() - pg_last_xact_replay_timestamp())::double precision'',
     tab @ tab @ ''WHEN in_recovery THEN NULL'',
     tab @ tab @ ''ELSE 0'',
     tab @ ''END AS replay_lag_seconds'',
     ''FROM state''])"

record Config =
  cfg_Host :: string
  cfg_Port :: i32
  cfg_Database :: string
  cfg_User :: string
  cfg_Password :: string
  cfg_SSLMode :: string

record Result =
  res_InRecovery :: bool
  res_LSN :: string
  res_LSNValue :: u64
  res_LagSeconds :: "f64 option"

type_synonym 'w prober = "Config \<Rightarrow> ('w, goerror + Result) state"

definition ParseLSN :: "string \<Rightarrow> goerror + u64" where
  "ParseLSN s =
     (let (hi, lo, ok) = cut (CHR ''/'') s in
      if \<not> ok \<or> hi = [] \<or> lo = [] then Inl (Errorf ''expected <hex>/<hex>'')
      else case ParseUint hi 16 32 of
        Inl e \<Rightarrow> Inl (Wrapf ''parse high word'' e)
      | Inr hiN \<Rightarrow>
          (case ParseUint lo 16 32 of
             Inl e \<Rightarrow> Inl (Wrapf ''parse low word'' e)
           | Inr loN \<Rightarrow> Inr (push_bit 32 hiN + loN)))"

definition normalizeHostPort :: "string \<Rightarrow> i32 \<Rightarrow> string" where
  "normalizeHostPort host port =
     (case SplitHostPort host of
        Inr (h, p) \<Rightarrow> JoinHostPort h p
      | Inl _ \<Rightarrow>
          let (h, p, ok) = cut (CHR '':'') host in
          if ok \<and> h \<noteq> [] \<and> p \<noteq> [] \<and> CHR '':'' \<notin> set p then JoinHostPort h p
          else JoinHostPort host (show_int (sint port)))"

text \<open>
  \<open>url.URL.String\<close> for a URL with scheme, user, host, path and query: the path is
  percent-encoded (except the path \<open>*\<close>) and gets a leading slash when it has none.
\<close>

definition userinfo :: "string \<Rightarrow> string \<Rightarrow> string" where
  "userinfo user password = escape encodeUserPassword user @ '':'' @ escape encodeUserPassword password"

definition url_path :: "string \<Rightarrow> string" where
  "url_path p = (let ep = (if p = ''*'' then ''*'' else escape encodePath p) in
     if ep \<noteq> [] \<and> hd ep \<noteq> CHR ''/'' then ''/'' @ ep else ep)"

definition connString :: "Config \<Rightarrow> string" where
  "connString cfg =
     (let port = (if cfg_Port cfg = 0 then DefaultPort else cfg_Port cfg);
          db = (if cfg_Database cfg = [] then defaultDatabase else cfg_Database cfg);
          sslMode = (if cfg_SSLMode cfg = [] then defaultSSLMode else cfg_SSLMode cfg)
      in ''postgres://'' @ userinfo (cfg_User cfg) (cfg_Password cfg) @ ''@'' @
         escape encodeHost (normalizeHostPort (cfg_Host cfg) port) @ url_path db @
         ''?sslmode='' @ escape encodeQueryComponent sslMode)"

definition SQLProber_Probe :: "('w, 'c) env \<Rightarrow> 'w prober" where
  "SQLProber_Probe E cfg = do {
     conn \<leftarrow> State (pg_connect E (connString cfg));
     case conn of
       Inl e \<Rightarrow> State_Monad.return (Inl (Wrapf ''connect postgres'' e))
     | Inr c \<Rightarrow> do {
         row \<leftarrow> State (pg_query_row E c probeQuery);
         let got = (case row of
             Inl e \<Rightarrow> Inl (Wrapf ''query wal progress'' e)
           | Inr (rec, lsn, lag) \<Rightarrow>
               (case ParseLSN lsn of
                  Inl e \<Rightarrow> Inl (Wrapf (''parse lsn '' @ fmt_q lsn) e)
                | Inr v \<Rightarrow> Inr \<lparr>res_InRecovery = rec, res_LSN = lsn, res_LSNValue = v,
                                res_LagSeconds = lag\<rparr>));
         _ \<leftarrow> State (\<lambda>w. ((), pg_close E c w));
         State_Monad.return got
       }
   }"

section \<open>WAL locations\<close>

text \<open>The number a hexadecimal string denotes, digit by digit.\<close>

definition hex_digit :: "char \<Rightarrow> bool" where
  "hex_digit c = (case digit_val c of None \<Rightarrow> False | Some d \<Rightarrow> d < 16)"

fun hex_from :: "int \<Rightarrow> string \<Rightarrow> int" where
  "hex_from n [] = n"
| "hex_from n (c # cs) = hex_from (16 * n + int (the (digit_val c))) cs"

definition hex_word :: "string \<Rightarrow> bool" where
  "hex_word s \<longleftrightarrow> s \<noteq> [] \<and> list_all hex_digit s \<and> hex_from 0 s < 2 ^ 32"

lemma hex_from_mono: "0 \<le> n \<Longrightarrow> n \<le> hex_from n s"
proof (induction s arbitrary: n)
  case (Cons c s)
  have "16 * n + int (the (digit_val c)) \<le> hex_from (16 * n + int (the (digit_val c))) s"
    using Cons by simp
  with Cons.prems show ?case by simp
qed simp

lemma uint_step:
  assumes "uint (n :: u64) < 2 ^ 32" and "d < 16"
  shows "uint (n * 16) = 16 * uint n" and "uint (n * 16 + of_nat d) = 16 * uint n + int d"
proof -
  show 1: "uint (n * 16) = 16 * uint n"
    using assms(1) by (simp add: uint_word_ariths)
  have "uint (of_nat d :: u64) = int d"
    using assms(2) by (simp add: uint_nat unat_of_nat)
  then show "uint (n * 16 + of_nat d) = 16 * uint n + int d"
    using assms 1 by (simp add: uint_word_ariths(1))
qed

lemma parse_digits_hex:
  assumes "uint (n :: u64) < 2 ^ 32"
  shows "parse_digits s 16 (2 ^ 60) (2 ^ 32 - 1) cs n = Inr v \<longleftrightarrow>
    list_all hex_digit cs \<and> hex_from (uint n) cs < 2 ^ 32 \<and> uint v = hex_from (uint n) cs"
  using assms
proof (induction cs arbitrary: n)
  case Nil
  then show ?case by (auto simp: word_uint_eq_iff)
next
  case (Cons c cs)
  show ?case
  proof (cases "hex_digit c")
    case False
    then show ?thesis by (auto simp: hex_digit_def split: option.splits)
  next
    case True
    then obtain d where d: "digit_val c = Some d" "d < 16"
      by (auto simp: hex_digit_def split: option.splits)
    let ?n1 = "n * 16 + of_nat d"
    note st = uint_step [OF Cons.prems d(2)]
    have cut: "\<not> (2 ^ 60 :: u64) \<le> n" using Cons.prems by (simp add: word_le_def)
    have wrap: "\<not> ?n1 < n * 16" using st by (simp add: word_less_def)
    have big: "(2 ^ 32 - 1 :: u64) < ?n1 \<longleftrightarrow> 2 ^ 32 \<le> uint ?n1"
      using st by (auto simp: word_less_def)
    show ?thesis
    proof (cases "2 ^ 32 \<le> uint ?n1")
      case True
      have "uint ?n1 \<le> hex_from (uint ?n1) cs" by (rule hex_from_mono) simp
      with True d cut wrap big st show ?thesis by (auto simp: Let_def)
    next
      case False
      then have "uint ?n1 < 2 ^ 32" by simp
      note IH = Cons.IH [OF this]
      from False d cut wrap big st IH \<open>hex_digit c\<close> show ?thesis by (simp add: Let_def)
    qed
  qed
qed

lemma ParseUint_hex32: "ParseUint s 16 32 = Inr v \<longleftrightarrow> hex_word s \<and> uint v = hex_from 0 s"
proof -
  have c: "(word_of_int ((2 ^ 64 - 1) div int 16 + 1) :: u64) = 2 ^ 60"
    and x: "(word_of_int (2 ^ 32 - 1) :: u64) = 2 ^ 32 - 1" by simp_all
  show ?thesis
    using parse_digits_hex [of 0 s s v] unfolding ParseUint_def c x
    by (auto simp: hex_word_def)
qed

lemma uint_hi_lo:
  assumes "uint (h :: u64) < 2 ^ 32" and "uint (l :: u64) < 2 ^ 32"
  shows "uint (push_bit 32 h + l) = uint h * 2 ^ 32 + uint l"
proof -
  have "uint (push_bit 32 h) = uint h * 2 ^ 32"
    using assms(1) by (simp add: push_bit_eq_mult uint_word_ariths)
  then show ?thesis using assms by (simp add: uint_word_ariths)
qed

lemma ParseLSN_Inr:
  "ParseLSN s = Inr v \<longleftrightarrow>
   (\<exists>hi lo. s = hi @ CHR ''/'' # lo \<and> CHR ''/'' \<notin> set hi \<and> hex_word hi \<and> hex_word lo \<and>
      uint v = hex_from 0 hi * 2 ^ 32 + hex_from 0 lo)" (is "?L \<longleftrightarrow> ?R")
proof -
  obtain hi lo ok where c: "cut (CHR ''/'') s = (hi, lo, ok)" by (cases "cut (CHR ''/'') s") auto
  have word_lt: "hex_word x \<Longrightarrow> uint (n :: u64) = hex_from 0 x \<Longrightarrow> uint n < 2 ^ 32" for x n
    by (simp add: hex_word_def)
  have ex: "hex_word x \<Longrightarrow> \<exists>n :: u64. ParseUint x 16 32 = Inr n \<and> uint n = hex_from 0 x" for x
  proof -
    assume x: "hex_word x"
    have "0 \<le> hex_from 0 x" by (rule hex_from_mono) simp
    then have "uint (word_of_int (hex_from 0 x) :: u64) = hex_from 0 x"
      using x by (simp add: hex_word_def uint_word_of_int)
    with x show "\<exists>n :: u64. ParseUint x 16 32 = Inr n \<and> uint n = hex_from 0 x"
      by (auto simp: ParseUint_hex32)
  qed
  show ?thesis
  proof
    assume ?L
    with c obtain h l where
      *: "ok" "ParseUint hi 16 32 = Inr h" "ParseUint lo 16 32 = Inr l" "v = push_bit 32 h + l"
      by (auto simp: ParseLSN_def split: if_splits sum.splits)
    from *(2,3) have w: "hex_word hi" "uint h = hex_from 0 hi" "hex_word lo" "uint l = hex_from 0 lo"
      by (simp_all add: ParseUint_hex32)
    have "uint v = hex_from 0 hi * 2 ^ 32 + hex_from 0 lo"
      using uint_hi_lo [of h l] word_lt [OF w(1,2)] word_lt [OF w(3,4)] w *(4) by simp
    with c *(1) w show ?R by (auto simp: cut_True_iff)
  next
    assume ?R
    then obtain hi lo where r: "s = hi @ CHR ''/'' # lo" "CHR ''/'' \<notin> set hi" "hex_word hi"
      "hex_word lo" "uint v = hex_from 0 hi * 2 ^ 32 + hex_from 0 lo" by blast
    from ex [OF r(3)] obtain h :: u64 where h: "ParseUint hi 16 32 = Inr h" "uint h = hex_from 0 hi" by blast
    from ex [OF r(4)] obtain l :: u64 where l: "ParseUint lo 16 32 = Inr l" "uint l = hex_from 0 lo" by blast
    have "v = push_bit 32 h + l"
      using uint_hi_lo [of h l] word_lt [OF r(3) h(2)] word_lt [OF r(4) l(2)] h l r(5)
      by (simp add: word_uint_eq_iff)
    with h l r show ?L by (auto simp: ParseLSN_def hex_word_def)
  qed
qed

lemma ParseLSN_split:
  assumes "ParseLSN s = Inr v"
  shows "uint v = hex_from 0 (takeWhile (\<lambda>c. c \<noteq> CHR ''/'') s) * 2 ^ 32 +
      hex_from 0 (tl (dropWhile (\<lambda>c. c \<noteq> CHR ''/'') s))"
    and "hex_from 0 (tl (dropWhile (\<lambda>c. c \<noteq> CHR ''/'') s)) < 2 ^ 32"
    and "0 \<le> hex_from 0 (tl (dropWhile (\<lambda>c. c \<noteq> CHR ''/'') s))"
  using assms unfolding ParseLSN_Inr
  by (auto simp: takeWhile_neq_append dropWhile_neq_append hex_word_def hex_from_mono)

section \<open>Rendering, as PostgreSQL prints a pg_lsn\<close>

function hex_text :: "int \<Rightarrow> string" where
  "hex_text n = (if n < 16 then [hex_char_upper (nat n)]
     else hex_text (n div 16) @ [hex_char_upper (nat (n mod 16))])"
  by pat_completeness auto
termination
  by (relation "measure nat") auto

declare hex_text.simps [simp del]

definition lsn_text :: "u64 \<Rightarrow> string" where
  "lsn_text v = hex_text (uint v div 2 ^ 32) @ ''/'' @ hex_text (uint v mod 2 ^ 32)"

lemma digit_val_hex_char: "d < 16 \<Longrightarrow> digit_val (hex_char_upper d) = Some d"
  by (auto simp: digit_val_def hex_char_upper_def Let_def)

lemma hex_from_append: "hex_from n (xs @ ys) = hex_from (hex_from n xs) ys"
  by (induction xs arbitrary: n) auto

lemma hex_text_value:
  assumes "0 \<le> n"
  shows "hex_from 0 (hex_text n) = n \<and> list_all hex_digit (hex_text n) \<and> hex_text n \<noteq> []"
  using assms
proof (induction n rule: hex_text.induct)
  case (1 n)
  show ?case
  proof (cases "n < 16")
    case True
    with 1 show ?thesis by (simp add: hex_text.simps [of n] digit_val_hex_char hex_digit_def)
  next
    case False
    moreover have "nat (n mod 16) < 16" using 1 by auto
    ultimately show ?thesis
      using 1 by (simp add: hex_text.simps [of n] hex_from_append digit_val_hex_char hex_digit_def)
  qed
qed

lemma slash_not_hex: "\<not> hex_digit (CHR ''/'')"
  by (simp add: hex_digit_def digit_val_def)

section \<open>Percent-encoding\<close>

text \<open>The inverse of the encoding, as a URL parser applies it to a component.\<close>

fun unescape :: "string \<Rightarrow> string" where
  "unescape [] = []"
| "unescape (c # cs) =
     (if c = CHR 0x25 \<and> 2 \<le> length cs
      then char_of (16 * the (digit_val (cs ! 0)) + the (digit_val (cs ! 1))) # unescape (drop 2 cs)
      else c # unescape cs)"

lemma high_nibble: "(of_char c :: nat) div 16 < 16"
proof (rule less_mult_imp_div_less)
  show "(of_char c :: nat) < 16 * 16" using nat_of_char_less_256 [of c] by simp
qed

lemma unescape_pct: "unescape (pct c @ s) = c # unescape s"
  by (simp add: pct_def Let_def digit_val_hex_char high_nibble)

lemma unescape_escape: "unescape (escape encodeUserPassword s) = s"
proof (induction s)
  case (Cons c s)
  have "unescape (escape_char encodeUserPassword c @ t) = c # unescape t" for t
  proof (cases "shouldEscape encodeUserPassword c")
    case False
    then have "c \<noteq> CHR 0x25" by (auto simp: shouldEscape_def alnum_def)
    with False show ?thesis by (simp add: escape_char_def)
  qed (simp add: escape_char_def unescape_pct)
  with Cons show ?case by (simp add: escape_def)
qed (simp add: escape_def)

lemma hex_char_upper_alnum: "d < 16 \<Longrightarrow> alnum (hex_char_upper d)"
  by (auto simp: alnum_def hex_char_upper_def Let_def)

lemma escape_sealed:
  assumes "c \<in> set (escape encodeUserPassword s)"
  shows "c \<notin> set ''@/?:''"
proof -
  from assms obtain d where d: "c \<in> set (escape_char encodeUserPassword d)" by (auto simp: escape_def)
  show ?thesis
  proof (cases "shouldEscape encodeUserPassword d")
    case False
    with d have "\<not> shouldEscape encodeUserPassword c" by (simp add: escape_char_def)
    then show ?thesis by (auto simp: shouldEscape_def alnum_def)
  next
    case True
    with d have "c = CHR 0x25 \<or> alnum c"
      using hex_char_upper_alnum high_nibble by (auto simp: escape_char_def pct_def Let_def)
    then show ?thesis by (auto simp: alnum_def)
  qed
qed

section \<open>The prober interface\<close>

text \<open>
  What the controller relies on when it ranks sites: the number a prober reports is the
  parse of the text it reports, so equal texts rank equally and the order is the order of
  the WAL.
\<close>

locale lsn_prober =
  fixes probe :: "'w prober"
  assumes value_of_text: "run_state (probe cfg) w = (Inr r, w') \<Longrightarrow> ParseLSN (res_LSN r) = Inr (res_LSNValue r)"
begin

lemma same_text_same_value:
  assumes "run_state (probe cfg) w = (Inr r, w')" and "run_state (probe cfg') v = (Inr q, v')"
    and "res_LSN r = res_LSN q"
  shows "res_LSNValue r = res_LSNValue q"
  using value_of_text [OF assms(1)] value_of_text [OF assms(2)] assms(3) by simp

end

interpretation sql: lsn_prober "SQLProber_Probe E" for E :: "('w, 'c) env"
proof unfold_locales
  fix cfg :: Config and w w' :: 'w and r
  assume "run_state (SQLProber_Probe E cfg) w = (Inr r, w')"
  then show "ParseLSN (res_LSN r) = Inr (res_LSNValue r)"
    by (auto simp: SQLProber_Probe_def split: prod.splits sum.splits)
qed

section \<open>Properties\<close>

text \<open>C27. Round trip of WAL locations: every 64-bit WAL position, printed the way PostgreSQL prints
  a \<open>pg_lsn\<close>, is parsed back to itself.\<close>

theorem ParseLSN_roundtrip: "ParseLSN (lsn_text v) = Inr v"
proof -
  let ?h = "uint v div 2 ^ 32" and ?l = "uint v mod 2 ^ 32"
  have b: "0 \<le> ?h" "?h < 2 ^ 32" "0 \<le> ?l" "?l < 2 ^ 32"
    using uint_lt2p [of v] by (simp_all add: pos_imp_zdiv_nonneg_iff)
  note h = hex_text_value [OF b(1)] and l = hex_text_value [OF b(3)]
  have "CHR ''/'' \<notin> set (hex_text ?h)" using h slash_not_hex by (auto simp: list_all_iff)
  moreover have "hex_word (hex_text ?h)" "hex_word (hex_text ?l)" using h l b by (simp_all add: hex_word_def)
  moreover have "uint v = hex_from 0 (hex_text ?h) * 2 ^ 32 + hex_from 0 (hex_text ?l)"
    using h l by simp
  ultimately show ?thesis unfolding ParseLSN_Inr by (auto simp: lsn_text_def)
qed

text \<open>C28. Which texts \<open>ParseLSN\<close> accepts and how it orders them: exactly two non-empty hexadecimal
  words below \<open>2^32\<close> around the first slash; and the order of the parsed numbers is the order of the
  WAL, high words first, low words second.\<close>

theorem ParseLSN_accepts_and_orders:
  "((\<exists>v. ParseLSN s = Inr v) \<longleftrightarrow>
     (\<exists>hi lo. s = hi @ ''/'' @ lo \<and> CHR ''/'' \<notin> set hi \<and> hex_word hi \<and> hex_word lo)) \<and>
   (\<forall>a b. ParseLSN s = Inr a \<longrightarrow> ParseLSN t = Inr b \<longrightarrow>
      (a < b \<longleftrightarrow>
       (let hi = (\<lambda>x. hex_from 0 (takeWhile (\<lambda>c. c \<noteq> CHR ''/'') x));
            lo = (\<lambda>x. hex_from 0 (tl (dropWhile (\<lambda>c. c \<noteq> CHR ''/'') x)))
        in hi s < hi t \<or> (hi s = hi t \<and> lo s < lo t))))"
proof
  have "\<exists>v :: u64. uint v = hex_from 0 hi * 2 ^ 32 + hex_from 0 lo" if "hex_word hi" "hex_word lo" for hi lo
  proof -
    have "0 \<le> hex_from 0 hi" "0 \<le> hex_from 0 lo" by (simp_all add: hex_from_mono)
    with that have "0 \<le> hex_from 0 hi * 2 ^ 32 + hex_from 0 lo \<and>
        hex_from 0 hi * 2 ^ 32 + hex_from 0 lo < 2 ^ LENGTH(64)"
      by (simp add: hex_word_def)
    then show ?thesis by (metis uint_word_of_int_eq take_bit_int_eq_self)
  qed
  then show "(\<exists>v. ParseLSN s = Inr v) \<longleftrightarrow>
     (\<exists>hi lo. s = hi @ ''/'' @ lo \<and> CHR ''/'' \<notin> set hi \<and> hex_word hi \<and> hex_word lo)"
    unfolding ParseLSN_Inr by (simp, blast)
  show "\<forall>a b. ParseLSN s = Inr a \<longrightarrow> ParseLSN t = Inr b \<longrightarrow> (a < b \<longleftrightarrow>
       (let hi = (\<lambda>x. hex_from 0 (takeWhile (\<lambda>c. c \<noteq> CHR ''/'') x));
            lo = (\<lambda>x. hex_from 0 (tl (dropWhile (\<lambda>c. c \<noteq> CHR ''/'') x)))
        in hi s < hi t \<or> (hi s = hi t \<and> lo s < lo t)))"
  proof (intro allI impI)
    fix a b assume ab: "ParseLSN s = Inr a" "ParseLSN t = Inr b"
    from ParseLSN_split [OF ab(1)] ParseLSN_split [OF ab(2)]
    show "a < b \<longleftrightarrow> (let hi = (\<lambda>x. hex_from 0 (takeWhile (\<lambda>c. c \<noteq> CHR ''/'') x));
            lo = (\<lambda>x. hex_from 0 (tl (dropWhile (\<lambda>c. c \<noteq> CHR ''/'') x)))
        in hi s < hi t \<or> (hi s = hi t \<and> lo s < lo t))"
      by (auto simp: Let_def word_less_def)
  qed
qed

theorem ParseLSN_accepts_and_orders_witness:
  "\<not> (\<exists>v. ParseLSN ''1/'' = Inr v) \<and> (\<exists>a b. ParseLSN ''0/FF'' = Inr a \<and> ParseLSN ''1/0'' = Inr b \<and> a < b)"
proof -
  have v: "ParseLSN ''0/FF'' = Inr 255" "ParseLSN ''1/0'' = Inr 4294967296" by code_simp+
  have "\<not> hex_word []" by (simp add: hex_word_def)
  moreover have "''1/'' = hi @ ''/'' @ lo \<Longrightarrow> CHR ''/'' \<notin> set hi \<Longrightarrow> lo = []" for hi lo
    by (auto simp: Cons_eq_append_conv)
  ultimately have "\<not> (\<exists>v. ParseLSN ''1/'' = Inr v)"
    using ParseLSN_accepts_and_orders [of "''1/''" "''1/''"] by blast
  moreover have "(255 :: u64) < 4294967296"
    using ParseLSN_accepts_and_orders [of "''0/FF''" "''1/0''"] v by (simp add: Let_def digit_val_def)
  ultimately show ?thesis using v by blast
qed

text \<open>C29. Credentials cannot break out of the connection URL: whatever bytes the user name and the
  password hold, the text between the scheme and the first \<open>@\<close> of the URL is the user information,
  its first colon separates the two, and decoding the two halves gives back exactly the configured
  user and password.\<close>

theorem connString_credentials:
  "\<exists>u p rest. connString cfg = ''postgres://'' @ u @ '':'' @ p @ ''@'' @ rest \<and>
     cut (CHR ''@'') (u @ '':'' @ p @ ''@'' @ rest) = (u @ '':'' @ p, rest, True) \<and>
     cut (CHR '':'') (u @ '':'' @ p) = (u, p, True) \<and>
     unescape u = cfg_User cfg \<and> unescape p = cfg_Password cfg"
proof -
  let ?u = "escape encodeUserPassword (cfg_User cfg)" and ?p = "escape encodeUserPassword (cfg_Password cfg)"
  obtain rest where r: "connString cfg = ''postgres://'' @ ?u @ '':'' @ ?p @ ''@'' @ rest"
    by (simp add: connString_def userinfo_def Let_def)
  have a: "CHR ''@'' \<notin> set (?u @ '':'' @ ?p)" "CHR '':'' \<notin> set ?u"
    using escape_sealed by fastforce+
  have "cut (CHR ''@'') (?u @ '':'' @ ?p @ ''@'' @ rest) = (?u @ '':'' @ ?p, rest, True)"
    using cut_append [OF a(1), of rest] by simp
  moreover have "cut (CHR '':'') (?u @ '':'' @ ?p) = (?u, ?p, True)"
    using cut_append [OF a(2), of ?p] by simp
  ultimately show ?thesis using r unescape_escape by blast
qed

text \<open>
  Host and port of an endpoint. \<open>free\<close> says that a text holds none of the characters that
  carry meaning in an address.
\<close>

definition free :: "string \<Rightarrow> bool" where
  "free x \<longleftrightarrow> CHR '':'' \<notin> set x \<and> CHR ''['' \<notin> set x \<and> CHR '']'' \<notin> set x"

lemma last_colon_append: "CHR '':'' \<notin> set p \<Longrightarrow> last_colon (h @ CHR '':'' # p) = (h, p)"
  by (simp add: last_colon_def Let_def takeWhile_neq_append dropWhile_neq_append)

lemma SplitHostPort_plain:
  assumes "free h" and "free p"
  shows "SplitHostPort (h @ CHR '':'' # p) = Inr (h, p)"
proof -
  have "hd (h @ CHR '':'' # p) \<noteq> CHR ''[''" using assms(1) by (cases h) (auto simp: free_def)
  with assms show ?thesis by (simp add: SplitHostPort_def last_colon_append free_def Let_def)
qed

lemma SplitHostPort_bracketed:
  assumes "CHR ''['' \<notin> set h" and "CHR '']'' \<notin> set h" and "free p"
  shows "SplitHostPort (CHR ''['' # h @ CHR '']'' # CHR '':'' # p) = Inr (h, p)"
proof -
  have "last_colon (CHR ''['' # h @ CHR '']'' # CHR '':'' # p) = (CHR ''['' # h @ [CHR '']''], p)"
    using last_colon_append [of p "CHR ''['' # h @ [CHR '']'']"] assms(3) by (simp add: free_def)
  moreover have "takeWhile (\<lambda>x. x \<noteq> CHR '']'') (CHR ''['' # h @ CHR '']'' # CHR '':'' # p) = CHR ''['' # h"
    "dropWhile (\<lambda>x. x \<noteq> CHR '']'') (CHR ''['' # h @ CHR '']'' # CHR '':'' # p) = CHR '']'' # CHR '':'' # p"
    using takeWhile_neq_append [of "CHR '']''" "CHR ''['' # h"] dropWhile_neq_append [of "CHR '']''" "CHR ''['' # h"]
      assms(2) by simp_all
  ultimately show ?thesis using assms by (simp add: SplitHostPort_def free_def Let_def del: takeWhile.simps dropWhile.simps)
qed

lemma SplitHostPort_many:
  assumes "h \<noteq> []" and "hd h \<noteq> CHR ''[''" and "CHR '':'' \<in> set p" 
  shows "\<exists>e. SplitHostPort (h @ CHR '':'' # p) = Inl e"
proof -
  let ?hp = "h @ CHR '':'' # p"
  have "CHR '':'' \<in> set (fst (last_colon ?hp))"
  proof -
    obtain q r where q: "p = q @ CHR '':'' # r" "CHR '':'' \<notin> set r"
      using assms(3) by (meson split_list_last)
    then have "last_colon ?hp = (h @ CHR '':'' # q, r)"
      using last_colon_append [of r "h @ CHR '':'' # q"] by simp
    then show ?thesis by simp
  qed
  moreover have "hd ?hp \<noteq> CHR ''[''" using assms by simp
  ultimately show ?thesis by (auto simp: SplitHostPort_def Let_def split: prod.splits)
qed

text \<open>C30. How an endpoint becomes the host part of the connection URL: a host without a colon gets the
  configured port; \<open>host:port\<close> and \<open>[v6]:port\<close> are kept as they are and override the configured port; a
  bare IPv6 address is put in brackets and gets the configured port.\<close>

theorem normalizeHostPort_cases:
  "(CHR '':'' \<notin> set host \<longrightarrow> normalizeHostPort host port = host @ '':'' @ show_int (sint port)) \<and>
   (free h \<and> free p \<longrightarrow> normalizeHostPort (h @ '':'' @ p) port = h @ '':'' @ p) \<and>
   (CHR '':'' \<in> set v6 \<and> CHR ''['' \<notin> set v6 \<and> CHR '']'' \<notin> set v6 \<and> free p \<longrightarrow>
      normalizeHostPort (''['' @ v6 @ '']:'' @ p) port = ''['' @ v6 @ '']:'' @ p) \<and>
   (a \<noteq> [] \<and> free a \<and> CHR '':'' \<in> set b \<longrightarrow>
      normalizeHostPort (a @ '':'' @ b) port = ''['' @ a @ '':'' @ b @ '']:'' @ show_int (sint port))"
proof (intro conjI impI)
  assume "CHR '':'' \<notin> set host"
  then show "normalizeHostPort host port = host @ '':'' @ show_int (sint port)"
    by (simp add: normalizeHostPort_def SplitHostPort_def JoinHostPort_def)
next
  assume "free h \<and> free p"
  then show "normalizeHostPort (h @ '':'' @ p) port = h @ '':'' @ p"
    using SplitHostPort_plain [of h p] by (simp add: normalizeHostPort_def JoinHostPort_def free_def)
next
  assume "CHR '':'' \<in> set v6 \<and> CHR ''['' \<notin> set v6 \<and> CHR '']'' \<notin> set v6 \<and> free p"
  then show "normalizeHostPort (''['' @ v6 @ '']:'' @ p) port = ''['' @ v6 @ '']:'' @ p"
    using SplitHostPort_bracketed [of v6 p] by (simp add: normalizeHostPort_def JoinHostPort_def)
next
  assume *: "a \<noteq> [] \<and> free a \<and> CHR '':'' \<in> set b"
  then have "hd a \<noteq> CHR ''[''" by (cases a) (auto simp: free_def)
  with * SplitHostPort_many [of a b] obtain e where "SplitHostPort (a @ CHR '':'' # b) = Inl e" by auto
  with * show "normalizeHostPort (a @ '':'' @ b) port = ''['' @ a @ '':'' @ b @ '']:'' @ show_int (sint port)"
    by (simp add: normalizeHostPort_def JoinHostPort_def free_def Let_def)
qed

theorem normalizeHostPort_cases_witness:
  "normalizeHostPort ''pg.example'' 5432 = ''pg.example:5432'' \<and>
   normalizeHostPort ''pg:6543'' 5432 = ''pg:6543'' \<and>
   normalizeHostPort ''fd00::1'' 5432 = ''[fd00::1]:5432''"
proof -
  have n: "show_int (sint (5432 :: i32)) = ''5432''" by code_simp
  show ?thesis
    using normalizeHostPort_cases [of "''pg.example''" 5432 "''pg''" "''6543''" "''x''" "''fd00''" "'':1''"] n
    by (simp add: free_def)
qed

text \<open>
  A bracketed IPv6 address without a port is the one form that comes out malformed: the
  brackets are added a second time.
\<close>

lemma normalizeHostPort_double_brackets:
  "normalizeHostPort ''[fd00::1]'' 5432 = ''[[fd00::1]]:5432''"
  by code_simp

end
