(* ===== verification/Controller_Decide.thy ===== *)
theory Controller_Decide
  imports Health Postgres_Probe "HOL-Library.Product_Lexorder"
begin

text \<open>
  The pure half of \<open>internal/controller/hacluster_controller.go\<close>: observations, the choice
  of a promotion target, the current primary and split-brain, the role change after a
  promotion, the effective settings, and the status entry of a site. A slice index out of
  range is a panic. The locale \<open>preference\<close> states what scanning for a best candidate
  needs of the comparison; it is interpreted on \<open>moreAdvanced\<close>.
\<close>

section \<open>Observations\<close>

record siteObservation =
  o_name :: string
  o_reachable :: bool
  o_primary :: bool
  o_ready :: bool
  o_phase :: string
  o_reason :: string
  o_timelineID :: i64
  o_lsnKnown :: bool
  o_lsn :: string
  o_lsnValue :: u64
  o_lagSeconds :: "f64 option"

definition siteObsFromHealth :: "string \<Rightarrow> SiteHealth \<Rightarrow> siteObservation" where
  "siteObsFromHealth nm h = \<lparr>o_name = nm, o_reachable = Reachable h, o_primary = sh_Primary h,
     o_ready = Ready h, o_phase = Phase h, o_reason = Reason h, o_timelineID = TimelineID h,
     o_lsnKnown = LSNKnown h, o_lsn = LSN h, o_lsnValue = LSNValue h, o_lagSeconds = LagSeconds h\<rparr>"

section \<open>Choosing the target\<close>

definition moreAdvanced :: "siteObservation \<Rightarrow> siteObservation \<Rightarrow> bool" where
  "moreAdvanced candidate current =
     (if o_lsnKnown candidate \<noteq> o_lsnKnown current then o_lsnKnown candidate
      else if o_lsnKnown candidate then o_lsnValue current < o_lsnValue candidate
      else sint (o_timelineID current) < sint (o_timelineID candidate))"

text \<open>The loop of \<open>chooseTarget\<close>; \<open>best = None\<close> is the source's \<open>best == -1\<close>.\<close>

fun choose_loop ::
  "bool \<Rightarrow> siteObservation list \<Rightarrow> string \<Rightarrow> ReplicaSite list \<Rightarrow> nat \<Rightarrow> nat option \<Rightarrow> nat option res" where
  "choose_loop mostAdvanced obs failedPrimary [] i best = Ok best"
| "choose_loop mostAdvanced obs failedPrimary (rep # reps) i best =
     (if rs_Name rep = failedPrimary then choose_loop mostAdvanced obs failedPrimary reps (Suc i) best
      else if length obs \<le> i then Panic ''index out of range''
      else let ob = obs ! i in
        if \<not> o_reachable ob \<or> \<not> o_ready ob \<or> o_primary ob
        then choose_loop mostAdvanced obs failedPrimary reps (Suc i) best
        else case best of
          None \<Rightarrow> if \<not> mostAdvanced then Ok (Some i)
                  else choose_loop mostAdvanced obs failedPrimary reps (Suc i) (Some i)
        | Some b \<Rightarrow> choose_loop mostAdvanced obs failedPrimary reps (Suc i)
            (if moreAdvanced (obs ! i) (obs ! b) then Some i else Some b))"

definition chooseTarget ::
  "HACluster \<Rightarrow> siteObservation list \<Rightarrow> string \<Rightarrow> (ReplicaSite \<times> nat) option res" where
  "chooseTarget ha replicaObs failedPrimary =
     (let mostAdvanced = fo_PromotionPolicy (spec_failover ha) = PromotionPolicyMostAdvancedLSN in
      case choose_loop mostAdvanced replicaObs failedPrimary (spec_replicas ha) 0 None of
        Ok None \<Rightarrow> Ok None
      | Ok (Some b) \<Rightarrow> Ok (Some (spec_replicas ha ! b, b))
      | Err e \<Rightarrow> Err e
      | Panic p \<Rightarrow> Panic p)"

section \<open>Current primary and split-brain\<close>

definition primary_ready :: "siteObservation \<Rightarrow> bool" where
  "primary_ready ob \<longleftrightarrow> o_reachable ob \<and> o_primary ob \<and> o_ready ob"

definition primaryReadyCandidates :: "siteObservation \<Rightarrow> siteObservation list \<Rightarrow> string list" where
  "primaryReadyCandidates primaryOb replicas =
     (if primary_ready primaryOb then [o_name primaryOb] else []) @
     map o_name (filter primary_ready replicas)"

definition decideCurrentPrimary :: "siteObservation \<Rightarrow> siteObservation list \<Rightarrow> string \<times> bool" where
  "decideCurrentPrimary primaryOb replicas =
     (let candidates = primaryReadyCandidates primaryOb replicas in
      if length candidates = 1 then (candidates ! 0, True) else ([], False))"

definition detectSplitBrain :: "siteObservation \<Rightarrow> siteObservation list \<Rightarrow> string list" where
  "detectSplitBrain primaryOb replicas =
     (let candidates = primaryReadyCandidates primaryOb replicas in
      if length candidates \<le> 1 then [] else candidates)"

fun find_replica_from :: "ReplicaSite list \<Rightarrow> string \<Rightarrow> nat \<Rightarrow> (ReplicaSite \<times> nat) option" where
  "find_replica_from [] nm i = None"
| "find_replica_from (rep # reps) nm i =
     (if rs_Name rep = nm then Some (rep, i) else find_replica_from reps nm (Suc i))"

definition findReplica :: "HACluster \<Rightarrow> string \<Rightarrow> (ReplicaSite \<times> nat) option" where
  "findReplica ha nm = find_replica_from (spec_replicas ha) nm 0"

definition findObservation ::
  "string \<Rightarrow> siteObservation \<Rightarrow> siteObservation list \<Rightarrow> siteObservation option" where
  "findObservation nm primaryOb replicas =
     (if o_name primaryOb = nm then Some primaryOb else find (\<lambda>ob. o_name ob = nm) replicas)"

definition currentPrimaryForPromotion ::
  "HACluster \<Rightarrow> siteObservation \<Rightarrow> siteObservation list \<Rightarrow> goerror + string" where
  "currentPrimaryForPromotion ha primaryOb replicaObs =
     (let splitBrain = detectSplitBrain primaryOb replicaObs in
      if splitBrain \<noteq> [] then Inl (Errorf (''split-brain observed among sites '' @ fmt_strings splitBrain))
      else if CurrentPrimarySite (ha_Status ha) \<noteq> [] then Inr (CurrentPrimarySite (ha_Status ha))
      else case decideCurrentPrimary primaryOb replicaObs of
        (observed, ok) \<Rightarrow> if ok then Inr observed else Inr (ps_Name (spec_primary ha)))"

section \<open>Role change after a promotion\<close>

record promotionEffect =
  demoted :: string
  promoted :: string

definition no_effect :: promotionEffect where
  "no_effect = \<lparr>demoted = [], promoted = []\<rparr>"

definition didPromote :: "promotionEffect \<Rightarrow> bool" where
  "didPromote e \<longleftrightarrow> promoted e \<noteq> []"

definition set_role :: "bool \<Rightarrow> siteObservation \<Rightarrow> siteObservation" where
  "set_role prim ob = (let ob = ob\<lparr>o_primary := prim\<rparr> in if \<not> prim then ob\<lparr>o_ready := False\<rparr> else ob)"

fun update_first :: "('a \<Rightarrow> bool) \<Rightarrow> ('a \<Rightarrow> 'a) \<Rightarrow> 'a list \<Rightarrow> 'a list" where
  "update_first p f [] = []"
| "update_first p f (x # xs) = (if p x then f x # xs else x # update_first p f xs)"

definition setObservationRole ::
  "string \<Rightarrow> bool \<Rightarrow> siteObservation \<times> siteObservation list \<Rightarrow> siteObservation \<times> siteObservation list" where
  "setObservationRole siteName prim = (\<lambda>(primaryOb, replicaObs).
     if o_name primaryOb = siteName then (set_role prim primaryOb, replicaObs)
     else (primaryOb, update_first (\<lambda>ob. o_name ob = siteName) (set_role prim) replicaObs))"

definition applyPromotionEffect ::
  "promotionEffect \<Rightarrow> siteObservation \<times> siteObservation list \<Rightarrow> siteObservation \<times> siteObservation list" where
  "applyPromotionEffect e obs =
     (if \<not> didPromote e then obs
      else setObservationRole (promoted e) True (setObservationRole (demoted e) False obs))"

section \<open>Effective settings\<close>

definition requeuePeriod :: duration where "requeuePeriod = 30 * Second"
definition defaultFailureThreshold :: i64 where "defaultFailureThreshold = 3"
definition defaultHealthCheckInterval :: duration where "defaultHealthCheckInterval = 10 * Second"
definition minStabilizationCooldown :: duration where "minStabilizationCooldown = 30 * Second"

definition effectiveFailureThreshold :: "FailoverSpec \<Rightarrow> i64" where
  "effectiveFailureThreshold f =
     (if sint (fo_FailureThreshold f) < 2 then defaultFailureThreshold
      else word_of_int (sint (fo_FailureThreshold f)))"

definition effectiveHealthInterval :: "FailoverSpec \<Rightarrow> duration" where
  "effectiveHealthInterval f =
     (if sint (fo_HealthCheckIntervalSeconds f) < 1 then defaultHealthCheckInterval
      else word_of_int (sint (fo_HealthCheckIntervalSeconds f)) * Second)"

definition stabilizationCooldown :: "FailoverSpec \<Rightarrow> duration" where
  "stabilizationCooldown f =
     (let c = 3 * effectiveHealthInterval f in
      if sint minStabilizationCooldown < sint c then c else minStabilizationCooldown)"

section \<open>Endpoints and status entries\<close>

definition replicationEndpointFor :: "HACluster \<Rightarrow> string \<Rightarrow> string" where
  "replicationEndpointFor ha siteName =
     (if siteName = ps_Name (spec_primary ha) then ps_ReplicationEndpoint (spec_primary ha)
      else case find (\<lambda>rep. rs_Name rep = siteName) (spec_replicas ha) of
        Some rep \<Rightarrow> rs_ReplicationEndpoint rep
      | None \<Rightarrow> [])"

definition appendReason :: "string \<Rightarrow> string \<Rightarrow> string" where
  "appendReason existing extra = (if existing = [] then extra else join ''; '' [existing, extra])"

definition lagMilliseconds :: "'x lib_scheme \<Rightarrow> f64 option \<Rightarrow> i64 option" where
  "lagMilliseconds L seconds = (case seconds of
     None \<Rightarrow> None
   | Some x \<Rightarrow> (let y = f64_mul x (f64_of_int 1000) in
       case f64_to_i64 y of Some ms \<Rightarrow> Some ms | None \<Rightarrow> Some (f64_to_i64_other L y)))"

definition toSiteStatus :: "'x lib_scheme \<Rightarrow> siteObservation \<Rightarrow> time \<Rightarrow> SiteStatus" where
  "toSiteStatus L ob now = \<lparr>
     ss_Name = o_name ob,
     ss_Role = (if o_reachable ob then (if o_primary ob then SiteRolePrimary else SiteRoleReplica)
                else SiteRoleUnknown),
     ss_Reachable = o_reachable ob, ss_Ready = o_ready ob, ss_Phase = o_phase ob,
     ss_Message = o_reason ob, ss_LastObservedTime = Some now, ss_CurrentLSN = o_lsn ob,
     ss_ReplicationLagMilliseconds = lagMilliseconds L (o_lagSeconds ob)\<rparr>"

definition buildSiteStatuses ::
  "'x lib_scheme \<Rightarrow> siteObservation \<Rightarrow> siteObservation list \<Rightarrow> time \<Rightarrow> SiteStatus list" where
  "buildSiteStatuses L primaryOb replicas now =
     toSiteStatus L primaryOb now # map (\<lambda>ob. toSiteStatus L ob now) replicas"

section \<open>The choice of a target\<close>

text \<open>
  \<open>first_best\<close>: an element of the set that nothing in the set beats and that beats
  everything before it.
\<close>

definition first_best :: "('a \<Rightarrow> 'a \<Rightarrow> bool) \<Rightarrow> ('i::linorder \<Rightarrow> 'a) \<Rightarrow> 'i set \<Rightarrow> 'i \<Rightarrow> bool" where
  "first_best better key S i \<longleftrightarrow>
     i \<in> S \<and> (\<forall>j \<in> S. \<not> better (key j) (key i)) \<and> (\<forall>j \<in> S. j < i \<longrightarrow> better (key i) (key j))"

locale preference =
  fixes better :: "'a \<Rightarrow> 'a \<Rightarrow> bool"
  assumes better_asym: "better a b \<Longrightarrow> \<not> better b a"
    and better_neg_trans: "\<not> better a b \<Longrightarrow> \<not> better b c \<Longrightarrow> \<not> better a c"
begin

lemma better_irrefl: "\<not> better a a"
  using better_asym by blast

lemma first_best_insert:
  assumes "first_best better key S b" and "\<forall>j \<in> S. j < n"
  shows "first_best better key (insert n S) (if better (key n) (key b) then n else b)"
proof (cases "better (key n) (key b)")
  case True
  have "\<not> better (key j) (key n)" if "j \<in> S" for j
  proof
    assume "better (key j) (key n)"
    moreover have "\<not> better (key b) (key n)" using True better_asym by blast
    ultimately have "better (key j) (key b)" using better_neg_trans by blast
    with that assms(1) show False by (auto simp: first_best_def)
  qed
  moreover have "better (key n) (key j)" if "j \<in> S" for j
    using True that assms(1) better_neg_trans by (metis first_best_def)
  ultimately show ?thesis using True assms by (auto simp: first_best_def better_irrefl)
next
  case False
  with assms show ?thesis by (auto simp: first_best_def dest: less_asym)
qed

lemma first_best_singleton: "first_best better key {n} n"
  by (simp add: first_best_def better_irrefl)

lemma first_best_unique:
  assumes "first_best better key S i" and "first_best better key S j"
  shows "i = j"
  using assms by (metis first_best_def linorder_neqE)

end

interpretation advance: preference moreAdvanced
proof unfold_locales
  fix a b c :: siteObservation
  show "moreAdvanced a b \<Longrightarrow> \<not> moreAdvanced b a"
    by (auto simp: moreAdvanced_def split: if_splits)
  show "\<not> moreAdvanced a b \<Longrightarrow> \<not> moreAdvanced b c \<Longrightarrow> \<not> moreAdvanced a c"
    by (auto simp: moreAdvanced_def split: if_splits)
qed

text \<open>The specification of the comparison: how much of the primary's history a site is known to hold. A
  reported WAL position outranks any unreported one, positions compare as unsigned integers, and
  without a position the timeline decides. \<open>moreAdvanced\<close> is the strict lexicographic order of the ranks.\<close>

definition wal_rank :: "siteObservation \<Rightarrow> bool \<times> int" where
  "wal_rank ob = (o_lsnKnown ob, if o_lsnKnown ob then uint (o_lsnValue ob) else sint (o_timelineID ob))"

lemma moreAdvanced_rank: "moreAdvanced a b \<longleftrightarrow> wal_rank b < wal_rank a"
  by (auto simp: moreAdvanced_def wal_rank_def word_less_def less_prod_simp split: if_splits)

text \<open>The sites \<open>chooseTarget\<close> may pick.\<close>

definition healthy_replica :: "siteObservation \<Rightarrow> bool" where
  "healthy_replica ob \<longleftrightarrow> o_reachable ob \<and> o_ready ob \<and> \<not> o_primary ob"

definition eligible :: "ReplicaSite list \<Rightarrow> siteObservation list \<Rightarrow> string \<Rightarrow> nat \<Rightarrow> bool" where
  "eligible reps obs failed i \<longleftrightarrow>
     i < length reps \<and> rs_Name (reps ! i) \<noteq> failed \<and> healthy_replica (obs ! i)"

definition best_choice :: "bool \<Rightarrow> siteObservation list \<Rightarrow> nat set \<Rightarrow> nat option \<Rightarrow> bool" where
  "best_choice mostAdvanced obs S r = (case r of
     None \<Rightarrow> S = {}
   | Some b \<Rightarrow> if mostAdvanced then first_best moreAdvanced (\<lambda>i. obs ! i) S b
               else b \<in> S \<and> (\<forall>j \<in> S. b \<le> j))"

lemma eligible_below_Suc:
  "{j. j < Suc i \<and> P j} = (if P i then insert i {j. j < i \<and> P j} else {j. j < i \<and> P j})"
  by (auto simp: less_Suc_eq)

lemma choose_loop_best:
  assumes "length obs = length reps"
    and "best_choice ma obs {j. j < i \<and> eligible reps obs failed j} best" and "\<not> ma \<longrightarrow> best = None"
    and "i \<le> length reps"
  shows "\<exists>r. choose_loop ma obs failed (drop i reps) i best = Ok r \<and>
    best_choice ma obs {j. eligible reps obs failed j} r"
  using assms(2-4)
proof (induction "length reps - i" arbitrary: i best)
  case 0
  then have "{j. j < i \<and> eligible reps obs failed j} = {j. eligible reps obs failed j}"
    by (auto simp: eligible_def)
  with 0 show ?case by simp
next
  case (Suc n)
  then have i: "i < length reps" by simp
  let ?S = "{j. j < i \<and> eligible reps obs failed j}"
  let ?next = "\<lambda>b'. best_choice ma obs {j. j < Suc i \<and> eligible reps obs failed j} b' \<longrightarrow>
    (\<not> ma \<longrightarrow> b' = None) \<longrightarrow> (\<exists>r. choose_loop ma obs failed (drop (Suc i) reps) (Suc i) b' = Ok r \<and>
      best_choice ma obs {j. eligible reps obs failed j} r)"
  have IH: "?next b'" for b' using Suc.hyps(1) [of "Suc i" b'] Suc.hyps(2) i by auto
  note unf = Cons_nth_drop_Suc [OF i, symmetric]
  show ?case
  proof (cases "eligible reps obs failed i")
    case False
    then have "choose_loop ma obs failed (drop i reps) i best =
        choose_loop ma obs failed (drop (Suc i) reps) (Suc i) best"
      using i assms(1) by (subst unf) (auto simp: eligible_def healthy_replica_def Let_def)
    with False IH [of best] Suc.prems show ?thesis by (simp add: eligible_below_Suc)
  next
    case True
    let ?b' = "case best of None \<Rightarrow> Some i
      | Some b \<Rightarrow> if moreAdvanced (obs ! i) (obs ! b) then Some i else Some b"
    have step: "choose_loop ma obs failed (drop i reps) i best =
        (if \<not> ma then Ok (Some i) else choose_loop ma obs failed (drop (Suc i) reps) (Suc i) ?b')"
      using True i assms(1) Suc.prems
      by (subst unf) (auto simp: eligible_def healthy_replica_def Let_def split: option.splits)
    show ?thesis
    proof (cases ma)
      case False
      with Suc.prems have "?S = {}" by (simp add: best_choice_def)
      with step False True show ?thesis by (auto simp: best_choice_def not_less [symmetric])
    next
      case True
      note ma = this
      have "best_choice ma obs (insert i ?S) ?b'"
      proof (cases best)
        case None
        with Suc.prems(1) have e: "?S = {}" by (simp add: best_choice_def)
        from None ma show ?thesis
          unfolding e by (simp add: best_choice_def advance.first_best_singleton)
      next
        case (Some b)
        with Suc.prems(1) ma have "first_best moreAdvanced (\<lambda>i. obs ! i) ?S b"
          by (simp add: best_choice_def)
        from advance.first_best_insert [OF this, of i] Some ma show ?thesis
          by (simp add: best_choice_def split: if_splits)
      qed
      with IH [of ?b'] step \<open>eligible reps obs failed i\<close> ma show ?thesis by (simp add: eligible_below_Suc)
    qed
  qed
qed

lemma chooseTarget_best:
  assumes "length obs = length (spec_replicas ha)"
  obtains r where "chooseTarget ha obs failed = Ok (map_option (\<lambda>b. (spec_replicas ha ! b, b)) r)"
    and "best_choice (fo_PromotionPolicy (spec_failover ha) = PromotionPolicyMostAdvancedLSN) obs
      {i. eligible (spec_replicas ha) obs failed i} r"
proof -
  let ?ma = "fo_PromotionPolicy (spec_failover ha) = PromotionPolicyMostAdvancedLSN"
  from choose_loop_best [OF assms, of ?ma 0 failed None] obtain r where
    r: "choose_loop ?ma obs failed (spec_replicas ha) 0 None = Ok r"
    "best_choice ?ma obs {i. eligible (spec_replicas ha) obs failed i} r"
    by (auto simp: best_choice_def)
  then have "chooseTarget ha obs failed = Ok (map_option (\<lambda>b. (spec_replicas ha ! b, b)) r)"
    by (simp add: chooseTarget_def Let_def split: option.splits)
  with r(2) that show thesis by blast
qed

section \<open>Roles after a promotion\<close>

lemma primaryReadyCandidates_all:
  "primaryReadyCandidates p rs = map o_name (filter primary_ready (p # rs))"
  by (simp add: primaryReadyCandidates_def)

definition role_at :: "string \<Rightarrow> bool \<Rightarrow> siteObservation \<Rightarrow> siteObservation" where
  "role_at nm prim ob = (if o_name ob = nm then set_role prim ob else ob)"

lemma role_at_simps [simp]:
  "o_name (role_at nm prim ob) = o_name ob" "o_reachable (role_at nm prim ob) = o_reachable ob"
  "o_primary (role_at nm prim ob) = (if o_name ob = nm then prim else o_primary ob)"
  "o_ready (role_at nm prim ob) = (if o_name ob = nm \<and> \<not> prim then False else o_ready ob)"
  by (simp_all add: role_at_def set_role_def Let_def)

lemma role_at_absent: "nm \<notin> o_name ` set rs \<Longrightarrow> map (role_at nm prim) rs = rs"
  by (rule map_idI) (auto simp: role_at_def image_iff)

lemma update_first_distinct:
  "distinct (map o_name rs) \<Longrightarrow>
   update_first (\<lambda>ob. o_name ob = nm) (set_role prim) rs = map (role_at nm prim) rs"
proof (induction rs)
  case (Cons ob rs)
  show ?case
  proof (cases "o_name ob = nm")
    case True
    with Cons.prems have "map (role_at nm prim) rs = rs" by (intro role_at_absent) auto
    with True show ?thesis by (simp add: role_at_def [of nm prim ob])
  next
    case False
    with Cons show ?thesis by (simp add: role_at_def)
  qed
qed simp

lemma setObservationRole_distinct:
  assumes "distinct (o_name p # map o_name rs)"
  shows "setObservationRole nm prim (p, rs) = (role_at nm prim p, map (role_at nm prim) rs)"
proof (cases "o_name p = nm")
  case True
  with assms have "map (role_at nm prim) rs = rs" by (intro role_at_absent) auto
  with True show ?thesis by (simp add: setObservationRole_def role_at_def)
next
  case False
  with assms show ?thesis by (simp add: setObservationRole_def update_first_distinct role_at_def)
qed

lemma applyPromotionEffect_distinct:
  assumes "distinct (o_name p # map o_name rs)" and "promoted e \<noteq> []"
  shows "applyPromotionEffect e (p, rs) =
    (role_at (promoted e) True (role_at (demoted e) False p),
     map (role_at (promoted e) True \<circ> role_at (demoted e) False) rs)"
  using assms by (simp add: applyPromotionEffect_def didPromote_def setObservationRole_distinct comp_def)

lemma filter_name_single:
  "distinct (map o_name obs) \<Longrightarrow> ob \<in> set obs \<Longrightarrow> filter (\<lambda>x. o_name x = o_name ob) obs = [ob]"
proof (induction obs)
  case (Cons x xs)
  then show ?case by (cases "x = ob") (auto simp: filter_empty_conv image_iff)
qed simp

section \<open>Word arithmetic of the settings\<close>

lemma sint_i64: "- (2 ^ 63) \<le> k \<Longrightarrow> k < 2 ^ 63 \<Longrightarrow> sint (word_of_int k :: i64) = k"
  by (simp add: sint_sbintrunc' signed_take_bit_int_eq_self)

lemma sint_i32_bounds: "- (2 ^ 31) \<le> sint (x :: i32)" "sint (x :: i32) < 2 ^ 31"
  using sint_range_size [of x] by (simp_all add: word_size)

lemma sint_interval:
  "sint (effectiveHealthInterval f) =
    (if sint (fo_HealthCheckIntervalSeconds f) < 1 then 10 else sint (fo_HealthCheckIntervalSeconds f)) * 10 ^ 9"
proof (cases "sint (fo_HealthCheckIntervalSeconds f) < 1")
  case True
  have "sint (10 * Second) = 10 * 10 ^ 9" by code_simp
  with True show ?thesis by (simp add: effectiveHealthInterval_def defaultHealthCheckInterval_def)
next
  case False
  let ?x = "sint (fo_HealthCheckIntervalSeconds f)"
  have "word_of_int ?x * Second = (word_of_int (?x * 10 ^ 9) :: i64)" by simp
  moreover have "sint (word_of_int (?x * 10 ^ 9) :: i64) = ?x * 10 ^ 9"
    using sint_i32_bounds [of "fo_HealthCheckIntervalSeconds f"] False by (intro sint_i64) auto
  ultimately show ?thesis using False by (simp add: effectiveHealthInterval_def)
qed

lemma sint_cooldown:
  "sint (stabilizationCooldown f) = max (30 * 10 ^ 9) (3 * sint (effectiveHealthInterval f))"
proof -
  let ?d = "effectiveHealthInterval f"
  have "3 * ?d = word_of_int (3 * sint ?d)" by simp
  moreover have "sint (word_of_int (3 * sint ?d) :: i64) = 3 * sint ?d"
    using sint_i32_bounds [of "fo_HealthCheckIntervalSeconds f"]
    by (intro sint_i64) (auto simp: sint_interval)
  ultimately have "sint (3 * ?d) = 3 * sint ?d" by metis
  moreover have "sint minStabilizationCooldown = 30 * 10 ^ 9" by code_simp
  ultimately show ?thesis by (auto simp: stabilizationCooldown_def Let_def)
qed

lemma sint_threshold:
  "sint (effectiveFailureThreshold f) =
    (if sint (fo_FailureThreshold f) < 2 then 3 else sint (fo_FailureThreshold f))"
  using sint_i32_bounds [of "fo_FailureThreshold f"] sint_i64 [of "sint (fo_FailureThreshold f)"]
  by (auto simp: effectiveFailureThreshold_def defaultFailureThreshold_def)

section \<open>Properties\<close>

definition demo_obs :: "string \<Rightarrow> bool \<Rightarrow> bool \<Rightarrow> bool \<Rightarrow> i64 \<Rightarrow> siteObservation" where
  "demo_obs nm reach prim rdy tid = \<lparr>o_name = nm, o_reachable = reach, o_primary = prim, o_ready = rdy,
     o_phase = [], o_reason = [], o_timelineID = tid, o_lsnKnown = False, o_lsn = [], o_lsnValue = 0,
     o_lagSeconds = None\<rparr>"

definition demo_replica :: "string \<Rightarrow> string \<Rightarrow> string \<Rightarrow> ReplicaSite" where
  "demo_replica nm secret endpoint = \<lparr>rs_Name = nm,
     rs_KubeconfigSecretRef = \<lparr>sel_Name = secret, sel_Key = ''kubeconfig''\<rparr>,
     rs_ClusterRef = \<lparr>cr_Name = ''pg'', cr_Namespace = ''db''\<rparr>, rs_ReplicationEndpoint = endpoint,
     rs_PostgresProbe = None\<rparr>"

definition demo_ha :: "string \<Rightarrow> string \<Rightarrow> strmap \<Rightarrow> string \<Rightarrow> HACluster" where
  "demo_ha mode policy ann cur = \<lparr>ha_Name = ''c'', ha_Namespace = ''ha'', ha_ResourceVersion = ''1'',
     ha_Generation = 4, ha_Annotations = ann,
     ha_Spec = \<lparr>Primary = \<lparr>ps_Name = ''a'', ps_ClusterRef = \<lparr>cr_Name = ''pg'', cr_Namespace = ''db''\<rparr>,
         ps_ReplicationEndpoint = ''a'', ps_PostgresProbe = None\<rparr>,
       Replicas = [demo_replica ''b'' ''site-b'' ''b'', demo_replica ''c'' ''site-c'' ''c''],
       Failover = \<lparr>fo_Mode = mode, fo_HealthCheckIntervalSeconds = 10, fo_FailureThreshold = 2,
         fo_PromotionPolicy = policy, fo_RejoinPolicy = ''Manual''\<rparr>\<rparr>,
     ha_Status = \<lparr>CurrentPrimarySite = cur, LastFailoverTime = None, ObservedGeneration = 0,
       Sites = [], Conditions = []\<rparr>\<rparr>"

text \<open>C15. \<open>chooseTarget\<close>, for every spec and every matching list of observations: it never panics; it
  returns no target exactly when no replica is eligible (reachable, ready, in replica mode and not the
  failed primary); under policy \<open>MostAdvancedLSN\<close> it returns the eligible replica of the greatest
  WAL rank (a known position before an unknown one, then the unsigned position, without positions the
  timeline), the first in spec order among equals; under any other policy it returns the first
  eligible replica of the spec.\<close>

theorem chooseTarget_correct:
  assumes "length obs = length (spec_replicas ha)"
  shows "let S = {i. eligible (spec_replicas ha) obs failed i} in
    case chooseTarget ha obs failed of
      Ok None \<Rightarrow> S = {}
    | Ok (Some (rep, i)) \<Rightarrow> i \<in> S \<and> rep = spec_replicas ha ! i \<and>
        (if fo_PromotionPolicy (spec_failover ha) = ''MostAdvancedLSN''
         then (\<forall>j \<in> S. wal_rank (obs ! j) \<le> wal_rank (obs ! i)) \<and>
           (\<forall>j \<in> S. j < i \<longrightarrow> wal_rank (obs ! j) < wal_rank (obs ! i))
         else \<forall>j \<in> S. i \<le> j)
    | _ \<Rightarrow> False"
proof -
  obtain r where r: "chooseTarget ha obs failed = Ok (map_option (\<lambda>b. (spec_replicas ha ! b, b)) r)"
    and b: "best_choice (fo_PromotionPolicy (spec_failover ha) = PromotionPolicyMostAdvancedLSN) obs
      {i. eligible (spec_replicas ha) obs failed i} r"
    using chooseTarget_best [OF assms] by blast
  show ?thesis
  proof (cases r)
    case None
    with r b show ?thesis by (simp add: best_choice_def)
  next
    case (Some i)
    with r b show ?thesis
      by (auto simp: best_choice_def first_best_def moreAdvanced_rank not_less split: if_splits)
  qed
qed

theorem chooseTarget_correct_witness:
  "chooseTarget (demo_ha ''Automatic'' ''MostAdvancedLSN'' [] ''a'')
     [demo_obs ''b'' True False True 1, demo_obs ''c'' True False True 2] ''a'' =
   Ok (Some (demo_replica ''c'' ''site-c'' ''c'', 1))"
  (is "chooseTarget ?ha ?obs _ = _")
proof -
  have e: "eligible (spec_replicas ?ha) ?obs ''a'' 0" "eligible (spec_replicas ?ha) ?obs ''a'' 1"
    by (simp_all add: eligible_def demo_ha_def demo_replica_def healthy_replica_def demo_obs_def)
  have lt: "eligible (spec_replicas ?ha) ?obs ''a'' i \<Longrightarrow> i = 0 \<or> i = 1" for i
    by (auto simp: eligible_def demo_ha_def less_Suc_eq)
  have "length ?obs = length (spec_replicas ?ha)" by (simp add: demo_ha_def)
  note ch = chooseTarget_correct [OF this, of "''a''"]
  have adv: "wal_rank (?obs ! 0) < wal_rank (?obs ! 1)"
    by (simp add: demo_obs_def wal_rank_def less_prod_simp)
  have "fo_PromotionPolicy (spec_failover ?ha) = ''MostAdvancedLSN''" by (simp add: demo_ha_def)
  with ch e adv obtain rep i where "chooseTarget ?ha ?obs ''a'' = Ok (Some (rep, i))"
    "eligible (spec_replicas ?ha) ?obs ''a'' i" "rep = spec_replicas ?ha ! i" "wal_rank (?obs ! 1) \<le> wal_rank (?obs ! i)"
    by (auto simp: Let_def split: res.splits option.splits)
  moreover from this have "i = 1" using lt adv by (metis leD)
  ultimately show ?thesis by (simp add: demo_ha_def)
qed



text \<open>The role change a promotion applies to the observations: when site names differ, the promoted
  site was observed reachable and ready, and no site other than the demoted one was a ready primary, then the same
  reconcile sees exactly the promoted site as primary and no split-brain, and reports the same sites in
  the same order.\<close>

lemma applyPromotionEffect_takes_over:
  assumes "distinct (map o_name (p # rs))"
    and "ob \<in> set (p # rs)" and "o_name ob = promoted e" and "o_reachable ob" and "o_ready ob"
    and "promoted e \<noteq> []" and "demoted e \<noteq> promoted e"
    and "\<forall>x \<in> set (p # rs). primary_ready x \<longrightarrow> o_name x \<in> {demoted e, promoted e}"
  shows "case applyPromotionEffect e (p, rs) of (p', rs') \<Rightarrow>
    decideCurrentPrimary p' rs' = (promoted e, True) \<and> detectSplitBrain p' rs' = [] \<and>
    map o_name (p' # rs') = map o_name (p # rs)"
proof -
  let ?g = "role_at (promoted e) True \<circ> role_at (demoted e) False"
  have ap: "applyPromotionEffect e (p, rs) = (?g p, map ?g rs)"
    using applyPromotionEffect_distinct assms(1,6) by simp
  have "primary_ready (?g x) \<longleftrightarrow> o_name x = o_name ob" if "x \<in> set (p # rs)" for x
  proof (cases "o_name x = promoted e")
    case True
    then have "x = ob" using assms(1-3) that unfolding distinct_map by (metis inj_onD)
    then show ?thesis using assms(3-5,7) by (simp add: primary_ready_def)
  next
    case False
    with assms(3,8) that show ?thesis by (auto simp: primary_ready_def)
  qed
  then have "filter primary_ready (map ?g (p # rs)) = map ?g (filter (\<lambda>x. o_name x = o_name ob) (p # rs))"
    unfolding filter_map by (intro arg_cong [where f = "map ?g"] filter_cong) auto
  then have "map o_name (filter primary_ready (map ?g (p # rs))) = [promoted e]"
    using filter_name_single [OF assms(1,2)] assms(3) by (simp del: filter.simps)
  then have "primaryReadyCandidates (?g p) (map ?g rs) = [promoted e]"
    unfolding primaryReadyCandidates_all by (simp del: filter.simps)
  then show ?thesis
    by (simp add: ap decideCurrentPrimary_def detectSplitBrain_def Let_def)
qed


end
