(* ===== verification/Promotion.thy ===== *)
theory Promotion
  imports Health
begin

text \<open>
  \<open>internal/promotion/promotion.go\<close>: the four operations that move the primary role
  between sites. Each reads one object, compares it with the wanted state and writes it
  back at most once. The locale \<open>settling_step\<close> states that contract once; \<open>Fence\<close>,
  \<open>Promote\<close>, \<open>Reconfigure\<close> and \<open>FlipCiliumService\<close> are its interpretations, each with
  the plan (the pure comparison and edit) it follows.
\<close>

section \<open>Constants and types\<close>

definition AnnotationFenced :: string where "AnnotationFenced = ''cnpg.io/fencedInstances''"
definition FencedAllInstances :: string where
  "FencedAllInstances = [CHR ''['', CHR 0x22, CHR ''*'', CHR 0x22, CHR '']'']"
definition AnnotationCiliumGlobal :: string where
  "AnnotationCiliumGlobal = ''service.cilium.io/global''"
definition AnnotationCiliumAffinity :: string where
  "AnnotationCiliumAffinity = ''service.cilium.io/affinity''"

record Ref =
  ref_Namespace :: string
  ref_Name :: string

definition ref_key :: "Ref \<Rightarrow> NamespacedName" where
  "ref_key ref = nn (ref_Namespace ref) (ref_Name ref)"

datatype ServiceRole = RoleLocal | RoleRemote

definition affinityValue :: "ServiceRole \<Rightarrow> string" where
  "affinityValue r = (if r = RoleRemote then ''remote'' else ''local'')"

definition at_ref :: "string \<Rightarrow> Ref \<Rightarrow> string" where
  "at_ref what ref = what @ '' '' @ ref_Namespace ref @ ''/'' @ ref_Name ref"

section \<open>Operations\<close>

definition Fence :: "('w, 'c) env \<Rightarrow> 'c \<Rightarrow> Ref \<Rightarrow> ('w, 'x, unit res) io" where
  "Fence E cli ref = do {
     r \<leftarrow> call (get_cluster E cli (ref_key ref));
     case r of
       Inl e \<Rightarrow> State_Monad.return (Err (Wrapf (at_ref ''get cnpg cluster'' ref) e))
     | Inr u \<Rightarrow>
         let ann = getAnnotations E u in
         if nil_lookup ann AnnotationFenced = FencedAllInstances then State_Monad.return (Ok ())
         else
           let ann = (case ann of None \<Rightarrow> [] | Some a \<Rightarrow> a);
               ann = AList.update AnnotationFenced FencedAllInstances ann;
               u = setAnnotations E u ann
           in do {
             x \<leftarrow> call (update_cluster E cli (ref_key ref) u);
             case x of
               Some e \<Rightarrow> State_Monad.return (Err (Wrapf (at_ref ''fence cnpg cluster'' ref) e))
             | None \<Rightarrow> State_Monad.return (Ok ())
           }
   }"

definition Promote :: "('w, 'c) env \<Rightarrow> 'c \<Rightarrow> Ref \<Rightarrow> ('w, 'x, unit res) io" where
  "Promote E cli ref = do {
     r \<leftarrow> call (get_cluster E cli (ref_key ref));
     case r of
       Inl e \<Rightarrow> State_Monad.return (Err (Wrapf (at_ref ''get cnpg cluster'' ref) e))
     | Inr u \<Rightarrow>
         let (enabled, found, err) = nestedBool E u [''spec'', ''replica'', ''enabled''] in
         case err of
           Some e \<Rightarrow> State_Monad.return (Err (Wrapf (at_ref ''read spec.replica.enabled'' ref) e))
         | None \<Rightarrow>
             if \<not> found \<or> \<not> enabled then State_Monad.return (Ok ())
             else
               (case setNestedField E u (JBool False) [''spec'', ''replica'', ''enabled''] of
                  Inl e \<Rightarrow> State_Monad.return (Err (Wrapf (at_ref ''set spec.replica.enabled'' ref) e))
                | Inr u \<Rightarrow> do {
                    x \<leftarrow> call (update_cluster E cli (ref_key ref) u);
                    case x of
                      Some e \<Rightarrow> State_Monad.return (Err (Wrapf (at_ref ''promote cnpg cluster'' ref) e))
                    | None \<Rightarrow> State_Monad.return (Ok ())
                  })
   }"

text \<open>The value of a string field of a JSON object, empty when absent or not a string.\<close>

definition str_field :: "(string \<times> json) list \<Rightarrow> string \<Rightarrow> string" where
  "str_field m k = (case map_of m k of Some (JStr x) \<Rightarrow> x | _ \<Rightarrow> [])"

fun find_external :: "json list \<Rightarrow> string \<Rightarrow> nat \<Rightarrow> nat option" where
  "find_external [] source i = None"
| "find_external (e # es) source i =
     (case e of
        JObj m \<Rightarrow> if str_field m ''name'' = source then Some i else find_external es source (Suc i)
      | _ \<Rightarrow> find_external es source (Suc i))"

definition externalClusterIndex :: "json list \<Rightarrow> string \<Rightarrow> goerror + nat" where
  "externalClusterIndex externals source =
     (if source = [] then
        (if length externals \<noteq> 1
         then Inl (Errorf (''spec.replica.source unset and '' @ show_int (int (length externals)) @
                '' externalClusters (ambiguous)''))
         else Inr 0)
      else
        (case find_external externals source 0 of
           Some i \<Rightarrow> Inr i
         | None \<Rightarrow> Inl (Errorf (''spec.replica.source '' @ fmt_q source @
                     '' has no matching externalCluster''))))"

definition Reconfigure :: "('w, 'c) env \<Rightarrow> 'c \<Rightarrow> Ref \<Rightarrow> string \<Rightarrow> ('w, 'x, unit res) io" where
  "Reconfigure E cli ref sourceHost =
     (let here = at_ref ''reconfigure cnpg cluster'' ref in
      if sourceHost = [] then State_Monad.return (Err (Errorf (here @ '': empty source host'')))
      else do {
        r \<leftarrow> call (get_cluster E cli (ref_key ref));
        case r of
          Inl e \<Rightarrow> State_Monad.return (Err (Wrapf (at_ref ''get cnpg cluster'' ref) e))
        | Inr u \<Rightarrow>
            let (externals, _, err) = nestedSlice E u [''spec'', ''externalClusters''] in
            case err of
              Some e \<Rightarrow> State_Monad.return (Err (Wrapf (at_ref ''read spec.externalClusters'' ref) e))
            | None \<Rightarrow>
                if externals = []
                then State_Monad.return (Err (Errorf (here @ '': no spec.externalClusters to repoint'')))
                else
                  let source = fst (nestedString E u [''spec'', ''replica'', ''source'']) in
                  case externalClusterIndex externals source of
                    Inl e \<Rightarrow> State_Monad.return (Err (Wrapf here e))
                  | Inr idx \<Rightarrow>
                      (case externals ! idx of
                         JObj ext \<Rightarrow>
                           let conn = (case map_of ext ''connectionParameters'' of
                                         Some (JObj c) \<Rightarrow> c | _ \<Rightarrow> []);
                               enabled = fst (nestedBool E u [''spec'', ''replica'', ''enabled''])
                           in if enabled \<and> map_of conn ''host'' = Some (JStr sourceHost)
                              then State_Monad.return (Ok ())
                              else
                                let conn = AList.update ''host'' (JStr sourceHost) conn;
                                    ext = AList.update ''connectionParameters'' (JObj conn) ext;
                                    externals = externals[idx := JObj ext]
                                in case setNestedSlice E u externals [''spec'', ''externalClusters''] of
                                     Inl e \<Rightarrow> State_Monad.return
                                       (Err (Wrapf (at_ref ''set spec.externalClusters'' ref) e))
                                   | Inr u \<Rightarrow>
                                       (case setNestedField E u (JBool True) [''spec'', ''replica'', ''enabled''] of
                                          Inl e \<Rightarrow> State_Monad.return
                                            (Err (Wrapf (at_ref ''set spec.replica.enabled'' ref) e))
                                        | Inr u \<Rightarrow> do {
                                            x \<leftarrow> call (update_cluster E cli (ref_key ref) u);
                                            case x of
                                              Some e \<Rightarrow> State_Monad.return (Err (Wrapf here e))
                                            | None \<Rightarrow> State_Monad.return (Ok ())
                                          })
                       | _ \<Rightarrow> State_Monad.return (Err (Errorf (here @ '': externalClusters['' @
                           show_int (int idx) @ ''] is not an object''))))
      })"

definition FlipCiliumService ::
  "('w, 'c) env \<Rightarrow> 'c \<Rightarrow> Ref \<Rightarrow> ServiceRole \<Rightarrow> ('w, 'x, unit res) io" where
  "FlipCiliumService E cli ref role =
     (let svcName = ref_Name ref @ ''-rw'';
          key = nn (ref_Namespace ref) svcName;
          loc = ref_Namespace ref @ ''/'' @ svcName
      in do {
        r \<leftarrow> call (get_service E cli key);
        case r of
          Inl e \<Rightarrow> State_Monad.return (Err (Wrapf (''get service '' @ loc) e))
        | Inr svc \<Rightarrow>
            let wantAffinity = affinityValue role in
            if nil_lookup (svc_annotations svc) AnnotationCiliumGlobal = ''true'' \<and>
               nil_lookup (svc_annotations svc) AnnotationCiliumAffinity = wantAffinity
            then State_Monad.return (Ok ())
            else
              let ann = (case svc_annotations svc of None \<Rightarrow> [] | Some a \<Rightarrow> a);
                  ann = AList.update AnnotationCiliumGlobal ''true'' ann;
                  ann = AList.update AnnotationCiliumAffinity wantAffinity ann
              in do {
                x \<leftarrow> call (update_service E cli key (svc\<lparr>svc_annotations := Some ann\<rparr>));
                case x of
                  Some e \<Rightarrow> State_Monad.return (Err (Wrapf (''update service '' @ loc) e))
                | None \<Rightarrow> State_Monad.return (Ok ())
              }
      })"

section \<open>The contract of a step\<close>

text \<open>
  A step reads an object, asks its plan what to do (fail, nothing, or write this object),
  and writes at most once. \<open>settle\<close> is the promise behind the word idempotent in the
  source: an object that reads back as the one just written needs no further write.
\<close>

locale settling_step =
  fixes op :: "('w, 'c) env \<Rightarrow> 'c \<Rightarrow> Ref \<Rightarrow> ('w, 'x, unit res) io"
    and get :: "('w, 'c) env \<Rightarrow> 'c \<Rightarrow> NamespacedName \<Rightarrow> 'w \<Rightarrow> (goerror + 'o) \<times> 'w"
    and upd :: "('w, 'c) env \<Rightarrow> 'c \<Rightarrow> NamespacedName \<Rightarrow> 'o \<Rightarrow> 'w \<Rightarrow> goerror option \<times> 'w"
    and key :: "Ref \<Rightarrow> NamespacedName"
    and plan :: "('w, 'c) env \<Rightarrow> Ref \<Rightarrow> 'o \<Rightarrow> goerror + 'o option"
    and get_prefix :: "Ref \<Rightarrow> string"
    and upd_prefix :: "Ref \<Rightarrow> string"
    and agree :: "('w, 'c) env \<Rightarrow> 'o \<Rightarrow> 'o \<Rightarrow> bool"
    and wf :: "'o \<Rightarrow> bool"
    and guard :: bool
  assumes blocked: "\<not> guard \<Longrightarrow> \<exists>e. run_state (op E cli ref) s = (Err e, s)"
    and step: "guard \<Longrightarrow> run_state (op E cli ref) s =
      (case get E cli (key ref) (world s) of
         (Inl e, w) \<Rightarrow> (Err (Wrapf (get_prefix ref) e), s\<lparr>world := w\<rparr>)
       | (Inr u, w) \<Rightarrow>
           (case plan E ref u of
              Inl e \<Rightarrow> (Err e, s\<lparr>world := w\<rparr>)
            | Inr None \<Rightarrow> (Ok (), s\<lparr>world := w\<rparr>)
            | Inr (Some u') \<Rightarrow>
                (case upd E cli (key ref) u' w of
                   (None, w') \<Rightarrow> (Ok (), s\<lparr>world := w'\<rparr>)
                 | (Some e, w') \<Rightarrow> (Err (Wrapf (upd_prefix ref) e), s\<lparr>world := w'\<rparr>))))"
    and settle: "unstructured_laws E \<Longrightarrow> wf u \<Longrightarrow> plan E ref u = Inr (Some u') \<Longrightarrow> agree E v u' \<Longrightarrow>
      plan E ref v = Inr None"
begin

text \<open>
  Reads leave the world alone and give well-formed objects, and a successful write reads
  back.
\<close>

definition faithful_store :: "('w, 'c) env \<Rightarrow> bool" where
  "faithful_store E \<longleftrightarrow>
     (\<forall>c k w. snd (get E c k w) = w) \<and>
     (\<forall>c k w u. fst (get E c k w) = Inr u \<longrightarrow> wf u) \<and>
     (\<forall>c k u w w'. upd E c k u w = (None, w') \<longrightarrow>
        (\<exists>v. fst (get E c k w') = Inr v \<and> agree E v u))"

lemma never_panics: "run_state (op E cli ref) s \<noteq> (Panic p, t)"
  using blocked [of E cli ref s] step [of E cli ref s]
  by (cases guard) (auto split: prod.splits sum.splits option.splits)

lemma only_world:
  assumes "run_state (op E cli ref) s = (x, t)"
  obtains w where "t = s\<lparr>world := w\<rparr>"
proof (cases guard)
  case True
  with assms step [of E cli ref s] that show thesis
    by (auto split: prod.splits sum.splits option.splits)
next
  case False
  with assms blocked [of E cli ref s] that [of "world s"] show thesis by auto
qed

lemma success_agrees:
  assumes "faithful_store E" and "run_state (op E cli ref) s = (Ok (), t)"
  obtains u v where "fst (get E cli (key ref) (world s)) = Inr u" and "wf u"
    and "fst (get E cli (key ref) (world t)) = Inr v"
    and "(plan E ref u = Inr None \<and> v = u) \<or> (\<exists>u'. plan E ref u = Inr (Some u') \<and> agree E v u')"
proof -
  obtain r w where g: "get E cli (key ref) (world s) = (r, w)" by fastforce
  from assms(1) g have w: "w = world s" by (metis faithful_store_def snd_conv)
  have gd: guard using blocked [of E cli ref s] assms(2) by auto
  note run = assms(2) [unfolded step [OF gd]]
  from run g obtain u where u: "r = Inr u" by (cases r) auto
  have wfu: "wf u" using assms(1) g u unfolding faithful_store_def by (metis fst_conv)
  from run g u obtain o' where o': "plan E ref u = Inr o'" by (auto split: sum.splits)
  show thesis
  proof (cases o')
    case None
    with run g u o' have t: "t = s\<lparr>world := w\<rparr>" by simp
    with that [of u u] g u w wfu None o' show thesis by simp
  next
    case (Some u')
    with run g u o' obtain w' where up: "upd E cli (key ref) u' w = (None, w')"
      and t: "t = s\<lparr>world := w'\<rparr>"
      by (auto split: prod.splits option.splits)
    from assms(1) up obtain v where v: "fst (get E cli (key ref) w') = Inr v" "agree E v u'"
      unfolding faithful_store_def by blast
    with that [of u v] g u wfu o' Some t show thesis by simp
  qed
qed

lemma success_settled:
  assumes "faithful_store E" and "unstructured_laws E"
    and "run_state (op E cli ref) s = (Ok (), t)"
  shows "\<exists>u. fst (get E cli (key ref) (world t)) = Inr u \<and> plan E ref u = Inr None"
proof -
  from success_agrees [OF assms(1,3)] obtain u v where
    uv: "wf u" "fst (get E cli (key ref) (world t)) = Inr v"
    "(plan E ref u = Inr None \<and> v = u) \<or> (\<exists>u'. plan E ref u = Inr (Some u') \<and> agree E v u')"
    by metis
  then show ?thesis using settle [OF assms(2) uv(1)] by auto
qed

lemma settled_no_op:
  assumes "faithful_store E" and "guard"
    and "fst (get E cli (key ref) (world s)) = Inr u" and "plan E ref u = Inr None"
  shows "run_state (op E cli ref) s = (Ok (), s)"
proof -
  obtain r w where g: "get E cli (key ref) (world s) = (r, w)" by fastforce
  from assms(1) g have "w = world s" by (metis faithful_store_def snd_conv)
  with g assms(3,4) show ?thesis by (simp add: step [OF assms(2)])
qed

text \<open>Once it has succeeded, a step does nothing when it runs again.\<close>

lemma idempotent:
  assumes "faithful_store E" and "unstructured_laws E"
    and "run_state (op E cli ref) s = (Ok (), t)"
  shows "run_state (op E cli ref) t = (Ok (), t)"
proof -
  have gd: guard
    using blocked [of E cli ref s] assms(3) by auto
  from success_settled [OF assms] obtain u where
    "fst (get E cli (key ref) (world t)) = Inr u" "plan E ref u = Inr None" by blast
  then show ?thesis by (rule settled_no_op [OF assms(1) gd])
qed

end

section \<open>The four plans\<close>

definition fence_plan :: "'x lib_scheme \<Rightarrow> Ref \<Rightarrow> json \<Rightarrow> goerror + json option" where
  "fence_plan L ref u =
     (if nil_lookup (getAnnotations L u) AnnotationFenced = FencedAllInstances then Inr None
      else Inr (Some (setAnnotations L u (AList.update AnnotationFenced FencedAllInstances
             (case getAnnotations L u of None \<Rightarrow> [] | Some a \<Rightarrow> a)))))"

definition promote_plan :: "'x lib_scheme \<Rightarrow> Ref \<Rightarrow> json \<Rightarrow> goerror + json option" where
  "promote_plan L ref u =
     (case nestedBool L u replica_enabled_path of
        (enabled, found, Some e) \<Rightarrow> Inl (Wrapf (at_ref ''read spec.replica.enabled'' ref) e)
      | (enabled, found, None) \<Rightarrow>
          if \<not> found \<or> \<not> enabled then Inr None
          else (case setNestedField L u (JBool False) replica_enabled_path of
                  Inl e \<Rightarrow> Inl (Wrapf (at_ref ''set spec.replica.enabled'' ref) e)
                | Inr u' \<Rightarrow> Inr (Some u')))"

definition flip_plan :: "ServiceRole \<Rightarrow> 'e \<Rightarrow> Ref \<Rightarrow> Service \<Rightarrow> goerror + Service option" where
  "flip_plan role E ref svc =
     (if nil_lookup (svc_annotations svc) AnnotationCiliumGlobal = ''true'' \<and>
         nil_lookup (svc_annotations svc) AnnotationCiliumAffinity = affinityValue role
      then Inr None
      else Inr (Some (svc\<lparr>svc_annotations := Some
             (AList.update AnnotationCiliumAffinity (affinityValue role)
               (AList.update AnnotationCiliumGlobal ''true''
                 (case svc_annotations svc of None \<Rightarrow> [] | Some a \<Rightarrow> a)))\<rparr>)))"

definition repoint :: "string \<Rightarrow> (string \<times> json) list \<Rightarrow> json" where
  "repoint host ext =
     JObj (AList.update ''connectionParameters''
       (JObj (AList.update ''host'' (JStr host)
          (case map_of ext ''connectionParameters'' of Some (JObj c) \<Rightarrow> c | _ \<Rightarrow> []))) ext)"

definition host_of :: "(string \<times> json) list \<Rightarrow> json option" where
  "host_of ext = (case map_of ext ''connectionParameters'' of
     Some (JObj c) \<Rightarrow> map_of c ''host'' | _ \<Rightarrow> None)"

definition reconfigure_plan ::
  "string \<Rightarrow> 'x lib_scheme \<Rightarrow> Ref \<Rightarrow> json \<Rightarrow> goerror + json option" where
  "reconfigure_plan host L ref u =
     (let here = at_ref ''reconfigure cnpg cluster'' ref in
      case nestedSlice L u [''spec'', ''externalClusters''] of
        (externals, _, Some e) \<Rightarrow> Inl (Wrapf (at_ref ''read spec.externalClusters'' ref) e)
      | (externals, _, None) \<Rightarrow>
          if externals = [] then Inl (Errorf (here @ '': no spec.externalClusters to repoint''))
          else case externalClusterIndex externals
                      (fst (nestedString L u [''spec'', ''replica'', ''source''])) of
            Inl e \<Rightarrow> Inl (Wrapf here e)
          | Inr idx \<Rightarrow>
              (case externals ! idx of
                 JObj ext \<Rightarrow>
                   if fst (nestedBool L u replica_enabled_path) \<and> host_of ext = Some (JStr host)
                   then Inr None
                   else (case setNestedSlice L u (externals[idx := repoint host ext])
                                [''spec'', ''externalClusters''] of
                           Inl e \<Rightarrow> Inl (Wrapf (at_ref ''set spec.externalClusters'' ref) e)
                         | Inr u' \<Rightarrow>
                             (case setNestedField L u' (JBool True) replica_enabled_path of
                                Inl e \<Rightarrow> Inl (Wrapf (at_ref ''set spec.replica.enabled'' ref) e)
                              | Inr u'' \<Rightarrow> Inr (Some u'')))
               | _ \<Rightarrow> Inl (Errorf (here @ '': externalClusters['' @ show_int (int idx) @
                        ''] is not an object''))))"

subsection \<open>Laws the plans rest on\<close>

lemma forks [simp]:
  "path_fork [''spec'', ''externalClusters''] [''spec'', ''replica'', x]"
  "path_fork [''spec'', ''replica'', x] [''spec'', ''externalClusters'']"
  "path_fork [''spec'', ''replica'', ''enabled''] [''spec'', ''replica'', ''source'']"
  by (simp_all add: path_fork_def)

lemma unstructuredD:
  assumes "unstructured_laws L"
  shows "setNestedField L u (JBool b) p = Inr u' \<Longrightarrow> nestedBool L u' p = (b, True, None)"
    and "setNestedField L u v p = Inr u' \<Longrightarrow> path_fork p q \<Longrightarrow> same_reads L u' u q"
    and "setNestedSlice L u xs p = Inr u' \<Longrightarrow> nestedSlice L u' p = (xs, True, None)"
    and "setNestedSlice L u xs p = Inr u' \<Longrightarrow> path_fork p q \<Longrightarrow> same_reads L u' u q"
    and "setNestedField L u v (''spec'' # p) = Inr u' \<Longrightarrow> same_annotations L u' u"
    and "setNestedSlice L u xs (''spec'' # p) = Inr u' \<Longrightarrow> same_annotations L u' u"
    and "wf_object u \<Longrightarrow> a \<noteq> [] \<Longrightarrow> nil_lookup (getAnnotations L (setAnnotations L u a)) k = go_lookup a k"
    and "same_reads L (setAnnotations L u a) u (''spec'' # p)"
    and "p \<noteq> [] \<Longrightarrow> nestedBool L u p = (b, True, None) \<Longrightarrow> \<exists>u'. setNestedField L u v p = Inr u'"
  using assms by (simp_all add: unstructured_laws_def)

lemma find_external_bound: "find_external es src i = Some j \<Longrightarrow> i \<le> j \<and> j < i + length es"
  by (induction es src i rule: find_external.induct)
     (fastforce split: json.splits if_splits)+

lemma find_external_update:
  assumes "k < length es" and "es ! k = JObj m" and "str_field m' ''name'' = str_field m ''name''"
  shows "find_external (es[k := JObj m']) src i = find_external es src i"
  using assms
proof (induction es arbitrary: k i)
  case (Cons e es)
  show ?case
  proof (cases k)
    case 0
    with Cons.prems show ?thesis by simp
  next
    case (Suc j)
    with Cons.prems have "find_external (es[j := JObj m']) src (Suc i) = find_external es src (Suc i)"
      by (intro Cons.IH) simp_all
    with Suc show ?thesis by (simp split: json.splits)
  qed
qed simp

lemma externalClusterIndex_bound:
  "externalClusterIndex es src = Inr j \<Longrightarrow> j < length es"
  using find_external_bound [of es src 0 j]
  by (auto simp: externalClusterIndex_def split: if_splits option.splits)

lemma externalClusterIndex_update:
  assumes "k < length es" and "es ! k = JObj m" and "str_field m' ''name'' = str_field m ''name''"
  shows "externalClusterIndex (es[k := JObj m']) src = externalClusterIndex es src"
  by (simp add: externalClusterIndex_def find_external_update [OF assms])

lemma fence_settles:
  assumes "unstructured_laws L" and "wf_object u"
    and "fence_plan L ref u = Inr (Some u')" and "same_intent L v u'"
  shows "fence_plan L ref v = Inr None"
  using assms(3) same_intentD(1) [OF assms(4), of AnnotationFenced]
  by (auto simp: fence_plan_def unstructuredD(7) [OF assms(1,2)] split: if_splits)

lemma promote_settles:
  assumes "unstructured_laws L" and "promote_plan L ref u = Inr (Some u')" and "same_intent L v u'"
  shows "promote_plan L ref v = Inr None"
proof -
  from assms(2) have "setNestedField L u (JBool False) replica_enabled_path = Inr u'"
    by (auto simp: promote_plan_def split: prod.splits option.splits if_splits sum.splits)
  then have "nestedBool L u' replica_enabled_path = (False, True, None)"
    by (rule unstructuredD(1) [OF assms(1)])
  then show ?thesis
    using same_intentD(2) [OF assms(3)] by (simp add: promote_plan_def replica_enabled_path_def)
qed

lemma promote_plan_None:
  "promote_plan L ref u = Inr None \<Longrightarrow> in_primary_mode L u"
  by (auto simp: promote_plan_def in_primary_mode_def split: prod.splits option.splits if_splits sum.splits)

lemma flip_settles:
  assumes "flip_plan role E ref u = Inr (Some u')" and "same_service v u'"
  shows "flip_plan role E ref v = Inr None"
proof -
  have ne: "AnnotationCiliumGlobal \<noteq> AnnotationCiliumAffinity"
    by (simp add: AnnotationCiliumGlobal_def AnnotationCiliumAffinity_def)
  show ?thesis
    using assms ne
    by (auto simp: flip_plan_def same_service_def nil_lookup_def split: if_splits)
qed

lemma repoint_host [simp]:
  "\<exists>m. repoint host ext = JObj m \<and> host_of m = Some (JStr host) \<and>
       str_field m ''name'' = str_field ext ''name''"
  by (simp add: repoint_def host_of_def str_field_def)

text \<open>What a reconfiguration that has to write leaves behind.\<close>

lemma reconfigure_plan_Some:
  assumes "unstructured_laws L" and "reconfigure_plan host L ref u = Inr (Some u')"
  obtains externals b idx ext m where
    "nestedSlice L u [''spec'', ''externalClusters''] = (externals, b, None)"
    "externals \<noteq> []" "idx < length externals" "externals ! idx = JObj ext"
    "externalClusterIndex externals (fst (nestedString L u [''spec'', ''replica'', ''source''])) = Inr idx"
    "repoint host ext = JObj m"
    "nestedSlice L u' [''spec'', ''externalClusters''] = (externals[idx := JObj m], True, None)"
    "nestedString L u' [''spec'', ''replica'', ''source''] =
       nestedString L u [''spec'', ''replica'', ''source'']"
    "nestedBool L u' replica_enabled_path = (True, True, None)"
proof -
  obtain externals b err where sl: "nestedSlice L u [''spec'', ''externalClusters''] = (externals, b, err)"
    by (cases "nestedSlice L u [''spec'', ''externalClusters'']") auto
  from assms(2) sl have err: "err = None"
    by (cases err) (simp_all add: reconfigure_plan_def Let_def)
  from assms(2) sl err have ne: "externals \<noteq> []"
    by (auto simp: reconfigure_plan_def Let_def)
  let ?src = "fst (nestedString L u [''spec'', ''replica'', ''source''])"
  from assms(2) sl err ne obtain idx where idx: "externalClusterIndex externals ?src = Inr idx"
    by (auto simp: reconfigure_plan_def Let_def split: sum.splits)
  from assms(2) sl err ne idx obtain ext where ext: "externals ! idx = JObj ext"
    by (auto simp: reconfigure_plan_def Let_def split: json.splits)
  obtain m where m: "repoint host ext = JObj m" using repoint_host by blast
  from assms(2) sl err ne idx ext m obtain u1 where
    u1: "setNestedSlice L u (externals[idx := JObj m]) [''spec'', ''externalClusters''] = Inr u1" and
    u2: "setNestedField L u1 (JBool True) replica_enabled_path = Inr u'"
    by (auto simp: reconfigure_plan_def Let_def split: sum.splits if_splits)
  have r1: "same_reads L u1 u [''spec'', ''replica'', x]" for x
    by (rule unstructuredD(4) [OF assms(1) u1]) simp
  have r2: "same_reads L u' u1 [''spec'', ''externalClusters'']"
    and r3: "same_reads L u' u1 [''spec'', ''replica'', ''source'']"
    by (rule unstructuredD(2) [OF assms(1) u2]; simp add: replica_enabled_path_def)+
  show thesis
  proof (rule that)
    show "nestedSlice L u [''spec'', ''externalClusters''] = (externals, b, None)" using sl err by simp
    show "idx < length externals" using idx by (rule externalClusterIndex_bound)
    show "nestedSlice L u' [''spec'', ''externalClusters''] = (externals[idx := JObj m], True, None)"
      using r2 unstructuredD(3) [OF assms(1) u1] by (simp add: same_reads_def)
    show "nestedString L u' [''spec'', ''replica'', ''source''] =
        nestedString L u [''spec'', ''replica'', ''source'']"
      using r1 r3 by (simp add: same_reads_def)
    show "nestedBool L u' replica_enabled_path = (True, True, None)"
      by (rule unstructuredD(1) [OF assms(1) u2])
  qed (use ne ext idx m in auto)
qed

lemma reconfigure_settles:
  assumes "unstructured_laws L" and "reconfigure_plan host L ref u = Inr (Some u')"
    and "same_intent L v u'"
  shows "reconfigure_plan host L ref v = Inr None"
proof -
  from reconfigure_plan_Some [OF assms(1,2)] obtain externals idx ext m b where
    *: "externals \<noteq> []" "idx < length externals" "externals ! idx = JObj ext"
    "externalClusterIndex externals (fst (nestedString L u [''spec'', ''replica'', ''source''])) = Inr idx"
    "repoint host ext = JObj m"
    "nestedSlice L u' [''spec'', ''externalClusters''] = (externals[idx := JObj m], True, None)"
    "nestedString L u' [''spec'', ''replica'', ''source''] =
       nestedString L u [''spec'', ''replica'', ''source'']"
    "nestedBool L u' replica_enabled_path = (True, True, None)" by metis
  have m: "host_of m = Some (JStr host)" "str_field m ''name'' = str_field ext ''name''"
    using repoint_host [of host ext] *(5) by auto
  have "externalClusterIndex (externals[idx := JObj m])
      (fst (nestedString L v [''spec'', ''replica'', ''source''])) = Inr idx"
    using * m same_intentD(3) [OF assms(3)] by (simp add: externalClusterIndex_update)
  then show ?thesis
    using * m same_intentD(2,4) [OF assms(3)]
    by (simp add: reconfigure_plan_def Let_def replica_enabled_path_def)
qed

lemma reconfigure_plan_None:
  assumes "reconfigure_plan host L ref u = Inr None"
  obtains externals idx ext where
    "fst (nestedSlice L u [''spec'', ''externalClusters'']) = externals"
    "externalClusterIndex externals (fst (nestedString L u [''spec'', ''replica'', ''source''])) = Inr idx"
    "externals ! idx = JObj ext" "externals = externals[idx := JObj ext]"
    "host_of ext = Some (JStr host)" "fst (nestedBool L u replica_enabled_path)"
proof -
  obtain externals b err where sl: "nestedSlice L u [''spec'', ''externalClusters''] = (externals, b, err)"
    by (cases "nestedSlice L u [''spec'', ''externalClusters'']") auto
  with assms obtain idx ext where
    "externalClusterIndex externals (fst (nestedString L u [''spec'', ''replica'', ''source''])) = Inr idx"
    "externals ! idx = JObj ext" "host_of ext = Some (JStr host)" "fst (nestedBool L u replica_enabled_path)"
    by (auto simp: reconfigure_plan_def Let_def split: option.splits sum.splits json.splits if_splits)
  moreover from this have "externals = externals[idx := JObj ext]" by (metis list_update_id)
  ultimately show thesis using sl that [of externals idx ext] by simp
qed

lemma reconfigure_plan_annotations:
  assumes "unstructured_laws L" and "reconfigure_plan host L ref u = Inr (Some u')"
  shows "same_annotations L u' u"
proof -
  obtain externals b err where sl: "nestedSlice L u [''spec'', ''externalClusters''] = (externals, b, err)"
    by (cases "nestedSlice L u [''spec'', ''externalClusters'']") auto
  with assms(2) obtain xs u1 where
    "setNestedSlice L u xs [''spec'', ''externalClusters''] = Inr u1"
    "setNestedField L u1 (JBool True) [''spec'', ''replica'', ''enabled''] = Inr u'"
    by (auto simp: reconfigure_plan_def Let_def replica_enabled_path_def
        split: option.splits sum.splits json.splits if_splits)
  from unstructuredD(6) [OF assms(1) this(1)] unstructuredD(5) [OF assms(1) this(2)]
  show ?thesis by (simp add: same_annotations_def)
qed

text \<open>The entry at an index is an object of that name.\<close>

definition is_named :: "json list \<Rightarrow> string \<Rightarrow> nat \<Rightarrow> bool" where
  "is_named es src i = (case es ! i of JObj m \<Rightarrow> str_field m ''name'' = src | _ \<Rightarrow> False)"

lemma is_named_simps [simp]:
  "is_named (e # es) src (Suc k) = is_named es src k"
  "is_named (e # es) src 0 = (case e of JObj m \<Rightarrow> str_field m ''name'' = src | _ \<Rightarrow> False)"
  by (simp_all add: is_named_def)

lemma find_external_offset:
  "find_external es src i = Some (i + j) \<longleftrightarrow>
   j < length es \<and> is_named es src j \<and> (\<forall>k < j. \<not> is_named es src k)"
proof (induction es arbitrary: i j)
  case (Cons e es)
  show ?case
  proof (cases "is_named (e # es) src 0")
    case True
    then have "find_external (e # es) src i = Some i" by (simp split: json.splits)
    with True show ?thesis by (cases j) (auto simp del: find_external.simps is_named_simps(2))
  next
    case False
    then have f: "find_external (e # es) src i = find_external es src (Suc i)" by (simp split: json.splits)
    show ?thesis
    proof (cases j)
      case 0
      with f False find_external_bound [of es src "Suc i" i] show ?thesis
        by (auto simp del: find_external.simps)
    next
      case (Suc l)
      with f False Cons.IH [of "Suc i" l] show ?thesis
        by (auto simp: less_Suc_eq_0_disj simp del: find_external.simps is_named_simps(2))
    qed
  qed
qed simp

lemmas find_external_spec = find_external_offset [of _ _ 0, simplified]

section \<open>Interpretations\<close>

interpretation fence_step: settling_step Fence get_cluster update_cluster ref_key fence_plan
  "at_ref ''get cnpg cluster''" "at_ref ''fence cnpg cluster''" same_intent wf_object True
proof (unfold_locales, goal_cases)
  case (2 E cli ref s)
  show ?case
    by (auto simp: Fence_def fence_plan_def Let_def split: prod.splits sum.splits option.splits)
qed (auto intro: fence_settles)

interpretation promote_step: settling_step Promote get_cluster update_cluster ref_key promote_plan
  "at_ref ''get cnpg cluster''" "at_ref ''promote cnpg cluster''" same_intent wf_object True
proof (unfold_locales, goal_cases)
  case (2 E cli ref s)
  show ?case
    by (auto simp: Promote_def promote_plan_def replica_enabled_path_def Let_def
        split: prod.splits sum.splits option.splits)
qed (auto intro: promote_settles)

interpretation flip_step: settling_step "\<lambda>E cli ref. FlipCiliumService E cli ref role"
  get_service update_service "\<lambda>ref. nn (ref_Namespace ref) (ref_Name ref @ ''-rw'')" "flip_plan role"
  "\<lambda>ref. ''get service '' @ ref_Namespace ref @ ''/'' @ ref_Name ref @ ''-rw''"
  "\<lambda>ref. ''update service '' @ ref_Namespace ref @ ''/'' @ ref_Name ref @ ''-rw''"
  "\<lambda>E. same_service" "\<lambda>_. True" True for role
proof (unfold_locales, goal_cases)
  case (2 E cli ref s)
  show ?case
    by (auto simp: FlipCiliumService_def flip_plan_def Let_def
        split: prod.splits sum.splits option.splits)
qed (auto intro: flip_settles)

interpretation reconfigure_step: settling_step "\<lambda>E cli ref. Reconfigure E cli ref host"
  get_cluster update_cluster ref_key "reconfigure_plan host"
  "at_ref ''get cnpg cluster''" "at_ref ''reconfigure cnpg cluster''" same_intent wf_object "host \<noteq> []"
  for host
proof (unfold_locales, goal_cases)
  case (1 E cli ref s)
  then show ?case by (simp add: Reconfigure_def Let_def)
next
  case (2 E cli ref s)
  obtain r w where g: "get_cluster E cli (ref_key ref) (world s) = (r, w)" by fastforce
  show ?case
  proof (cases r)
    case (Inl e)
    with 2 g show ?thesis by (simp add: Reconfigure_def Let_def)
  next
    case (Inr u)
    have h: "(map_of (case map_of ext ''connectionParameters'' of Some (JObj c) \<Rightarrow> c | _ \<Rightarrow> []) ''host''
        = Some (JStr host)) = (host_of ext = Some (JStr host))" for ext
      by (simp add: host_of_def split: option.splits json.splits)
    obtain externals b err where sl: "nestedSlice E u [''spec'', ''externalClusters''] = (externals, b, err)"
      by (cases "nestedSlice E u [''spec'', ''externalClusters'']") auto
    show ?thesis
      using 2 g Inr sl
      by (auto simp: Reconfigure_def reconfigure_plan_def repoint_def h Let_def replica_enabled_path_def
          split: option.splits sum.splits prod.splits json.splits)
  qed
qed (auto intro: reconfigure_settles)

lemma store_faithful:
  assumes "store_laws E srv"
  shows "fence_step.faithful_store E" and "flip_step.faithful_store E"
  using assms by (simp_all add: store_laws_def fence_step.faithful_store_def flip_step.faithful_store_def)

section \<open>Properties\<close>

definition demo_ref :: Ref where
  "demo_ref = \<lparr>ref_Namespace = ''db'', ref_Name = ''pg''\<rparr>"

definition demo_mem :: "rworld mem" where
  "demo_mem = \<lparr>world = demo_world 1\<rparr>"

text \<open>C20. \<open>Fence\<close>: when it reports success, the Cluster carries the annotation that fences every
  instance, every other annotation and everything below \<open>spec\<close> is as before, and running it
  again changes nothing. (Kubernetes store without concurrent writers.)\<close>

theorem Fence_correct:
  assumes "store_laws E srv" and "unstructured_laws E"
    and "run_state (Fence E cli ref) s = (Ok (), t)"
  shows "(\<exists>u v. fst (get_cluster E cli (ref_key ref) (world s)) = Inr u \<and>
      fst (get_cluster E cli (ref_key ref) (world t)) = Inr v \<and>
      nil_lookup (getAnnotations E v) AnnotationFenced = FencedAllInstances \<and>
      (\<forall>k. k \<noteq> AnnotationFenced \<longrightarrow> nil_lookup (getAnnotations E v) k = nil_lookup (getAnnotations E u) k) \<and>
      (\<forall>p. same_reads E v u (''spec'' # p))) \<and>
    run_state (Fence E cli ref) t = (Ok (), t)"
proof -
  note st = store_faithful(1) [OF assms(1)]
  from fence_step.success_agrees [OF st assms(3)] obtain u v where uv:
    "fst (get_cluster E cli (ref_key ref) (world s)) = Inr u" "wf_object u"
    "fst (get_cluster E cli (ref_key ref) (world t)) = Inr v"
    "(fence_plan E ref u = Inr None \<and> v = u) \<or> (\<exists>u'. fence_plan E ref u = Inr (Some u') \<and> same_intent E v u')"
    by metis
  have "nil_lookup (getAnnotations E v) AnnotationFenced = FencedAllInstances \<and>
      (\<forall>k. k \<noteq> AnnotationFenced \<longrightarrow> nil_lookup (getAnnotations E v) k = nil_lookup (getAnnotations E u) k) \<and>
      (\<forall>p. same_reads E v u (''spec'' # p))"
    using uv(4)
  proof
    assume "fence_plan E ref u = Inr None \<and> v = u"
    then show ?thesis by (auto simp: fence_plan_def split: if_splits)
  next
    assume "\<exists>u'. fence_plan E ref u = Inr (Some u') \<and> same_intent E v u'"
    then obtain u' where u': "fence_plan E ref u = Inr (Some u')" "same_intent E v u'" by blast
    let ?a = "AList.update AnnotationFenced FencedAllInstances
      (case getAnnotations E u of None \<Rightarrow> [] | Some a \<Rightarrow> a)"
    from u'(1) have e: "u' = setAnnotations E u ?a" by (auto simp: fence_plan_def split: if_splits)
    have k: "nil_lookup (getAnnotations E v) k = go_lookup ?a k" for k
      using same_intentD(1) [OF u'(2), of k] unstructuredD(7) [OF assms(2) uv(2), of ?a k] e by simp
    have "same_reads E v u (''spec'' # p)" for p
      using same_intentD(2-4) [OF u'(2), of p] unstructuredD(8) [OF assms(2), of u ?a p] e
      by (simp add: same_reads_def)
    with k show ?thesis by (auto simp: nil_lookup_def go_lookup_def split: option.splits)
  qed
  with uv fence_step.idempotent [OF st assms(2,3)] show ?thesis by blast
qed

lemma demo_fence_runs: "fst (run_state (Fence ref_env 0 demo_ref) demo_mem) = Ok ()"
  by code_simp

theorem Fence_correct_witness:
  "\<exists>v. fst (get_cluster ref_env 0 (ref_key demo_ref) (world (snd (run_state (Fence ref_env 0 demo_ref) demo_mem)))) = Inr v \<and>
     nil_lookup (getAnnotations ref_env v) AnnotationFenced = FencedAllInstances"
  using Fence_correct [OF store_laws_ref unstructured_laws_ref, of 0 demo_ref demo_mem] demo_fence_runs
  by (metis prod.collapse)


lemma demo_promote_runs: "fst (run_state (Promote ref_env 1 demo_ref) demo_mem) = Ok ()"
  by code_simp


text \<open>C22. \<open>Reconfigure\<close>: when it reports success, the Cluster is in replica mode, the external
  cluster that \<open>spec.replica.source\<close> selects has the wanted host and its old name, every other
  external cluster is untouched, no annotation has changed, and running it again changes
  nothing.\<close>

theorem Reconfigure_correct:
  assumes "store_laws E srv" and "unstructured_laws E"
    and "run_state (Reconfigure E cli ref host) s = (Ok (), t)"
  shows "(\<exists>u v externals idx ext m.
      fst (get_cluster E cli (ref_key ref) (world s)) = Inr u \<and>
      fst (get_cluster E cli (ref_key ref) (world t)) = Inr v \<and>
      fst (nestedSlice E u [''spec'', ''externalClusters'']) = externals \<and>
      externalClusterIndex externals (fst (nestedString E u [''spec'', ''replica'', ''source''])) = Inr idx \<and>
      externals ! idx = JObj ext \<and>
      fst (nestedSlice E v [''spec'', ''externalClusters'']) = externals[idx := JObj m] \<and>
      host_of m = Some (JStr host) \<and> str_field m ''name'' = str_field ext ''name'' \<and>
      fst (nestedBool E v replica_enabled_path) \<and> same_annotations E v u) \<and>
    run_state (Reconfigure E cli ref host) t = (Ok (), t)"
proof -
  note st = store_faithful(1) [OF assms(1)]
  from reconfigure_step.success_agrees [OF st assms(3)] obtain u v where uv:
    "fst (get_cluster E cli (ref_key ref) (world s)) = Inr u"
    "fst (get_cluster E cli (ref_key ref) (world t)) = Inr v"
    "(reconfigure_plan host E ref u = Inr None \<and> v = u) \<or>
     (\<exists>u'. reconfigure_plan host E ref u = Inr (Some u') \<and> same_intent E v u')"
    by metis
  have "\<exists>externals idx ext m. fst (nestedSlice E u [''spec'', ''externalClusters'']) = externals \<and>
      externalClusterIndex externals (fst (nestedString E u [''spec'', ''replica'', ''source''])) = Inr idx \<and>
      externals ! idx = JObj ext \<and>
      fst (nestedSlice E v [''spec'', ''externalClusters'']) = externals[idx := JObj m] \<and>
      host_of m = Some (JStr host) \<and> str_field m ''name'' = str_field ext ''name'' \<and>
      fst (nestedBool E v replica_enabled_path) \<and> same_annotations E v u"
    using uv(3)
  proof
    assume "reconfigure_plan host E ref u = Inr None \<and> v = u"
    then have p: "reconfigure_plan host E ref u = Inr None" and v: "v = u" by auto
    show ?thesis
      by (rule reconfigure_plan_None [OF p]) (use v in \<open>metis same_annotations_def\<close>)
  next
    assume "\<exists>u'. reconfigure_plan host E ref u = Inr (Some u') \<and> same_intent E v u'"
    then obtain u' where u': "reconfigure_plan host E ref u = Inr (Some u')" "same_intent E v u'" by blast
    from reconfigure_plan_Some [OF assms(2) u'(1)] obtain externals idx ext m b where
      *: "nestedSlice E u [''spec'', ''externalClusters''] = (externals, b, None)" "externals ! idx = JObj ext"
      "externalClusterIndex externals (fst (nestedString E u [''spec'', ''replica'', ''source''])) = Inr idx"
      "repoint host ext = JObj m"
      "nestedSlice E u' [''spec'', ''externalClusters''] = (externals[idx := JObj m], True, None)"
      "nestedBool E u' replica_enabled_path = (True, True, None)" by metis
    have m: "host_of m = Some (JStr host)" "str_field m ''name'' = str_field ext ''name''"
      using repoint_host [of host ext] *(4) by auto
    have "same_annotations E v u"
      using reconfigure_plan_annotations [OF assms(2) u'(1)] u'(2)
      by (simp add: same_intent_def same_annotations_def)
    with * m same_intentD(2,4) [OF u'(2)] show ?thesis by (auto simp: replica_enabled_path_def)
  qed
  with uv reconfigure_step.idempotent [OF st assms(2,3)] show ?thesis by blast
qed

lemma demo_reconfigure_runs: "fst (run_state (Reconfigure ref_env 2 demo_ref ''b'') demo_mem) = Ok ()"
  by code_simp

theorem Reconfigure_correct_witness:
  "\<exists>v. fst (get_cluster ref_env 2 (ref_key demo_ref) (world (snd (run_state (Reconfigure ref_env 2 demo_ref ''b'') demo_mem)))) = Inr v \<and>
     fst (nestedBool ref_env v replica_enabled_path)"
  using Reconfigure_correct [OF store_laws_ref unstructured_laws_ref, of 2 demo_ref "''b''" demo_mem]
    demo_reconfigure_runs
  by (metis prod.collapse)

text \<open>C23. \<open>FlipCiliumService\<close>: when it reports success, the read-write Service is global and its
  affinity is the one of the role, every other annotation is as before, and running it again
  changes nothing.\<close>

theorem FlipCiliumService_correct:
  assumes "store_laws E srv" and "unstructured_laws E"
    and "run_state (FlipCiliumService E cli ref role) s = (Ok (), t)"
  shows "(\<exists>u v. fst (get_service E cli (nn (ref_Namespace ref) (ref_Name ref @ ''-rw'')) (world s)) = Inr u \<and>
      fst (get_service E cli (nn (ref_Namespace ref) (ref_Name ref @ ''-rw'')) (world t)) = Inr v \<and>
      nil_lookup (svc_annotations v) AnnotationCiliumGlobal = ''true'' \<and>
      nil_lookup (svc_annotations v) AnnotationCiliumAffinity = affinityValue role \<and>
      (\<forall>k. k \<notin> {AnnotationCiliumGlobal, AnnotationCiliumAffinity} \<longrightarrow>
         nil_lookup (svc_annotations v) k = nil_lookup (svc_annotations u) k)) \<and>
    run_state (FlipCiliumService E cli ref role) t = (Ok (), t)"
proof -
  note st = store_faithful(2) [OF assms(1)]
  have ne: "AnnotationCiliumGlobal \<noteq> AnnotationCiliumAffinity"
    by (simp add: AnnotationCiliumGlobal_def AnnotationCiliumAffinity_def)
  from flip_step.success_agrees [OF st assms(3)] obtain u v where uv:
    "fst (get_service E cli (nn (ref_Namespace ref) (ref_Name ref @ ''-rw'')) (world s)) = Inr u"
    "fst (get_service E cli (nn (ref_Namespace ref) (ref_Name ref @ ''-rw'')) (world t)) = Inr v"
    "(flip_plan role E ref u = Inr None \<and> v = u) \<or> (\<exists>u'. flip_plan role E ref u = Inr (Some u') \<and> same_service v u')"
    by metis
  then have "nil_lookup (svc_annotations v) AnnotationCiliumGlobal = ''true''"
    "nil_lookup (svc_annotations v) AnnotationCiliumAffinity = affinityValue role"
    "k \<notin> {AnnotationCiliumGlobal, AnnotationCiliumAffinity} \<Longrightarrow>
      nil_lookup (svc_annotations v) k = nil_lookup (svc_annotations u) k" for k
    using ne
    by (auto simp: flip_plan_def same_service_def nil_lookup_def go_lookup_def
        split: if_splits option.splits)
  with uv flip_step.idempotent [OF st assms(2,3)] show ?thesis by blast
qed

lemma demo_flip_runs: "fst (run_state (FlipCiliumService ref_env 1 demo_ref RoleLocal) demo_mem) = Ok ()"
  by code_simp

theorem FlipCiliumService_correct_witness:
  "\<exists>v. fst (get_service ref_env 1 (nn ''db'' ''pg-rw'')
        (world (snd (run_state (FlipCiliumService ref_env 1 demo_ref RoleLocal) demo_mem)))) = Inr v \<and>
     nil_lookup (svc_annotations v) AnnotationCiliumAffinity = ''local''"
proof -
  have "affinityValue RoleLocal = ''local''" by (simp add: affinityValue_def)
  moreover have "ref_Namespace demo_ref = ''db''" "ref_Name demo_ref @ ''-rw'' = ''pg-rw''"
    by (simp_all add: demo_ref_def)
  ultimately show ?thesis
    using FlipCiliumService_correct [OF store_laws_ref unstructured_laws_ref, of 1 demo_ref RoleLocal demo_mem]
      demo_flip_runs
    by (metis prod.collapse)
qed

text \<open>\<open>externalClusterIndex\<close> picks the external cluster a Cluster streams from and nothing
  else: with a source name, the first object of that name, and an error exactly when there is
  none; without one, index 0 of a one-element list, and an error (ambiguous) otherwise. The
  index is always inside the list.\<close>

lemma externalClusterIndex_spec:
  "externalClusterIndex es src = Inr j \<longleftrightarrow>
     (if src = [] then length es = 1 \<and> j = 0
      else j < length es \<and> is_named es src j \<and> (\<forall>i < j. \<not> is_named es src i))"
  using find_external_spec [of es src j]
  by (auto simp: externalClusterIndex_def split: option.splits)

end
