(* ===== verification/Remote_Client.thy ===== *)
theory Remote_Client
  imports Promotion
begin

text \<open>
  \<open>internal/remoteclient/remoteclient.go\<close>: the cache of clients for the remote sites, one
  per kubeconfig Secret key, rebuilt when the resource version of the Secret changes. The
  map \<open>clients\<close> of the source is a field of the process state; \<open>GetOrCreate\<close> reads the
  Secret on every call. The locale \<open>keyed_cache\<close> states when two cache keys cannot
  collide, and is interpreted on \<open>cacheKey\<close>.
\<close>

section \<open>Model\<close>

definition ErrSecretKeyEmpty :: goerror where
  "ErrSecretKeyEmpty = Errorf ''kubeconfig secret key is empty''"

record 'c cachedClient =
  cli :: 'c
  resourceVersion :: string

record ('w, 'c) cmem = "'w mem" +
  clients :: "string \<Rightarrow> 'c cachedClient option"

definition NewCache :: "string \<Rightarrow> 'c cachedClient option" where
  "NewCache = (\<lambda>_. None)"

definition cacheKey :: "string \<Rightarrow> SecretKeySelector \<Rightarrow> string" where
  "cacheKey namespace secretRef = namespace @ ''/'' @ sel_Name secretRef @ ''#'' @ sel_Key secretRef"

definition cache_read :: "string \<Rightarrow> (('w, 'c, 'x) cmem_scheme, 'c cachedClient option) state" where
  "cache_read key = State (\<lambda>s. (clients s key, s))"

definition cache_write ::
  "string \<Rightarrow> 'c cachedClient option \<Rightarrow> (('w, 'c, 'x) cmem_scheme, unit) state" where
  "cache_write key ent = State (\<lambda>s. ((), s\<lparr>clients := (clients s)(key := ent)\<rparr>))"

definition loadKubeconfig ::
  "('w, 'c) env \<Rightarrow> 'c \<Rightarrow> string \<Rightarrow> SecretKeySelector \<Rightarrow> ('w, 'x, goerror + (string \<times> string)) io" where
  "loadKubeconfig E hubClient namespace secretRef = do {
     r \<leftarrow> call (get_secret E hubClient (nn namespace (sel_Name secretRef)));
     case r of
       Inl e \<Rightarrow> State_Monad.return (Inl (Wrapf (''get kubeconfig secret '' @ namespace @ ''/'' @
                  sel_Name secretRef) e))
     | Inr secret \<Rightarrow>
         (case map_of (secret_Data secret) (sel_Key secretRef) of
            None \<Rightarrow> State_Monad.return (Inl (Wrapf (''secret '' @ namespace @ ''/'' @
              sel_Name secretRef @ '' key '' @ fmt_q (sel_Key secretRef)) ErrSecretKeyEmpty))
          | Some kubeconfigBytes \<Rightarrow>
              if kubeconfigBytes = []
              then State_Monad.return (Inl (Wrapf (''secret '' @ namespace @ ''/'' @
                sel_Name secretRef @ '' key '' @ fmt_q (sel_Key secretRef)) ErrSecretKeyEmpty))
              else State_Monad.return (Inr (kubeconfigBytes, secret_ResourceVersion secret)))
   }"

definition clientFromKubeconfig ::
  "('w, 'c) env \<Rightarrow> string \<Rightarrow> string \<Rightarrow> string \<Rightarrow> ('w, 'x, goerror + 'c) io" where
  "clientFromKubeconfig E kubeconfig namespace name =
     (case restConfigFromKubeConfig E kubeconfig of
        Inl e \<Rightarrow> State_Monad.return
          (Inl (Wrapf (''parse kubeconfig from secret '' @ namespace @ ''/'' @ name) e))
      | Inr restConfig \<Rightarrow> do {
          r \<leftarrow> call (new_client E restConfig);
          case r of
            Inl e \<Rightarrow> State_Monad.return
              (Inl (Wrapf (''build client from kubeconfig '' @ namespace @ ''/'' @ name) e))
          | Inr c \<Rightarrow> State_Monad.return (Inr c)
        })"

definition GetOrCreate ::
  "('w, 'c) env \<Rightarrow> 'c \<Rightarrow> string \<Rightarrow> SecretKeySelector \<Rightarrow>
   (('w, 'c, 'x) cmem_scheme, goerror + 'c) state" where
  "GetOrCreate E hubClient namespace secretRef =
     (let key = cacheKey namespace secretRef in do {
        r \<leftarrow> loadKubeconfig E hubClient namespace secretRef;
        case r of
          Inl err \<Rightarrow> do {
            ent \<leftarrow> cache_read key;
            case ent of
              Some en \<Rightarrow> State_Monad.return (Inr (cli en))
            | None \<Rightarrow> State_Monad.return (Inl err)
          }
        | Inr p \<Rightarrow> (case p of (kubeconfig, rv) \<Rightarrow> do {
            ent \<leftarrow> cache_read key;
            if (case ent of Some en \<Rightarrow> resourceVersion en = rv | None \<Rightarrow> False)
            then State_Monad.return (Inr (cli (the ent)))
            else do {
              b \<leftarrow> clientFromKubeconfig E kubeconfig namespace (sel_Name secretRef);
              case b of
                Inl err \<Rightarrow> State_Monad.return (Inl err)
              | Inr c \<Rightarrow> do {
                  _ \<leftarrow> cache_write key (Some \<lparr>cli = c, resourceVersion = rv\<rparr>);
                  State_Monad.return (Inr c)
                }
            }
          })
      })"

definition Invalidate ::
  "string \<Rightarrow> SecretKeySelector \<Rightarrow> (('w, 'c, 'x) cmem_scheme, unit) state" where
  "Invalidate namespace secretRef = cache_write (cacheKey namespace secretRef) None"

definition PutForTest ::
  "string \<Rightarrow> SecretKeySelector \<Rightarrow> 'c \<Rightarrow> (('w, 'c, 'x) cmem_scheme, unit) state" where
  "PutForTest namespace secretRef c =
     cache_write (cacheKey namespace secretRef) (Some \<lparr>cli = c, resourceVersion = []\<rparr>)"

section \<open>Keys\<close>

text \<open>
  A cache whose keys are strings computed from structured names. Entries of different
  names stay apart when the encoding is injective on the names in use.
\<close>

locale keyed_cache =
  fixes encode :: "'n \<Rightarrow> string"
    and admissible :: "'n \<Rightarrow> bool"
  assumes encode_inj: "admissible a \<Longrightarrow> admissible b \<Longrightarrow> encode a = encode b \<Longrightarrow> a = b"
begin

lemma write_isolated:
  assumes "admissible a" and "admissible b" and "a \<noteq> b"
  shows "(m(encode a := v)) (encode b) = m (encode b)"
  using encode_inj [OF assms(1,2)] assms(3) by auto

lemma writes_isolated:
  assumes "admissible b" and "list_all (\<lambda>(a, v). admissible a \<and> a \<noteq> b) ws"
  shows "fold (\<lambda>(a, v) m. m(encode a := v)) ws m (encode b) = m (encode b)"
  using assms
proof (induction ws arbitrary: m)
  case (Cons p ws)
  obtain a v where "p = (a, v)" by fastforce
  with Cons write_isolated [of a b m v] show ?case by simp
qed simp

end

text \<open>Kubernetes names hold neither of the separators \<open>/\<close> and \<open>#\<close>.\<close>

definition plain_names :: "string \<times> SecretKeySelector \<Rightarrow> bool" where
  "plain_names p = (CHR ''/'' \<notin> set (fst p) \<and> CHR ''#'' \<notin> set (sel_Name (snd p)))"

interpretation secret_keys: keyed_cache "\<lambda>(ns, sel). cacheKey ns sel" plain_names
proof (unfold_locales, clarify)
  fix ns1 ns2 :: string and sel1 sel2 :: SecretKeySelector
  assume *: "plain_names (ns1, sel1)" "plain_names (ns2, sel2)" "cacheKey ns1 sel1 = cacheKey ns2 sel2"
  then have "ns1 = ns2 \<and> sel_Name sel1 @ CHR ''#'' # sel_Key sel1 = sel_Name sel2 @ CHR ''#'' # sel_Key sel2"
    by (intro append_separator_inj) (auto simp: plain_names_def cacheKey_def)
  moreover from this have "sel_Name sel1 = sel_Name sel2 \<and> sel_Key sel1 = sel_Key sel2"
    using * by (intro append_separator_inj) (auto simp: plain_names_def)
  ultimately show "ns1 = ns2 \<and> sel1 = sel2" by simp
qed

section \<open>Behaviour\<close>

lemma run_cache_read [simp]: "run_state (cache_read key) s = (clients s key, s)"
  by (simp add: cache_read_def)

lemma run_cache_write [simp]:
  "run_state (cache_write key ent) s = ((), s\<lparr>clients := (clients s)(key := ent)\<rparr>)"
  by (simp add: cache_write_def)

lemma wp_cache_read [wp_simps]: "wp (cache_read key) Q s = Q (clients s key) s"
  by (simp add: wp_def)

lemma wp_cache_write [wp_simps]:
  "wp (cache_write key ent) Q s = Q () (s\<lparr>clients := (clients s)(key := ent)\<rparr>)"
  by (simp add: wp_def)

text \<open>What the Secret says: the usable kubeconfig and its version, or why there is none.\<close>

definition usable_secret :: "SecretKeySelector \<Rightarrow> Secret \<Rightarrow> (string \<times> string) option" where
  "usable_secret sel x = (case map_of (secret_Data x) (sel_Key sel) of
     None \<Rightarrow> None
   | Some kc \<Rightarrow> if kc = [] then None else Some (kc, secret_ResourceVersion x))"

lemma run_loadKubeconfig:
  assumes "get_secret E hub (nn ns (sel_Name sel)) (world s) = (r, w)"
  shows "run_state (loadKubeconfig E hub ns sel) s =
    (case r of
       Inl e \<Rightarrow> Inl (Wrapf (''get kubeconfig secret '' @ ns @ ''/'' @ sel_Name sel) e)
     | Inr x \<Rightarrow> (case usable_secret sel x of
         Some p \<Rightarrow> Inr p
       | None \<Rightarrow> Inl (Wrapf (''secret '' @ ns @ ''/'' @ sel_Name sel @ '' key '' @
             fmt_q (sel_Key sel)) ErrSecretKeyEmpty)), s\<lparr>world := w\<rparr>)"
  using assms
  by (auto simp: loadKubeconfig_def usable_secret_def split: sum.splits option.splits)

lemma GetOrCreate_unreadable:
  assumes "run_state (loadKubeconfig E hub ns sel) s = (Inl e, t)"
  shows "run_state (GetOrCreate E hub ns sel) s =
    (case clients t (cacheKey ns sel) of None \<Rightarrow> Inl e | Some en \<Rightarrow> Inr (cli en), t)"
  using assms by (simp add: GetOrCreate_def Let_def split: option.splits)

lemma GetOrCreate_hit:
  assumes "run_state (loadKubeconfig E hub ns sel) s = (Inr (kc, rv), t)"
    and "clients t (cacheKey ns sel) = Some en" and "resourceVersion en = rv"
  shows "run_state (GetOrCreate E hub ns sel) s = (Inr (cli en), t)"
  using assms by (simp add: GetOrCreate_def Let_def)

lemma GetOrCreate_miss:
  assumes "run_state (loadKubeconfig E hub ns sel) s = (Inr (kc, rv), t)"
    and "\<forall>en. clients t (cacheKey ns sel) = Some en \<longrightarrow> resourceVersion en \<noteq> rv"
  shows "run_state (GetOrCreate E hub ns sel) s =
    (case run_state (clientFromKubeconfig E kc ns (sel_Name sel)) t of
       (Inl e, u) \<Rightarrow> (Inl e, u)
     | (Inr c, u) \<Rightarrow> (Inr c, u\<lparr>clients := (clients u)(cacheKey ns sel \<mapsto> \<lparr>cli = c, resourceVersion = rv\<rparr>)\<rparr>))"
  using assms
  by (auto simp: GetOrCreate_def Let_def split: option.splits prod.splits sum.splits)

lemma clients_loadKubeconfig:
  assumes "run_state (loadKubeconfig E hub ns sel) (s :: ('w, 'c, 'x) cmem_scheme) = (r, t)"
  shows "clients t = clients s" and "cmem.more t = cmem.more s"
proof -
  obtain q w where "get_secret E hub (nn ns (sel_Name sel)) (world s) = (q, w)" by fastforce
  from run_loadKubeconfig [OF this] assms show "clients t = clients s" and "cmem.more t = cmem.more s"
    by auto
qed

lemma clients_clientFromKubeconfig:
  assumes "run_state (clientFromKubeconfig E kc ns n) (s :: ('w, 'c, 'x) cmem_scheme) = (r, t)"
  shows "clients t = clients s" and "cmem.more t = cmem.more s"
  using assms by (auto simp: clientFromKubeconfig_def split: sum.splits prod.splits)

text \<open>
  \<open>GetOrCreate\<close> touches at most its own entry, and what it returns on a readable Secret is
  the entry of that version.
\<close>

lemma GetOrCreate_frame:
  assumes "run_state (GetOrCreate E hub ns sel) (s :: ('w, 'c, 'x) cmem_scheme) = (r, t)"
  shows "cmem.more t = cmem.more s" and "k \<noteq> cacheKey ns sel \<Longrightarrow> clients t k = clients s k"
proof -
  obtain q u where l: "run_state (loadKubeconfig E hub ns sel) s = (q, u)" by fastforce
  note fr = clients_loadKubeconfig [OF l]
  have "cmem.more t = cmem.more s \<and> (k \<noteq> cacheKey ns sel \<longrightarrow> clients t k = clients s k)"
  proof (cases q)
    case (Inl e)
    with GetOrCreate_unreadable [of E hub ns sel s e u] l assms fr show ?thesis
      by (auto split: option.splits)
  next
    case (Inr p)
    obtain kc rv where p: "p = (kc, rv)" by fastforce
    show ?thesis
    proof (cases "\<exists>en. clients u (cacheKey ns sel) = Some en \<and> resourceVersion en = rv")
      case True
      with GetOrCreate_hit [of E hub ns sel s kc rv u] l Inr p assms fr show ?thesis by auto
    next
      case False
      obtain b v where b: "run_state (clientFromKubeconfig E kc ns (sel_Name sel)) u = (b, v)" by fastforce
      from clients_clientFromKubeconfig [OF b] GetOrCreate_miss [of E hub ns sel s kc rv u] False l Inr p
        assms fr b show ?thesis
        by (auto split: sum.splits)
    qed
  qed
  then show "cmem.more t = cmem.more s" and "k \<noteq> cacheKey ns sel \<Longrightarrow> clients t k = clients s k"
    by auto
qed

lemma GetOrCreate_entry:
  assumes "run_state (GetOrCreate E hub ns sel) s = (Inr c, t)"
  shows "\<exists>en. clients t (cacheKey ns sel) = Some en \<and> cli en = c"
proof -
  obtain q u where l: "run_state (loadKubeconfig E hub ns sel) s = (q, u)" by fastforce
  show ?thesis
  proof (cases q)
    case (Inl e)
    with GetOrCreate_unreadable [of E hub ns sel s e u] l assms show ?thesis
      by (auto split: option.splits)
  next
    case (Inr p)
    obtain kc rv where p: "p = (kc, rv)" by fastforce
    show ?thesis
    proof (cases "\<exists>en. clients u (cacheKey ns sel) = Some en \<and> resourceVersion en = rv")
      case True
      with GetOrCreate_hit [of E hub ns sel s kc rv u] l Inr p assms show ?thesis by auto
    next
      case False
      with GetOrCreate_miss [of E hub ns sel s kc rv u] l Inr p assms show ?thesis
        by (auto split: prod.splits sum.splits)
    qed
  qed
qed

section \<open>Properties\<close>


definition kube_sel :: SecretKeySelector where
  "kube_sel = \<lparr>sel_Name = ''site-b'', sel_Key = ''kubeconfig''\<rparr>"

definition kube_secret :: Secret where
  "kube_secret = \<lparr>secret_Data = [(''kubeconfig'', ''x'')], secret_ResourceVersion = ''7''\<rparr>"

definition kube_mem :: "(rworld, nat) cmem" where
  "kube_mem = \<lparr>world = rw_empty\<lparr>rw_secrets := (\<lambda>_. None)((0, nn ''ha'' ''site-b'') := Some kube_secret)\<rparr>,
     clients = NewCache\<rparr>"

lemma kube_mem_secret:
  "get_secret ref_env 0 (nn ''ha'' (sel_Name kube_sel)) (world kube_mem) = (Inr kube_secret, world kube_mem)"
  by (simp add: ref_env_def kube_mem_def kube_sel_def)

lemma kube_usable: "usable_secret kube_sel kube_secret = Some (''x'', ''7'')"
  by (simp add: usable_secret_def kube_sel_def kube_secret_def)

lemma kube_mem_run:
  "fst (run_state (GetOrCreate ref_env 0 ''ha'' kube_sel) kube_mem) = Inr 1"
  using run_loadKubeconfig [OF kube_mem_secret] kube_usable
  by (simp add: GetOrCreate_def Let_def kube_mem_def NewCache_def clientFromKubeconfig_def ref_env_def)


text \<open>C33. A hub that cannot serve the Secret (or serves it without a kubeconfig) never costs a
  client that is already cached: \<open>GetOrCreate\<close> returns the cached client and leaves the cache
  as it is; with nothing cached it returns the reason, and still leaves the cache alone.\<close>

theorem GetOrCreate_degrades:
  assumes "get_secret E hub (nn ns (sel_Name sel)) (world s) = (r, w)"
    and "\<forall>x. r = Inr x \<longrightarrow> usable_secret sel x = None"
  shows "run_state (GetOrCreate E hub ns sel) s =
    ((case clients s (cacheKey ns sel) of
        Some en \<Rightarrow> Inr (cli en)
      | None \<Rightarrow> Inl (case r of
          Inl e \<Rightarrow> Wrapf (''get kubeconfig secret '' @ ns @ ''/'' @ sel_Name sel) e
        | Inr x \<Rightarrow> Wrapf (''secret '' @ ns @ ''/'' @ sel_Name sel @ '' key '' @ fmt_q (sel_Key sel))
            ErrSecretKeyEmpty)), s\<lparr>world := w\<rparr>)"
  using run_loadKubeconfig [OF assms(1)] assms(2)
  by (cases r) (auto simp: GetOrCreate_unreadable split: option.splits)

theorem GetOrCreate_degrades_witness:
  "fst (run_state (GetOrCreate ref_env 0 ''ha'' kube_sel)
     (\<lparr>world = rw_empty, clients = (\<lambda>_. Some \<lparr>cli = 5, resourceVersion = ''6''\<rparr>)\<rparr> :: (rworld, nat) cmem)) = Inr 5"
proof -
  have "get_secret ref_env 0 (nn ''ha'' (sel_Name kube_sel))
      (world (\<lparr>world = rw_empty, clients = (\<lambda>_. Some \<lparr>cli = 5, resourceVersion = ''6''\<rparr>)\<rparr> :: (rworld, nat) cmem))
      = (Inl missing, rw_empty)"
    by (simp add: ref_env_def rw_empty_def)
  from GetOrCreate_degrades [OF this] show ?thesis by simp
qed

text \<open>C34. Entries of different sites never mix: for namespaces without \<open>/\<close> and Secret names
  without \<open>#\<close> (no Kubernetes name has either), a call of \<open>GetOrCreate\<close>,
  \<open>Invalidate\<close> or \<open>PutForTest\<close> leaves the entry of every other selector as it is, from every
  state and in every environment.\<close>

theorem cache_entries_isolated:
  assumes "plain_names (ns, sel)" and "plain_names (ns', sel')" and "(ns, sel) \<noteq> (ns', sel')"
  shows "clients (snd (run_state (GetOrCreate E hub ns sel) s)) (cacheKey ns' sel') =
      clients s (cacheKey ns' sel') \<and>
    clients (snd (run_state (Invalidate ns sel) s)) (cacheKey ns' sel') = clients s (cacheKey ns' sel') \<and>
    clients (snd (run_state (PutForTest ns sel c) s)) (cacheKey ns' sel') = clients s (cacheKey ns' sel')"
proof -
  have ne: "cacheKey ns' sel' \<noteq> cacheKey ns sel"
    using secret_keys.encode_inj [OF assms(1,2)] assms(3) by auto
  then show ?thesis
    using GetOrCreate_frame(2) [of E hub ns sel s _ _ "cacheKey ns' sel'"]
    by (simp add: Invalidate_def PutForTest_def) (metis prod.collapse)
qed

theorem cache_entries_isolated_witness:
  "clients (snd (run_state (GetOrCreate ref_env 0 ''ha'' kube_sel) kube_mem)) (cacheKey ''ha'' (kube_sel\<lparr>sel_Name := ''site-c''\<rparr>)) = None"
  using cache_entries_isolated [of "''ha''" kube_sel "''ha''" "kube_sel\<lparr>sel_Name := ''site-c''\<rparr>" ref_env 0 kube_mem 0]
  by (simp add: plain_names_def kube_sel_def kube_mem_def NewCache_def)

end
