(* ===== verification/Controller_Observe.thy ===== *)
theory Controller_Observe
  imports Controller_Decide Remote_Client
begin

text \<open>
  The observation half of \<open>internal/controller/hacluster_controller.go\<close>: the reconciler and
  its process state, how a site name is resolved to a client, and how the sites are
  observed (health probe, then the optional SQL probe). An observation is always a value:
  every failure becomes text in \<open>o_reason\<close>.
\<close>

section \<open>The reconciler\<close>

text \<open>
  \<open>r_Recorder\<close> says whether an event recorder is set, \<open>r_PostgresProber\<close> the injected
  prober. \<open>failCount\<close> is nil until the first increment; \<open>RemoteClients\<close> is the field
  \<open>clients\<close> of the state.
\<close>

record ('w, 'c) HAClusterReconciler =
  r_Client :: 'c
  r_Recorder :: bool
  r_PostgresProber :: "'w prober option"

record ('w, 'c) rmem = "('w, 'c) cmem" +
  failCount :: "(NamespacedName \<Rightarrow> i64 option) option"

type_synonym ('w, 'c, 'x, 'a) rio = "(('w, 'c, 'x) rmem_scheme, 'a) state"

definition event_of ::
  "('w, 'c) env \<Rightarrow> ('w, 'c) HAClusterReconciler \<Rightarrow> HACluster \<Rightarrow> string \<Rightarrow> string \<Rightarrow> string \<Rightarrow> ('w, 'x, unit) io" where
  "event_of E r ha eventType reason message =
     (if \<not> r_Recorder r then State_Monad.return ()
      else notify (emit_event E (ha_key ha) eventType reason message))"

section \<open>Resolving a site\<close>

definition cluster_ref :: "ClusterRef \<Rightarrow> Ref" where
  "cluster_ref c = \<lparr>ref_Namespace = cr_Namespace c, ref_Name = cr_Name c\<rparr>"

definition siteClientAndRef ::
  "('w, 'c) env \<Rightarrow> ('w, 'c) HAClusterReconciler \<Rightarrow> HACluster \<Rightarrow> string \<Rightarrow>
   (('w, 'c, 'x) cmem_scheme, ('c \<times> Ref) option) state" where
  "siteClientAndRef E r ha siteName =
     (if siteName = ps_Name (spec_primary ha)
      then State_Monad.return (Some (r_Client r, cluster_ref (ps_ClusterRef (spec_primary ha))))
      else case find (\<lambda>rep. rs_Name rep = siteName) (spec_replicas ha) of
        None \<Rightarrow> State_Monad.return None
      | Some rep \<Rightarrow> do {
          x \<leftarrow> GetOrCreate E (r_Client r) (ha_Namespace ha) (rs_KubeconfigSecretRef rep);
          case x of
            Inl e \<Rightarrow> State_Monad.return None
          | Inr c \<Rightarrow> State_Monad.return (Some (c, cluster_ref (rs_ClusterRef rep)))
        })"

section \<open>The SQL probe\<close>

definition secretValue ::
  "('w, 'c) env \<Rightarrow> 'c \<Rightarrow> string \<Rightarrow> SecretKeySelector \<Rightarrow> ('w, 'x, goerror + string) io" where
  "secretValue E c namespace sel =
     (if sel_Name sel = [] \<or> sel_Key sel = []
      then State_Monad.return (Inl (Errorf ''secret name and key are required''))
      else do {
        r \<leftarrow> call (get_secret E c (nn namespace (sel_Name sel)));
        case r of
          Inl e \<Rightarrow> State_Monad.return (Inl (Wrapf (''get secret '' @ namespace @ ''/'' @ sel_Name sel) e))
        | Inr secret \<Rightarrow>
            (case map_of (secret_Data secret) (sel_Key sel) of
               None \<Rightarrow> State_Monad.return (Inl (Errorf (''secret '' @ namespace @ ''/'' @ sel_Name sel @
                        '' has no key '' @ fmt_q (sel_Key sel))))
             | Some value \<Rightarrow> State_Monad.return (Inr value))
      })"

definition postgresProbeConfig ::
  "('w, 'c) env \<Rightarrow> 'c \<Rightarrow> string \<Rightarrow> string \<Rightarrow> PostgresProbe \<Rightarrow> ('w, 'x, goerror + Config) io" where
  "postgresProbeConfig E c namespace replicationEndpoint spec =
     (let endpoint = (if pp_Endpoint spec = [] then replicationEndpoint else pp_Endpoint spec) in
      if endpoint = [] then State_Monad.return (Inl (Errorf ''endpoint is empty''))
      else do {
        u \<leftarrow> secretValue E c namespace (pp_UserSecretRef spec);
        case u of
          Inl e \<Rightarrow> State_Monad.return (Inl (Wrapf ''read user secret'' e))
        | Inr user \<Rightarrow> do {
            pw \<leftarrow> secretValue E c namespace (pp_PasswordSecretRef spec);
            case pw of
              Inl e \<Rightarrow> State_Monad.return (Inl (Wrapf ''read password secret'' e))
            | Inr password \<Rightarrow> State_Monad.return (Inr \<lparr>cfg_Host = endpoint, cfg_Port = pp_Port spec,
                cfg_Database = pp_Database spec, cfg_User = user, cfg_Password = password,
                cfg_SSLMode = pp_SSLMode spec\<rparr>)
          }
      })"

definition active_prober :: "('w, 'c) env \<Rightarrow> ('w, 'c) HAClusterReconciler \<Rightarrow> 'w prober" where
  "active_prober E r = (case r_PostgresProber r of Some p \<Rightarrow> p | None \<Rightarrow> SQLProber_Probe E)"

definition probePostgres ::
  "('w, 'c) env \<Rightarrow> ('w, 'c) HAClusterReconciler \<Rightarrow> siteObservation \<Rightarrow> 'c \<Rightarrow> ClusterRef \<Rightarrow> string \<Rightarrow>
   PostgresProbe option \<Rightarrow> ('w, 'x, siteObservation) io" where
  "probePostgres E r ob c ref replicationEndpoint spec =
     (case spec of
        None \<Rightarrow> State_Monad.return ob
      | Some sp \<Rightarrow>
          if \<not> o_reachable ob \<or> \<not> o_ready ob then State_Monad.return ob
          else do {
            cf \<leftarrow> postgresProbeConfig E c (cr_Namespace ref) replicationEndpoint sp;
            case cf of
              Inl e \<Rightarrow> State_Monad.return
                (ob\<lparr>o_reason := appendReason (o_reason ob) (''postgres probe skipped: '' @ err_text e)\<rparr>)
            | Inr cfg \<Rightarrow> do {
                g \<leftarrow> call (run_state (active_prober E r cfg));
                case g of
                  Inl e \<Rightarrow> State_Monad.return
                    (ob\<lparr>o_reason := appendReason (o_reason ob) (''postgres probe failed: '' @ err_text e)\<rparr>)
                | Inr got \<Rightarrow> State_Monad.return (ob\<lparr>o_lsnKnown := True, o_lsn := res_LSN got,
                    o_lsnValue := res_LSNValue got, o_lagSeconds := res_LagSeconds got\<rparr>)
              }
          })"

section \<open>Observing the sites\<close>

definition observePrimary ::
  "('w, 'c) env \<Rightarrow> ('w, 'c) HAClusterReconciler \<Rightarrow> HACluster \<Rightarrow> ('w, 'x, siteObservation) io" where
  "observePrimary E r ha =
     (let ps = spec_primary ha;
          ref = nn (cr_Namespace (ps_ClusterRef ps)) (cr_Name (ps_ClusterRef ps))
      in do {
        h \<leftarrow> Probe E (r_Client r) ref;
        probePostgres E r (siteObsFromHealth (ps_Name ps) h) (r_Client r) (ps_ClusterRef ps)
          (ps_ReplicationEndpoint ps) (ps_PostgresProbe ps)
      })"

definition zero_obs :: siteObservation where
  "zero_obs = siteObsFromHealth [] zero_health"

definition observeReplica ::
  "('w, 'c) env \<Rightarrow> ('w, 'c) HAClusterReconciler \<Rightarrow> HACluster \<Rightarrow> ReplicaSite \<Rightarrow>
   (('w, 'c, 'x) cmem_scheme, siteObservation) state" where
  "observeReplica E r ha rep = do {
     x \<leftarrow> GetOrCreate E (r_Client r) (ha_Namespace ha) (rs_KubeconfigSecretRef rep);
     case x of
       Inl e \<Rightarrow> State_Monad.return (zero_obs\<lparr>o_name := rs_Name rep,
                  o_reason := ''kubeconfig load failed: '' @ err_text e\<rparr>)
     | Inr c \<Rightarrow> do {
         h \<leftarrow> Probe E c (nn (cr_Namespace (rs_ClusterRef rep)) (cr_Name (rs_ClusterRef rep)));
         probePostgres E r (siteObsFromHealth (rs_Name rep) h) c (rs_ClusterRef rep)
           (rs_ReplicationEndpoint rep) (rs_PostgresProbe rep)
       }
   }"

fun observe_replicas ::
  "('w, 'c) env \<Rightarrow> ('w, 'c) HAClusterReconciler \<Rightarrow> HACluster \<Rightarrow> ReplicaSite list \<Rightarrow>
   (('w, 'c, 'x) cmem_scheme, siteObservation list) state" where
  "observe_replicas E r ha [] = State_Monad.return []"
| "observe_replicas E r ha (rep # reps) = do {
     ob \<leftarrow> observeReplica E r ha rep;
     obs \<leftarrow> observe_replicas E r ha reps;
     State_Monad.return (ob # obs)
   }"

section \<open>What an observation promises\<close>

text \<open>
  Reported WAL positions come from a ready site and are the parse of the reported text; a site
  that did not answer is neither ready nor primary and says why.
\<close>

definition obs_ok :: "siteObservation \<Rightarrow> bool" where
  "obs_ok ob \<longleftrightarrow>
     (o_lsnKnown ob \<longrightarrow> o_reachable ob \<and> o_ready ob \<and> ParseLSN (o_lsn ob) = Inr (o_lsnValue ob)) \<and>
     (\<not> o_lsnKnown ob \<longrightarrow> o_lsn ob = [] \<and> o_lsnValue ob = 0 \<and> o_lagSeconds ob = None) \<and>
     (\<not> o_reachable ob \<longrightarrow> \<not> o_ready ob \<and> \<not> o_primary ob \<and> o_reason ob \<noteq> []) \<and>
     (\<not> o_ready ob \<longrightarrow> o_reason ob \<noteq> [])"

lemma wp_Probe_ok: "wp (Probe E c ref) (\<lambda>h t. obs_ok (siteObsFromHealth nm h)) s"
proof -
  have "obs_ok (siteObsFromHealth nm ((parseCluster E u)\<lparr>Reachable := True\<rparr>))" for u
    using parseCluster_reason [of E u] by (simp add: obs_ok_def siteObsFromHealth_def)
  moreover have "obs_ok (siteObsFromHealth nm (zero_health\<lparr>Reason := ''get cnpg cluster '' @ y\<rparr>))" for y
    by (simp add: obs_ok_def siteObsFromHealth_def zero_health_def)
  ultimately show ?thesis
    by (auto simp: wp_def run_Probe split: prod.splits sum.splits)
qed

lemma wp_trivial: "wp f (\<lambda>_ _. True) s"
  by (simp add: wp_def split: prod.splits)

lemma wp_bind_any: "(\<And>a t. wp (g a) Q t) \<Longrightarrow> wp (State_Monad.bind f g) Q s"
  unfolding wp_bind by (rule wp_mono [OF wp_trivial])

lemma wp_bindI: "wp f (\<lambda>a _. P a) s \<Longrightarrow> (\<And>a t. P a \<Longrightarrow> wp (g a) Q t) \<Longrightarrow> wp (State_Monad.bind f g) Q s"
  unfolding wp_bind by (rule wp_mono)

lemma appendReason_nonempty [simp]: "appendReason x (c # y) \<noteq> []"
  by (simp add: appendReason_def)

context lsn_prober
begin

lemma probePostgres_ok:
  assumes "active_prober E r = probe" and "obs_ok ob"
  shows "wp (probePostgres E r ob c ref ep spec) (\<lambda>x t. obs_ok x \<and> o_name x = o_name ob) s"
proof (cases "spec = None \<or> \<not> o_reachable ob \<or> \<not> o_ready ob")
  case True
  with assms(2) show ?thesis by (cases spec) (auto simp: probePostgres_def wp_simps)
next
  case False
  then obtain sp where sp: "spec = Some sp" by auto
  have ok: "obs_ok (ob\<lparr>o_reason := appendReason (o_reason ob) (c # y)\<rparr>)" for c y
    using assms(2) by (simp add: obs_ok_def)
  have got: "obs_ok (ob\<lparr>o_lsnKnown := True, o_lsn := res_LSN g, o_lsnValue := res_LSNValue g, o_lagSeconds := l\<rparr>)"
    if "run_state (probe cfg) w = (Inr g, w')" for cfg w g w' l
    using value_of_text [OF that] False assms(2) by (simp add: obs_ok_def)
  have body: "wp (case cf of
      Inl e \<Rightarrow> State_Monad.return
        (ob\<lparr>o_reason := appendReason (o_reason ob) (''postgres probe skipped: '' @ err_text e)\<rparr>)
    | Inr cfg \<Rightarrow> do {
        g \<leftarrow> call (run_state (probe cfg));
        case g of
          Inl e \<Rightarrow> State_Monad.return
            (ob\<lparr>o_reason := appendReason (o_reason ob) (''postgres probe failed: '' @ err_text e)\<rparr>)
        | Inr got \<Rightarrow> State_Monad.return (ob\<lparr>o_lsnKnown := True, o_lsn := res_LSN got,
            o_lsnValue := res_LSNValue got, o_lagSeconds := res_LagSeconds got\<rparr>)
      }) (\<lambda>x t. obs_ok x \<and> o_name x = o_name ob) t" for cf t
    by (auto simp: wp_simps ok intro: got split: sum.splits prod.splits)
  have "\<not> (\<not> o_reachable ob \<or> \<not> o_ready ob)" using False by simp
  then show ?thesis
    unfolding probePostgres_def sp option.case wp_bind assms(1) if_not_P
    by (simp only: if_False wp_bind) (rule wp_mono [OF wp_trivial], rule body)
qed

lemma observeReplica_ok:
  assumes "active_prober E r = probe"
  shows "wp (observeReplica E r ha rep) (\<lambda>x t. obs_ok x \<and> o_name x = rs_Name rep) s"
proof -
  have k: "wp (Probe E c ref) (\<lambda>h. wp (probePostgres E r (siteObsFromHealth nm h) c rf ep spec)
      (\<lambda>x t. obs_ok x \<and> o_name x = nm)) s" for c ref nm rf ep spec s
    using wp_Probe_ok [of E c ref nm s]
  proof (rule wp_mono)
    fix h t assume "obs_ok (siteObsFromHealth nm h)"
    from probePostgres_ok [OF assms this, of c rf ep spec t]
    show "wp (probePostgres E r (siteObsFromHealth nm h) c rf ep spec) (\<lambda>x t. obs_ok x \<and> o_name x = nm) t"
      by (simp add: siteObsFromHealth_def)
  qed
  have z: "obs_ok (zero_obs\<lparr>o_name := nm, o_reason := c # y\<rparr>)" for nm c y
    by (simp add: obs_ok_def zero_obs_def siteObsFromHealth_def zero_health_def)
  show ?thesis
    unfolding observeReplica_def wp_simps
    by (rule wp_mono [OF wp_trivial]) (auto simp: z k split: sum.splits)
qed

lemma observePrimary_ok:
  assumes "active_prober E r = probe"
  shows "wp (observePrimary E r ha) (\<lambda>x t. obs_ok x \<and> o_name x = ps_Name (spec_primary ha)) s"
  unfolding observePrimary_def wp_simps Let_def
  using wp_Probe_ok [of E _ _ "ps_Name (spec_primary ha)" s]
proof (rule wp_mono)
  fix h t assume "obs_ok (siteObsFromHealth (ps_Name (spec_primary ha)) h)"
  from probePostgres_ok [OF assms this]
  show "wp (probePostgres E r (siteObsFromHealth (ps_Name (spec_primary ha)) h) (r_Client r)
      (ps_ClusterRef (spec_primary ha)) (ps_ReplicationEndpoint (spec_primary ha)) (ps_PostgresProbe (spec_primary ha)))
      (\<lambda>x t. obs_ok x \<and> o_name x = ps_Name (spec_primary ha)) t"
    by (simp add: siteObsFromHealth_def)
qed

lemma observe_replicas_ok:
  assumes "active_prober E r = probe"
  shows "wp (observe_replicas E r ha reps) (\<lambda>xs t. list_all obs_ok xs \<and> map o_name xs = map rs_Name reps) s"
proof (induction reps arbitrary: s)
  case (Cons rep reps)
  show ?case
    unfolding observe_replicas.simps wp_simps
  proof (rule wp_mono [OF observeReplica_ok [OF assms]], rule wp_mono [OF Cons.IH])
  qed auto
qed (simp add: wp_simps)

end

lemma active_prober_ok:
  assumes "\<forall>q. r_PostgresProber r = Some q \<longrightarrow> lsn_prober q"
  shows "lsn_prober (active_prober E r)"
  using assms by (simp add: active_prober_def sql.lsn_prober_axioms split: option.splits)

section \<open>Observing writes nothing\<close>

lemma logs_cache [intro]:
  "relates (logs P) (cache_read k)" "relates (logs P) (cache_write k en)"
  by (simp_all add: relates_def wp_simps logs_def trace_def)

lemma logs_GetOrCreate:
  assumes "\<And>c k r. P (GotSecret c k r)" and "\<And>n r. P (NewClient n r)"
  shows "relates (logs P) (GetOrCreate (traced E) hub ns sel)"
  unfolding GetOrCreate_def loadKubeconfig_def clientFromKubeconfig_def traced_env traced_lib
  by (intro log.relates_rules logs_call logs_cache assms)

lemma logs_siteClientAndRef:
  assumes "\<And>c k r. P (GotSecret c k r)" and "\<And>n r. P (NewClient n r)"
  shows "relates (logs P) (siteClientAndRef (traced E) r ha nm)"
  unfolding siteClientAndRef_def
  by (intro log.relates_rules logs_GetOrCreate assms)

lemma logs_Probe: "(\<And>c k r. P (GotCluster c k r)) \<Longrightarrow> relates (logs P) (Probe (traced E) c ref)"
  unfolding Probe_def traced_env by (intro log.relates_rules logs_call)

lemma logs_event: "(\<And>k a b c. P (Emitted k a b c)) \<Longrightarrow> relates (logs P) (event_of (traced E) r ha ty rs msg)"
  unfolding event_of_def traced_env by (intro log.relates_rules logs_notify)

lemma logs_SQLProber:
  assumes "\<And>d r. P (PgConnect d r)" and "\<And>n q r. P (PgQuery n q r)" and "\<And>n. P (PgClose n)"
  shows "relates (logs P) (call (run_state (SQLProber_Probe (traced E) cfg)))"
  using assms
  by (auto simp: relates_def wp_call logs_def trace_def SQLProber_Probe_def tr_def tr_note_def
      split: prod.splits sum.splits)

lemma logs_probePostgres:
  assumes "\<And>c k r. P (GotSecret c k r)" and "\<And>d r. P (PgConnect d r)" and "\<And>n q r. P (PgQuery n q r)"
    and "\<And>n. P (PgClose n)" and "r_PostgresProber r = None"
  shows "relates (logs P) (probePostgres (traced E) r ob c ref ep spec)"
  unfolding probePostgres_def postgresProbeConfig_def secretValue_def active_prober_def assms(5)
    option.case traced_env
  by (intro log.relates_rules logs_call logs_SQLProber assms)

abbreviation quiet :: "'c event \<Rightarrow> bool" where
  "quiet e \<equiv> \<not> site_write e"

lemma quiet_observe:
  assumes "r_PostgresProber r = None"
  shows "relates (logs quiet) (observePrimary (traced E) r ha)"
    and "relates (logs quiet) (observe_replicas (traced E) r ha reps)"
proof -
  note rules = log.relates_rules logs_Probe logs_probePostgres logs_GetOrCreate
  show "relates (logs quiet) (observePrimary (traced E) r ha)"
    unfolding observePrimary_def Let_def by (intro rules assms) simp_all
  have "relates (logs quiet) (observeReplica (traced E) r ha rep)" for rep
    unfolding observeReplica_def by (intro rules assms) simp_all
  then show "relates (logs quiet) (observe_replicas (traced E) r ha reps)"
    by (induction reps) (auto intro: log.relates_rules)
qed

section \<open>Properties\<close>

text \<open>C19. Observing never fails and never lies about WAL: whatever the remote sites, Secrets and
  databases answer, one observation is produced per site of the spec, in spec order and under the site's
  name; an observation with a WAL position comes from a site that answered and is ready, and its number
  is the parse of its text; a site that did not answer is reported neither ready nor primary; every site that
  is not ready carries a reason. (An injected prober has to keep the promise of the \<open>Prober\<close>
  interface; the built-in SQL prober does.)\<close>

theorem observations_sound:
  assumes "\<forall>q. r_PostgresProber r = Some q \<longrightarrow> lsn_prober q"
    and "run_state (observePrimary E r ha) s = (p, s')"
    and "run_state (observe_replicas E r ha (spec_replicas ha)) s' = (rs, t)"
  shows "o_name p # map o_name rs = site_names (ha_Spec ha) \<and> list_all obs_ok (p # rs)"
proof -
  note pr = active_prober_ok [OF assms(1), of E]
  from wp_run [OF lsn_prober.observePrimary_ok [OF pr refl] assms(2)]
    wp_run [OF lsn_prober.observe_replicas_ok [OF pr refl] assms(3)]
  show ?thesis by (simp add: site_names_def)
qed

definition demo_rec :: "('w, nat) HAClusterReconciler" where
  "demo_rec = \<lparr>r_Client = 0, r_Recorder = False, r_PostgresProber = None\<rparr>"

definition demo_rmem :: "i64 \<Rightarrow> (rworld, nat) rmem" where
  "demo_rmem instances = \<lparr>world = demo_world instances, clients = NewCache, failCount = None\<rparr>"

theorem observations_sound_witness:
  "o_name (fst (run_state (observePrimary ref_env demo_rec (demo_ha ''Manual'' ''Ordered'' [] ''a'')) (demo_rmem 1))) = ''a''"
  using observations_sound [of demo_rec ref_env "demo_ha ''Manual'' ''Ordered'' [] ''a''" "demo_rmem 1"]
  by (simp add: demo_rec_def site_names_def demo_ha_def) (metis prod.collapse)

end
