(* ===== verification/Metrics.thy ===== *)
theory Metrics
  imports Reference_World
begin

text \<open>
  \<open>internal/metrics/metrics.go\<close>: the Prometheus collectors and the functions that set them.
  A collector is its name and its label names; setting a series is a call of the
  environment with the collector's name and the label values. \<open>gauge_laws\<close> states the
  documented behaviour of gauge vectors for the property about stale series.
\<close>

section \<open>Collectors\<close>

record Vec =
  vec_Name :: string
  vec_Labels :: "string list"

definition subsystem :: string where "subsystem = ''cnpg_ha''"

definition site_labels :: "string list" where
  "site_labels = [''hacluster'', ''namespace'', ''site'']"

definition CurrentPrimarySiteVec :: Vec where
  "CurrentPrimarySiteVec = \<lparr>vec_Name = subsystem @ ''_current_primary_site'', vec_Labels = site_labels\<rparr>"
definition SiteReachable :: Vec where
  "SiteReachable = \<lparr>vec_Name = subsystem @ ''_site_reachable'', vec_Labels = site_labels\<rparr>"
definition SiteReady :: Vec where
  "SiteReady = \<lparr>vec_Name = subsystem @ ''_site_ready'', vec_Labels = site_labels\<rparr>"
definition ReplicaLagSeconds :: Vec where
  "ReplicaLagSeconds = \<lparr>vec_Name = subsystem @ ''_replica_lag_seconds'', vec_Labels = site_labels\<rparr>"
definition ReplicaLagBytes :: Vec where
  "ReplicaLagBytes = \<lparr>vec_Name = subsystem @ ''_replica_lag_bytes'', vec_Labels = site_labels\<rparr>"
definition SiteCurrentLSNBytes :: Vec where
  "SiteCurrentLSNBytes = \<lparr>vec_Name = subsystem @ ''_site_current_lsn_bytes'', vec_Labels = site_labels\<rparr>"
definition SiteLSNInfo :: Vec where
  "SiteLSNInfo = \<lparr>vec_Name = subsystem @ ''_site_lsn_info'', vec_Labels = site_labels @ [''lsn'']\<rparr>"
definition SplitBrain :: Vec where
  "SplitBrain = \<lparr>vec_Name = subsystem @ ''_split_brain'', vec_Labels = [''hacluster'', ''namespace'']\<rparr>"
definition FailoverTotal :: Vec where
  "FailoverTotal = \<lparr>vec_Name = subsystem @ ''_failover_total'', vec_Labels = [''hacluster'', ''namespace'', ''mode'']\<rparr>"
definition FailoverDurationSeconds :: Vec where
  "FailoverDurationSeconds = \<lparr>vec_Name = subsystem @ ''_failover_duration_seconds'',
     vec_Labels = [''hacluster'', ''namespace'', ''mode'']\<rparr>"

lemmas vec_defs = CurrentPrimarySiteVec_def SiteReachable_def SiteReady_def ReplicaLagSeconds_def
  ReplicaLagBytes_def SiteCurrentLSNBytes_def SiteLSNInfo_def SplitBrain_def FailoverTotal_def
  FailoverDurationSeconds_def subsystem_def site_labels_def

text \<open>
  \<open>Registry.MustRegister\<close> adds the collectors one by one and panics on a name that is
  already registered.
\<close>

fun register_all :: "Vec list \<Rightarrow> Vec list \<Rightarrow> Vec list res" where
  "register_all [] reg = Ok reg"
| "register_all (v # vs) reg =
     (if vec_Name v \<in> vec_Name ` set reg then Panic ''duplicate metrics collector registration attempted''
      else register_all vs (reg @ [v]))"

definition collectors :: "Vec list" where
  "collectors = [CurrentPrimarySiteVec, SiteReachable, SiteReady, ReplicaLagSeconds, ReplicaLagBytes,
     SiteCurrentLSNBytes, SiteLSNInfo, SplitBrain, FailoverTotal, FailoverDurationSeconds]"

definition MustRegister :: "Vec list \<Rightarrow> Vec list res" where
  "MustRegister reg = register_all collectors reg"

section \<open>Operations\<close>

definition boolGauge :: "bool \<Rightarrow> f64" where
  "boolGauge b = (if b then Finite 1 0 else Finite 0 0)"

definition SetSite ::
  "('w, 'c) env \<Rightarrow> string \<Rightarrow> string \<Rightarrow> string \<Rightarrow> bool \<Rightarrow> bool \<Rightarrow> bool \<Rightarrow> ('w, 'x, unit) io" where
  "SetSite E haNamespace haName site isPrimary reachable ready = do {
     _ \<leftarrow> notify (gauge_set E (vec_Name CurrentPrimarySiteVec) [haName, haNamespace, site] (boolGauge isPrimary));
     _ \<leftarrow> notify (gauge_set E (vec_Name SiteReachable) [haName, haNamespace, site] (boolGauge reachable));
     notify (gauge_set E (vec_Name SiteReady) [haName, haNamespace, site] (boolGauge ready))
   }"

definition SetReplicaLag :: "('w, 'c) env \<Rightarrow> string \<Rightarrow> string \<Rightarrow> string \<Rightarrow> f64 \<Rightarrow> ('w, 'x, unit) io" where
  "SetReplicaLag E haNamespace haName site seconds =
     notify (gauge_set E (vec_Name ReplicaLagSeconds) [haName, haNamespace, site] seconds)"

definition ClearReplicaLag :: "('w, 'c) env \<Rightarrow> string \<Rightarrow> string \<Rightarrow> string \<Rightarrow> ('w, 'x, unit) io" where
  "ClearReplicaLag E haNamespace haName site =
     notify (gauge_delete E (vec_Name ReplicaLagSeconds) [haName, haNamespace, site])"

definition SetReplicaLagBytes :: "('w, 'c) env \<Rightarrow> string \<Rightarrow> string \<Rightarrow> string \<Rightarrow> f64 \<Rightarrow> ('w, 'x, unit) io" where
  "SetReplicaLagBytes E haNamespace haName site bytes =
     notify (gauge_set E (vec_Name ReplicaLagBytes) [haName, haNamespace, site] bytes)"

definition ClearReplicaLagBytes :: "('w, 'c) env \<Rightarrow> string \<Rightarrow> string \<Rightarrow> string \<Rightarrow> ('w, 'x, unit) io" where
  "ClearReplicaLagBytes E haNamespace haName site =
     notify (gauge_delete E (vec_Name ReplicaLagBytes) [haName, haNamespace, site])"

definition SetSiteCurrentLSNBytes ::
  "('w, 'c) env \<Rightarrow> string \<Rightarrow> string \<Rightarrow> string \<Rightarrow> f64 \<Rightarrow> ('w, 'x, unit) io" where
  "SetSiteCurrentLSNBytes E haNamespace haName site bytes =
     notify (gauge_set E (vec_Name SiteCurrentLSNBytes) [haName, haNamespace, site] bytes)"

definition ClearSiteCurrentLSNBytes ::
  "('w, 'c) env \<Rightarrow> string \<Rightarrow> string \<Rightarrow> string \<Rightarrow> ('w, 'x, unit) io" where
  "ClearSiteCurrentLSNBytes E haNamespace haName site =
     notify (gauge_delete E (vec_Name SiteCurrentLSNBytes) [haName, haNamespace, site])"

definition SetSiteLSNInfo ::
  "('w, 'c) env \<Rightarrow> string \<Rightarrow> string \<Rightarrow> string \<Rightarrow> string \<Rightarrow> ('w, 'x, unit) io" where
  "SetSiteLSNInfo E haNamespace haName site lsn = do {
     _ \<leftarrow> notify (gauge_delete_partial E (vec_Name SiteLSNInfo)
       [(''hacluster'', haName), (''namespace'', haNamespace), (''site'', site)]);
     notify (gauge_set E (vec_Name SiteLSNInfo) [haName, haNamespace, site, lsn] (Finite 1 0))
   }"

definition ClearSiteLSNInfo :: "('w, 'c) env \<Rightarrow> string \<Rightarrow> string \<Rightarrow> string \<Rightarrow> ('w, 'x, unit) io" where
  "ClearSiteLSNInfo E haNamespace haName site =
     notify (gauge_delete_partial E (vec_Name SiteLSNInfo)
       [(''hacluster'', haName), (''namespace'', haNamespace), (''site'', site)])"

definition SetSplitBrain :: "('w, 'c) env \<Rightarrow> string \<Rightarrow> string \<Rightarrow> bool \<Rightarrow> ('w, 'x, unit) io" where
  "SetSplitBrain E haNamespace haName splitBrain =
     notify (gauge_set E (vec_Name SplitBrain) [haName, haNamespace] (boolGauge splitBrain))"

definition IncFailover :: "('w, 'c) env \<Rightarrow> string \<Rightarrow> string \<Rightarrow> string \<Rightarrow> ('w, 'x, unit) io" where
  "IncFailover E haNamespace haName mode =
     notify (counter_inc E (vec_Name FailoverTotal) [haName, haNamespace, mode])"

definition ObserveFailoverDuration ::
  "('w, 'c) env \<Rightarrow> string \<Rightarrow> string \<Rightarrow> string \<Rightarrow> f64 \<Rightarrow> ('w, 'x, unit) io" where
  "ObserveFailoverDuration E haNamespace haName mode seconds =
     notify (histogram_observe E (vec_Name FailoverDurationSeconds) [haName, haNamespace, mode] seconds)"

lemmas metric_ops = SetSite_def SetReplicaLag_def ClearReplicaLag_def SetReplicaLagBytes_def
  ClearReplicaLagBytes_def SetSiteCurrentLSNBytes_def ClearSiteCurrentLSNBytes_def
  SetSiteLSNInfo_def ClearSiteLSNInfo_def SetSplitBrain_def IncFailover_def ObserveFailoverDuration_def

section \<open>Gauge vectors\<close>

text \<open>
  \<open>series w\<close> is what a scrape of the world \<open>w\<close> shows. Setting and deleting act on one
  series; a partial delete with values for the first labels of a vector removes every
  series of that vector that carries them (the labels are the ones the collector is declared
  with).
\<close>

type_synonym scrape = "string \<times> string list \<Rightarrow> f64 option"

definition gauge_laws :: "('w, 'c) env \<Rightarrow> ('w \<Rightarrow> scrape) \<Rightarrow> bool" where
  "gauge_laws E series \<longleftrightarrow>
     (\<forall>g ls v w. series (gauge_set E g ls v w) = (series w)((g, ls) \<mapsto> v)) \<and>
     (\<forall>g ls w. series (gauge_delete E g ls w) = (series w)((g, ls) := None)) \<and>
     (\<forall>V \<in> set collectors. \<forall>mp w g ls. map fst mp = take (length mp) (vec_Labels V) \<longrightarrow>
        series (gauge_delete_partial E (vec_Name V) mp w) (g, ls) =
          (if g = vec_Name V \<and> take (length mp) ls = map snd mp then None else series w (g, ls)))"

lemma gauge_laws_ref: "gauge_laws ref_env rw_gauges"
  by (auto simp: gauge_laws_def ref_env_def fun_eq_iff)

lemma gauge_delete_info:
  assumes "gauge_laws E series"
  shows "series (gauge_delete_partial E (vec_Name SiteLSNInfo)
      [(''hacluster'', ha), (''namespace'', ns), (''site'', site)] w) (g, ls) =
      (if g = vec_Name SiteLSNInfo \<and> take 3 ls = [ha, ns, site] then None else series w (g, ls))"
proof -
  let ?mp = "[(''hacluster'', ha), (''namespace'', ns), (''site'', site)]"
  have "SiteLSNInfo \<in> set collectors" by (simp add: collectors_def)
  moreover have "map fst ?mp = take (length ?mp) (vec_Labels SiteLSNInfo)"
    by (simp add: SiteLSNInfo_def site_labels_def)
  ultimately have "series (gauge_delete_partial E (vec_Name SiteLSNInfo) ?mp w) (g, ls) =
      (if g = vec_Name SiteLSNInfo \<and> take (length ?mp) ls = map snd ?mp then None else series w (g, ls))"
    using assms unfolding gauge_laws_def by blast
  then show ?thesis by (simp add: numeral_3_eq_3)
qed

section \<open>Properties\<close>

text \<open>One LSN series per site: after \<open>SetSiteLSNInfo\<close> the only \<open>cnpg_ha_site_lsn_info\<close> series of
  the site is the one with the new LSN, with value 1, whatever series existed before;
  after \<open>ClearSiteLSNInfo\<close> there is none; the series of other sites and other metrics are as before.\<close>

lemma SetSiteLSNInfo_single_series:
  assumes "gauge_laws E series"
  shows "series (world (snd (run_state (SetSiteLSNInfo E ns ha site lsn) s))) (g, ls) =
      (if g = vec_Name SiteLSNInfo \<and> take 3 ls = [ha, ns, site]
       then (if ls = [ha, ns, site, lsn] then Some (Finite 1 0) else None)
       else series (world s) (g, ls)) \<and>
    series (world (snd (run_state (ClearSiteLSNInfo E ns ha site) s))) (g, ls) =
      (if g = vec_Name SiteLSNInfo \<and> take 3 ls = [ha, ns, site] then None
       else series (world s) (g, ls))"
  using assms gauge_delete_info [OF assms]
  by (auto simp: SetSiteLSNInfo_def ClearSiteLSNInfo_def gauge_laws_def)

text \<open>Registration: starting from a registry without any of the operator's metric names,
  \<open>MustRegister\<close> registers all ten collectors, under pairwise different names; called a
  second time it panics.\<close>

lemma MustRegister_once:
  assumes "\<forall>v \<in> set reg. \<not> prefix (subsystem @ ''_'') (vec_Name v)"
  shows "\<exists>vs. MustRegister reg = Ok (reg @ vs) \<and> length vs = 10 \<and> distinct (map vec_Name vs) \<and>
    (\<exists>msg. MustRegister (reg @ vs) = Panic msg)"
proof -
  have no: "subsystem @ ''_'' @ n \<notin> vec_Name ` set reg" for n
    using assms by (metis append_assoc imageE prefixI)
  have no': "''cnpg_ha_'' @ n \<notin> vec_Name ` set reg" for n
    using no [of n] by (simp add: subsystem_def)
  have ns: "''cnpg_ha_current_primary_site'' \<notin> vec_Name ` set reg" "''cnpg_ha_site_reachable'' \<notin> vec_Name ` set reg"
    "''cnpg_ha_site_ready'' \<notin> vec_Name ` set reg" "''cnpg_ha_replica_lag_seconds'' \<notin> vec_Name ` set reg"
    "''cnpg_ha_replica_lag_bytes'' \<notin> vec_Name ` set reg" "''cnpg_ha_site_current_lsn_bytes'' \<notin> vec_Name ` set reg"
    "''cnpg_ha_site_lsn_info'' \<notin> vec_Name ` set reg" "''cnpg_ha_split_brain'' \<notin> vec_Name ` set reg"
    "''cnpg_ha_failover_total'' \<notin> vec_Name ` set reg" "''cnpg_ha_failover_duration_seconds'' \<notin> vec_Name ` set reg"
    using no' [of "''current_primary_site''"] no' [of "''site_reachable''"] no' [of "''site_ready''"]
      no' [of "''replica_lag_seconds''"] no' [of "''replica_lag_bytes''"] no' [of "''site_current_lsn_bytes''"]
      no' [of "''site_lsn_info''"] no' [of "''split_brain''"] no' [of "''failover_total''"]
      no' [of "''failover_duration_seconds''"] by simp_all
  show ?thesis by (simp add: MustRegister_def collectors_def vec_defs ns)
qed

end
