(* ===== verification/Controller_Promote.thy ===== *)
theory Controller_Promote
  imports Controller_Observe Metrics
begin

text \<open>
  The promoting half of \<open>internal/controller/hacluster_controller.go\<close>: the failure
  counters, the promotion sequence, and the two handlers that start it (the promote
  annotation in Manual mode, the failure threshold in Automatic mode). A handler returns
  the \<open>HACluster\<close> object as it has changed it, together with its result. The locale
  \<open>failure_counter\<close> states the contract of the counters.
\<close>

section \<open>Failure counters\<close>

definition bumpFailCount :: "NamespacedName \<Rightarrow> ('w, 'c, 'x, i64) rio" where
  "bumpFailCount key = State (\<lambda>s.
     let m = (case failCount s of None \<Rightarrow> (\<lambda>_. None) | Some m \<Rightarrow> m);
         n = (case m key of None \<Rightarrow> 0 | Some v \<Rightarrow> v) + 1
     in (n, s\<lparr>failCount := Some (m(key \<mapsto> n))\<rparr>))"

definition resetFailCount :: "NamespacedName \<Rightarrow> ('w, 'c, 'x, unit) rio" where
  "resetFailCount key = State (\<lambda>s. ((), s\<lparr>failCount := map_option (\<lambda>m. m(key := None)) (failCount s)\<rparr>))"

section \<open>The promotion sequence\<close>

text \<open>
  The two ways \<open>runPromotion\<close> treats a step: on the old primary a NotFound is passed over,
  on the new primary every error ends the sequence.
\<close>

definition best_effort ::
  "('w, 'c) env \<Rightarrow> string \<Rightarrow> ('s, unit res) state \<Rightarrow> ('s, unit res) state \<Rightarrow> ('s, unit res) state" where
  "best_effort E what step rest = do {
     x \<leftarrow> step;
     case x of
       Ok _ \<Rightarrow> rest
     | Err e \<Rightarrow> if \<not> isNotFound E e then State_Monad.return (Err (Wrapf what e)) else rest
     | Panic p \<Rightarrow> State_Monad.return (Panic p)
   }"

definition strict_step ::
  "string \<Rightarrow> ('s, unit res) state \<Rightarrow> ('s, unit res) state \<Rightarrow> ('s, unit res) state" where
  "strict_step what step rest = do {
     x \<leftarrow> step;
     case x of
       Ok _ \<Rightarrow> rest
     | Err e \<Rightarrow> State_Monad.return (Err (Wrapf what e))
     | Panic p \<Rightarrow> State_Monad.return (Panic p)
   }"

definition runPromotion ::
  "('w, 'c) env \<Rightarrow> ('w, 'c) HAClusterReconciler \<Rightarrow> HACluster \<Rightarrow> string \<Rightarrow> ReplicaSite \<Rightarrow>
   (('w, 'c, 'x) cmem_scheme, unit res) state" where
  "runPromotion E r ha oldPrimaryName target =
     (if oldPrimaryName = [] then State_Monad.return (Err (Errorf ''old primary site is empty''))
      else if oldPrimaryName = rs_Name target
      then State_Monad.return (Err (Errorf (''old primary site '' @ fmt_q oldPrimaryName @
             '' and target site are identical'')))
      else do {
        x \<leftarrow> siteClientAndRef E r ha oldPrimaryName;
        case x of
          None \<Rightarrow> State_Monad.return (Err (Errorf (''resolve old primary site '' @ fmt_q oldPrimaryName)))
        | Some p \<Rightarrow> (case p of (oldCli, oldRef) \<Rightarrow>
            let newRef = cluster_ref (rs_ClusterRef target) in do {
              y \<leftarrow> GetOrCreate E (r_Client r) (ha_Namespace ha) (rs_KubeconfigSecretRef target);
              case y of
                Inl e \<Rightarrow> State_Monad.return
                  (Err (Wrapf (''load remote client for '' @ fmt_q (rs_Name target)) e))
              | Inr newCli \<Rightarrow>
                  best_effort E ''fence old primary'' (Fence E oldCli oldRef)
                    (best_effort E ''flip old primary service to remote''
                       (FlipCiliumService E oldCli oldRef RoleRemote)
                       (strict_step ''promote target'' (Promote E newCli newRef)
                         (strict_step ''flip target service to local''
                            (FlipCiliumService E newCli newRef RoleLocal)
                            (State_Monad.return (Ok ())))))
            })
      })"

section \<open>Bookkeeping on the HACluster\<close>

definition conditionFailoverInProgress :: string where
  "conditionFailoverInProgress = ''FailoverInProgress''"
definition annotationPromote :: string where "annotationPromote = ''ha.cnpg.io/promote''"
definition EventTypeNormal :: string where "EventTypeNormal = ''Normal''"
definition EventTypeWarning :: string where "EventTypeWarning = ''Warning''"
definition eventReasonFailoverStarted :: string where "eventReasonFailoverStarted = ''FailoverStarted''"
definition eventReasonFailoverCompleted :: string where "eventReasonFailoverCompleted = ''FailoverCompleted''"
definition eventReasonFailoverFailed :: string where "eventReasonFailoverFailed = ''FailoverFailed''"
definition eventReasonPromoteRejected :: string where "eventReasonPromoteRejected = ''PromoteRejected''"
definition eventReasonAutoFailoverNoCandidate :: string where
  "eventReasonAutoFailoverNoCandidate = ''AutoFailoverNoCandidate''"
definition eventReasonPrimaryUnhealthy :: string where "eventReasonPrimaryUnhealthy = ''PrimaryUnhealthy''"

text \<open>The UTF-8 bytes of the dash in the source's messages.\<close>

abbreviation dash :: string where "dash \<equiv> [CHR 0xE2, CHR 0x80, CHR 0x94]"

definition promotePatch :: string where
  "promotePatch = ''{'' @ [CHR 0x22] @ ''metadata'' @ [CHR 0x22] @ '':{'' @ [CHR 0x22] @ ''annotations'' @
     [CHR 0x22] @ '':{'' @ [CHR 0x22] @ annotationPromote @ [CHR 0x22] @ '':null}}}''"

definition setFailoverInProgress ::
  "('w, 'c) env \<Rightarrow> HACluster \<Rightarrow> bool \<Rightarrow> string \<Rightarrow> ('w, 'x, HACluster) io" where
  "setFailoverInProgress E ha inProgress target = do {
     now \<leftarrow> call (now_time E);
     let cond = \<lparr>cond_Type = conditionFailoverInProgress,
           cond_Status = (if inProgress then ConditionTrue else ConditionFalse),
           cond_ObservedGeneration = ha_Generation ha, cond_LastTransitionTime = now,
           cond_Reason = (if inProgress
             then if fo_Mode (spec_failover ha) = FailoverModeAutomatic then ''AutomaticPromotion''
                  else ''ManualPromotion''
             else ''Idle''),
           cond_Message = (if inProgress
             then ''promoting site '' @ fmt_q target @
               (if fo_Mode (spec_failover ha) = FailoverModeAutomatic then '' (automatic)'' else '' (manual)'')
             else ''no failover in progress'')\<rparr>;
     State_Monad.return (ha\<lparr>ha_Status := (ha_Status ha)\<lparr>Conditions :=
       setStatusCondition E (Conditions (ha_Status ha)) cond\<rparr>\<rparr>)
   }"

definition clearPromoteAnnotation ::
  "('w, 'c) env \<Rightarrow> ('w, 'c) HAClusterReconciler \<Rightarrow> HACluster \<Rightarrow> ('w, 'x, HACluster \<times> goerror option) io" where
  "clearPromoteAnnotation E r ha =
     (if map_of (ha_Annotations ha) annotationPromote = None then State_Monad.return (ha, None)
      else do {
        x \<leftarrow> call (patch_ha E (r_Client r) ha promotePatch);
        case x of
          Inl e \<Rightarrow> State_Monad.return (ha, Some (Wrapf (''patch HACluster '' @ ha_Namespace ha @ ''/'' @ ha_Name ha) e))
        | Inr ha' \<Rightarrow> State_Monad.return
            (ha'\<lparr>ha_Annotations := AList.delete annotationPromote (ha_Annotations ha')\<rparr>, None)
      })"

text \<open>What both handlers do after a successful promotion sequence.\<close>

definition record_failover :: "('w, 'c) env \<Rightarrow> HACluster \<Rightarrow> string \<Rightarrow> ('w, 'x, HACluster) io" where
  "record_failover E ha target = do {
     now \<leftarrow> call (now_time E);
     setFailoverInProgress E (ha\<lparr>ha_Status := (ha_Status ha)\<lparr>CurrentPrimarySite := target,
       LastFailoverTime := Some now\<rparr>\<rparr>) False []
   }"

section \<open>Manual promotion\<close>

definition reject_promote ::
  "('w, 'c) env \<Rightarrow> ('w, 'c) HAClusterReconciler \<Rightarrow> HACluster \<Rightarrow> string \<Rightarrow>
   ('w, 'x, HACluster \<times> promotionEffect res) io" where
  "reject_promote E r ha msg = do {
     _ \<leftarrow> event_of E r ha EventTypeWarning eventReasonPromoteRejected msg;
     x \<leftarrow> clearPromoteAnnotation E r ha;
     case x of (ha', err) \<Rightarrow> State_Monad.return (ha', case err of None \<Rightarrow> Ok no_effect | Some e \<Rightarrow> Err e)
   }"

definition finish_manual ::
  "('w, 'c) env \<Rightarrow> ('w, 'c) HAClusterReconciler \<Rightarrow> HACluster \<Rightarrow> string \<Rightarrow> string \<Rightarrow> string \<Rightarrow> time \<Rightarrow> unit res \<Rightarrow>
   ('w, 'x, HACluster \<times> promotionEffect res) io" where
  "finish_manual E r ha target oldPrimaryName promotedName start x =
     (case x of
        Panic p \<Rightarrow> State_Monad.return (ha, Panic p)
      | Err err \<Rightarrow> do {
          _ \<leftarrow> event_of E r ha EventTypeWarning eventReasonFailoverFailed
            (''promotion of '' @ fmt_q target @ '' failed: '' @ err_text err);
          ha \<leftarrow> setFailoverInProgress E ha False [];
          State_Monad.return (ha, Err (Wrapf (''manual promotion to '' @ fmt_q target) err))
        }
      | Ok _ \<Rightarrow> do {
          stop \<leftarrow> call (now_time E);
          _ \<leftarrow> ObserveFailoverDuration E (ha_Namespace ha) (ha_Name ha) ''manual'' (Seconds (time_sub stop start));
          y \<leftarrow> clearPromoteAnnotation E r ha;
          case y of (ha, cerr) \<Rightarrow>
            (case cerr of
               Some e \<Rightarrow> State_Monad.return (ha, Err (Wrapf ''clear promote annotation'' e))
             | None \<Rightarrow> do {
                 ha \<leftarrow> record_failover E ha target;
                 _ \<leftarrow> event_of E r ha EventTypeNormal eventReasonFailoverCompleted
                   (''site '' @ fmt_q target @ '' is now primary'');
                 _ \<leftarrow> IncFailover E (ha_Namespace ha) (ha_Name ha) ''manual'';
                 State_Monad.return (ha, Ok \<lparr>demoted = oldPrimaryName, promoted = promotedName\<rparr>)
               })
        })"

definition manual_promotion ::
  "('w, 'c) env \<Rightarrow> ('w, 'c) HAClusterReconciler \<Rightarrow> HACluster \<Rightarrow> string \<Rightarrow> ReplicaSite \<Rightarrow> string \<Rightarrow> string \<Rightarrow>
   (('w, 'c, 'x) cmem_scheme, HACluster \<times> promotionEffect res) state" where
  "manual_promotion E r ha target rep oldPrimaryName promotedName = do {
     _ \<leftarrow> event_of E r ha EventTypeNormal eventReasonFailoverStarted
       (''promoting site '' @ fmt_q target @ '' to primary (manual)'');
     ha \<leftarrow> setFailoverInProgress E ha True target;
     start \<leftarrow> call (now_time E);
     x \<leftarrow> runPromotion E r ha oldPrimaryName rep;
     finish_manual E r ha target oldPrimaryName promotedName start x
   }"

definition handlePromoteAnnotation ::
  "('w, 'c) env \<Rightarrow> ('w, 'c) HAClusterReconciler \<Rightarrow> HACluster \<Rightarrow> siteObservation \<Rightarrow> siteObservation list \<Rightarrow>
   (('w, 'c, 'x) cmem_scheme, HACluster \<times> promotionEffect res) state" where
  "handlePromoteAnnotation E r ha primaryObs replicaObs =
     (case map_of (ha_Annotations ha) annotationPromote of
        None \<Rightarrow> State_Monad.return (ha, Ok no_effect)
      | Some target \<Rightarrow>
          if fo_Mode (spec_failover ha) \<noteq> FailoverModeManual
          then reject_promote E r ha (''annotation '' @ annotationPromote @ '' rejected: spec.failover.mode is '' @
                 fmt_q (fo_Mode (spec_failover ha)) @ '', must be Manual'')
          else case findReplica ha target of
            None \<Rightarrow> reject_promote E r ha (''annotation '' @ annotationPromote @ ''='' @ fmt_q target @
                      '' rejected: no replica with that name'')
          | Some (rep, replicaIdx) \<Rightarrow>
              if length replicaObs \<le> replicaIdx then State_Monad.return (ha, Panic ''index out of range'')
              else let targetObs = replicaObs ! replicaIdx in
                if \<not> o_reachable targetObs \<or> \<not> o_ready targetObs \<or> o_primary targetObs
                then reject_promote E r ha (''annotation '' @ annotationPromote @ ''='' @ fmt_q target @
                       '' rejected: target not a healthy replica (reachable='' @ fmt_bool (o_reachable targetObs) @
                       '' ready='' @ fmt_bool (o_ready targetObs) @ '' primary='' @ fmt_bool (o_primary targetObs) @
                       '' reason='' @ fmt_q (o_reason targetObs) @ '')'')
                else case currentPrimaryForPromotion ha primaryObs replicaObs of
                  Inl err \<Rightarrow> reject_promote E r ha (''annotation '' @ annotationPromote @ ''='' @ fmt_q target @
                       '' rejected: '' @ err_text err)
                | Inr oldPrimaryName \<Rightarrow>
                    manual_promotion E r ha target rep oldPrimaryName (o_name (replicaObs ! replicaIdx)))"

section \<open>Automatic failover\<close>

definition automatic_promotion ::
  "('w, 'c) env \<Rightarrow> ('w, 'c) HAClusterReconciler \<Rightarrow> HACluster \<Rightarrow> string \<Rightarrow> ReplicaSite \<Rightarrow> i64 \<Rightarrow> i64 \<Rightarrow>
   ('w, 'c, 'x, HACluster \<times> promotionEffect res) rio" where
  "automatic_promotion E r ha curName target n threshold = do {
     _ \<leftarrow> event_of E r ha EventTypeNormal eventReasonFailoverStarted
       (''promoting site '' @ fmt_q (rs_Name target) @ '' to primary (automatic, primary '' @ fmt_q curName @
        '' unhealthy '' @ show_int (sint n) @ ''/'' @ show_int (sint threshold) @ '')'');
     ha \<leftarrow> setFailoverInProgress E ha True (rs_Name target);
     start \<leftarrow> call (now_time E);
     x \<leftarrow> runPromotion E r ha curName target;
     case x of
       Panic p \<Rightarrow> State_Monad.return (ha, Panic p)
     | Err err \<Rightarrow> do {
         _ \<leftarrow> event_of E r ha EventTypeWarning eventReasonFailoverFailed
           (''automatic promotion of '' @ fmt_q (rs_Name target) @ '' failed: '' @ err_text err);
         ha \<leftarrow> setFailoverInProgress E ha False [];
         State_Monad.return (ha, Err (Wrapf (''automatic failover to '' @ fmt_q (rs_Name target)) err))
       }
     | Ok _ \<Rightarrow> do {
         stop \<leftarrow> call (now_time E);
         _ \<leftarrow> ObserveFailoverDuration E (ha_Namespace ha) (ha_Name ha) ''automatic'' (Seconds (time_sub stop start));
         ha \<leftarrow> record_failover E ha (rs_Name target);
         _ \<leftarrow> event_of E r ha EventTypeNormal eventReasonFailoverCompleted
           (''site '' @ fmt_q (rs_Name target) @ '' is now primary (automatic)'');
         _ \<leftarrow> IncFailover E (ha_Namespace ha) (ha_Name ha) ''automatic'';
         _ \<leftarrow> resetFailCount (ha_key ha);
         State_Monad.return (ha, Ok \<lparr>demoted = curName, promoted = rs_Name target\<rparr>)
       }
   }"

definition in_cooldown :: "('w, 'c) env \<Rightarrow> HACluster \<Rightarrow> ('w, 'x, bool) io" where
  "in_cooldown E ha =
     (case LastFailoverTime (ha_Status ha) of
        None \<Rightarrow> State_Monad.return False
      | Some lf \<Rightarrow> do {
          now \<leftarrow> call (now_time E);
          State_Monad.return (sint (time_sub now lf) < sint (stabilizationCooldown (spec_failover ha)))
        })"

definition handleAutomaticFailover ::
  "('w, 'c) env \<Rightarrow> ('w, 'c) HAClusterReconciler \<Rightarrow> HACluster \<Rightarrow> siteObservation \<Rightarrow> siteObservation list \<Rightarrow>
   ('w, 'c, 'x, HACluster \<times> promotionEffect res) rio" where
  "handleAutomaticFailover E r ha primaryObs replicaObs =
     (let key = ha_key ha in
      if fo_Mode (spec_failover ha) \<noteq> FailoverModeAutomatic then State_Monad.return (ha, Ok no_effect)
      else if detectSplitBrain primaryObs replicaObs \<noteq> [] then do {
        _ \<leftarrow> resetFailCount key;
        State_Monad.return (ha, Ok no_effect)
      }
      else do {
        cooling \<leftarrow> in_cooldown E ha;
        if cooling then do {
          _ \<leftarrow> resetFailCount key;
          State_Monad.return (ha, Ok no_effect)
        }
        else
          let curName = (if CurrentPrimarySite (ha_Status ha) = [] then ps_Name (spec_primary ha)
                         else CurrentPrimarySite (ha_Status ha));
              cur = findObservation curName primaryObs replicaObs;
              healthy = (case cur of None \<Rightarrow> False
                         | Some ob \<Rightarrow> o_reachable ob \<and> o_primary ob \<and> o_ready ob)
          in if healthy then do {
               _ \<leftarrow> resetFailCount key;
               State_Monad.return (ha, Ok no_effect)
             }
             else do {
               n \<leftarrow> bumpFailCount key;
               let threshold = effectiveFailureThreshold (spec_failover ha);
               if sint n < sint threshold then do {
                 _ \<leftarrow> event_of E r ha EventTypeWarning eventReasonPrimaryUnhealthy
                   (''primary '' @ fmt_q curName @ '' unhealthy ('' @ show_int (sint n) @ ''/'' @
                    show_int (sint threshold) @ '') '' @ dash @ '' automatic failover pending'');
                 State_Monad.return (ha, Ok no_effect)
               }
               else case chooseTarget ha replicaObs curName of
                 Ok None \<Rightarrow> do {
                   _ \<leftarrow> event_of E r ha EventTypeWarning eventReasonAutoFailoverNoCandidate
                     (''primary '' @ fmt_q curName @ '' down but no healthy replica to promote '' @ dash @
                      '' staying unavailable'');
                   State_Monad.return (ha, Ok no_effect)
                 }
               | Ok (Some (target, _)) \<Rightarrow> automatic_promotion E r ha curName target n threshold
               | Err e \<Rightarrow> State_Monad.return (ha, Err e)
               | Panic p \<Rightarrow> State_Monad.return (ha, Panic p)
             }
      })"

section \<open>The counters as an interface\<close>

text \<open>
  What automatic failover relies on: an increment returns the count it leaves behind, a
  reset forgets, and neither touches another HACluster's counter.
\<close>

locale failure_counter =
  fixes count :: "'st \<Rightarrow> 'k \<Rightarrow> i64"
    and bump :: "'k \<Rightarrow> ('st, i64) state"
    and reset :: "'k \<Rightarrow> ('st, unit) state"
  assumes bump_result: "fst (run_state (bump k) s) = count s k + 1"
    and bump_count: "count (snd (run_state (bump k) s)) k' = (if k' = k then count s k + 1 else count s k')"
    and reset_count: "count (snd (run_state (reset k) s)) k' = (if k' = k then 0 else count s k')"
begin

text \<open>The \<open>n\<close>-th increment after a reset returns \<open>n\<close>, whatever happens to other keys.\<close>

lemma bumps_count:
  "count (((\<lambda>s. snd (run_state (bump k) s)) ^^ n) s) k = count s k + of_nat n"
  by (induction n) (simp_all add: bump_count)

lemma reset_bumps:
  "fst (run_state (bump k) (((\<lambda>s. snd (run_state (bump k) s)) ^^ n) (snd (run_state (reset k) s)))) = of_nat (Suc n)"
  by (simp add: bump_result bumps_count reset_count)

end

definition fail_count :: "('w, 'c, 'x) rmem_scheme \<Rightarrow> NamespacedName \<Rightarrow> i64" where
  "fail_count s key = (case failCount s of None \<Rightarrow> 0 | Some m \<Rightarrow> (case m key of None \<Rightarrow> 0 | Some v \<Rightarrow> v))"

lemma run_bumpFailCount:
  "run_state (bumpFailCount key) s = (fail_count s key + 1,
     s\<lparr>failCount := Some ((case failCount s of None \<Rightarrow> (\<lambda>_. None) | Some m \<Rightarrow> m)(key \<mapsto> fail_count s key + 1))\<rparr>)"
  by (simp add: bumpFailCount_def fail_count_def Let_def split: option.splits)

lemma run_resetFailCount:
  "run_state (resetFailCount key) s = ((), s\<lparr>failCount := map_option (\<lambda>m. m(key := None)) (failCount s)\<rparr>)"
  by (simp add: resetFailCount_def)

interpretation fails: failure_counter fail_count bumpFailCount resetFailCount
  by unfold_locales
     (auto simp: run_bumpFailCount run_resetFailCount fail_count_def split: option.splits)

lemma wp_bumpFailCount [wp_simps]:
  "wp (bumpFailCount key) Q s = (case run_state (bumpFailCount key) s of (n, t) \<Rightarrow> Q n t)"
  by (simp add: wp_def)

section \<open>Composition\<close>

lemma wp_best_effort [wp_simps]:
  "wp (best_effort E what step rest) Q s =
   wp step (\<lambda>x t. case x of Ok _ \<Rightarrow> wp rest Q t
     | Err e \<Rightarrow> if isNotFound E e then wp rest Q t else Q (Err (Wrapf what e)) t
     | Panic p \<Rightarrow> Q (Panic p) t) s"
  unfolding best_effort_def wp_bind by (rule arg_cong [where f = "\<lambda>q. wp step q s"])
    (auto simp: fun_eq_iff wp_simps split: res.splits)

lemma wp_strict_step [wp_simps]:
  "wp (strict_step what step rest) Q s =
   wp step (\<lambda>x t. case x of Ok _ \<Rightarrow> wp rest Q t | Err e \<Rightarrow> Q (Err (Wrapf what e)) t | Panic p \<Rightarrow> Q (Panic p) t) s"
  unfolding strict_step_def wp_bind by (rule arg_cong [where f = "\<lambda>q. wp step q s"])
    (auto simp: fun_eq_iff wp_simps split: res.splits)

lemma logs_best_effort:
  "relates (logs P) step \<Longrightarrow> relates (logs P) rest \<Longrightarrow> relates (logs P) (best_effort E what step rest)"
  unfolding best_effort_def by (intro log.relates_rules)

lemma logs_strict_step:
  "relates (logs P) step \<Longrightarrow> relates (logs P) rest \<Longrightarrow> relates (logs P) (strict_step what step rest)"
  unfolding strict_step_def by (intro log.relates_rules)

lemma logs_counters:
  "relates (logs P) (bumpFailCount key)" "relates (logs P) (resetFailCount key)"
  by (simp_all add: relates_def wp_def run_bumpFailCount run_resetFailCount logs_def trace_def)

lemma logs_metrics:
  assumes "\<And>g ls. P (CounterInc g ls)" and "\<And>g ls v. P (HistogramObserve g ls v)"
  shows "relates (logs P) (IncFailover (traced E) ns n m)"
    and "relates (logs P) (ObserveFailoverDuration (traced E) ns n m d)"
  unfolding IncFailover_def ObserveFailoverDuration_def traced_env by (intro logs_notify assms)+

lemma logs_bookkeeping:
  assumes "\<And>t. P (ReadClock t)" and "\<And>c h p r. P (PatchedHA c h p r)" and "\<And>k a b c. P (Emitted k a b c)"
  shows "relates (logs P) (setFailoverInProgress (traced E) ha b tg)"
    and "relates (logs P) (clearPromoteAnnotation (traced E) r ha)"
    and "relates (logs P) (record_failover (traced E) ha tg)"
    and "relates (logs P) (reject_promote (traced E) r ha msg)"
  unfolding setFailoverInProgress_def clearPromoteAnnotation_def record_failover_def reject_promote_def Let_def
    traced_env
  by (intro log.relates_rules logs_call logs_event assms)+

end
