(* ===== verification/Promotion_Sequence.thy ===== *)
theory Promotion_Sequence
  imports Controller_Promote
begin

text \<open>
  What \<open>runPromotion\<close> guarantees: which requests it refuses outright, that nothing but the
  fence is written before the old primary is known to be fenced or gone (in every
  environment), and the state of both sites after it succeeds (on a store without concurrent
  writers).
\<close>

section \<open>Order of the calls\<close>

text \<open>The CNPG Cluster a site name stands for in the spec.\<close>

definition site_ref :: "HACluster \<Rightarrow> string \<Rightarrow> Ref option" where
  "site_ref ha nm =
     (if nm = ps_Name (spec_primary ha) then Some (cluster_ref (ps_ClusterRef (spec_primary ha)))
      else map_option (\<lambda>rep. cluster_ref (rs_ClusterRef rep)) (find (\<lambda>rep. rs_Name rep = nm) (spec_replicas ha)))"

text \<open>The write of a fence, and a call that shows a Cluster fenced or gone.\<close>

definition fencing :: "'x lib_scheme \<Rightarrow> json \<Rightarrow> bool" where
  "fencing L u \<longleftrightarrow> (\<exists>u0 a. u = setAnnotations L u0 (AList.update AnnotationFenced FencedAllInstances a))"

fun fence_put :: "'x lib_scheme \<Rightarrow> 'c \<Rightarrow> NamespacedName \<Rightarrow> 'c event \<Rightarrow> bool" where
  "fence_put L c k (PutCluster c' k' u r) \<longleftrightarrow> c' = c \<and> k' = k \<and> fencing L u"
| "fence_put L c k _ \<longleftrightarrow> False"

fun fence_shown :: "'x lib_scheme \<Rightarrow> 'c \<Rightarrow> NamespacedName \<Rightarrow> 'c event \<Rightarrow> bool" where
  "fence_shown L c k (GotCluster c' k' (Inr u)) \<longleftrightarrow> c' = c \<and> k' = k \<and>
     nil_lookup (getAnnotations L u) AnnotationFenced = FencedAllInstances"
| "fence_shown L c k (GotCluster c' k' (Inl e)) \<longleftrightarrow> c' = c \<and> k' = k \<and> isNotFound L e"
| "fence_shown L c k (PutCluster c' k' u None) \<longleftrightarrow> c' = c \<and> k' = k \<and> fencing L u"
| "fence_shown L c k (PutCluster c' k' u (Some e)) \<longleftrightarrow> c' = c \<and> k' = k \<and> isNotFound L e"
| "fence_shown L c k _ \<longleftrightarrow> False"

definition fence_gated :: "'x lib_scheme \<Rightarrow> 'c \<Rightarrow> NamespacedName \<Rightarrow> 'c event list \<Rightarrow> bool" where
  "fence_gated L c k es \<longleftrightarrow>
     (\<forall>pre e post. es = pre @ e # post \<longrightarrow> site_write e \<longrightarrow>
        fence_put L c k e \<or> (\<exists>x \<in> set pre. fence_shown L c k x))"

lemma fence_gated_quiet: "list_all (\<lambda>e. site_write e \<longrightarrow> fence_put L c k e) es \<Longrightarrow> fence_gated L c k es"
  by (auto simp: fence_gated_def list_all_iff)

lemma fence_gated_append:
  assumes "fence_gated L c k es" and "\<exists>x \<in> set es. fence_shown L c k x"
  shows "fence_gated L c k (es @ fs)"
  unfolding fence_gated_def
proof (intro allI impI)
  fix pre e post
  assume split: "es @ fs = pre @ e # post" and w: "site_write e"
  show "fence_put L c k e \<or> (\<exists>x \<in> set pre. fence_shown L c k x)"
  proof (cases "length pre < length es")
    case True
    then obtain us where "es = pre @ us" "us \<noteq> []" "us @ fs = e # post"
      using split by (auto simp: append_eq_append_conv2)
    then obtain vs where "es = pre @ e # vs" by (cases us) auto
    then show ?thesis using assms(1) w unfolding fence_gated_def by blast
  next
    case False
    then have "\<exists>us. pre = es @ us" using split by (auto simp: append_eq_append_conv2 Cons_eq_append_conv)
    then show ?thesis using assms(2) by auto
  qed
qed

lemma fence_gated_prepend:
  assumes "list_all (\<lambda>e. \<not> site_write e) es" and "fence_gated L c k fs"
  shows "fence_gated L c k (es @ fs)"
  unfolding fence_gated_def
proof (intro allI impI)
  fix pre e post
  assume split: "es @ fs = pre @ e # post" and w: "site_write e"
  show "fence_put L c k e \<or> (\<exists>x \<in> set pre. fence_shown L c k x)"
  proof (cases "length pre < length es")
    case True
    then have "e \<in> set es" using split
      by (metis append_eq_append_conv_if id_take_nth_drop in_set_conv_decomp nth_append nth_append_length nth_mem)
    with assms(1) w show ?thesis by (auto simp: list_all_iff)
  next
    case False
    then obtain us where "pre = es @ us" "fs = us @ e # post"
      using split by (auto simp: append_eq_append_conv2 Cons_eq_append_conv)
    then show ?thesis using assms(2) w unfolding fence_gated_def by auto
  qed
qed

lemma wp_Fence_log:
  assumes "not_found_wraps E"
  shows "wp (Fence (traced E) c ref) (\<lambda>x t. \<exists>es. trace t = trace s @ es \<and>
    list_all (\<lambda>e. site_write e \<longrightarrow> fence_put E c (ref_key ref) e) es \<and>
    (x = Ok () \<or> (\<exists>e. x = Err e \<and> isNotFound E e) \<longrightarrow> (\<exists>y \<in> set es. fence_shown E c (ref_key ref) y))) s"
proof -
  have nf: "isNotFound E (Wrapf p e) = isNotFound E e" for p e
    using assms by (simp add: not_found_wraps_def)
  have none: "fence_plan (traced E) ref u = Inr None \<Longrightarrow>
      nil_lookup (getAnnotations E u) AnnotationFenced = FencedAllInstances" for u
    by (auto simp: fence_plan_def split: if_splits)
  have some: "fence_plan (traced E) ref u = Inr (Some u') \<Longrightarrow> fencing E u'" for u u'
    unfolding fence_plan_def fencing_def traced_lib by (auto split: if_splits)
  have err: "fence_plan (traced E) ref u \<noteq> Inl e" for u e
    by (simp add: fence_plan_def)
  obtain w0 tr0 where s: "world s = (w0, tr0)" by fastforce
  then have t0: "trace s = tr0" by (simp add: trace_def)
  show ?thesis
    unfolding wp_def fence_step.step [OF TrueI] traced_env
    by (auto simp: s t0 tr_def nf err dest: none some split: prod.splits sum.splits option.splits)
qed

lemma logs_flip:
  "(\<And>c k r. P (GotService c k r)) \<Longrightarrow> (\<And>c k v r. P (PutService c k v r)) \<Longrightarrow>
   relates (logs P) (FlipCiliumService (traced E) c ref role)"
  unfolding FlipCiliumService_def Let_def traced_env by (intro log.relates_rules logs_call)

lemma logs_promote:
  "(\<And>c k r. P (GotCluster c k r)) \<Longrightarrow> (\<And>c k v r. P (PutCluster c k v r)) \<Longrightarrow>
   relates (logs P) (Promote (traced E) c ref)"
  unfolding Promote_def Let_def traced_env traced_lib by (intro log.relates_rules logs_call)

lemma siteClientAndRef_ref:
  "wp (siteClientAndRef E r ha nm) (\<lambda>x t. \<forall>c ref. x = Some (c, ref) \<longrightarrow>
     site_ref ha nm = Some ref \<and> (nm = ps_Name (spec_primary ha) \<longrightarrow> c = r_Client r)) s"
proof (cases "nm = ps_Name (spec_primary ha)")
  case True
  then show ?thesis by (simp add: siteClientAndRef_def wp_simps site_ref_def)
next
  case False
  show ?thesis
  proof (cases "find (\<lambda>rep. rs_Name rep = nm) (spec_replicas ha)")
    case None
    with False show ?thesis by (simp add: siteClientAndRef_def wp_simps)
  next
    case (Some rep)
    with False show ?thesis
      by (simp add: siteClientAndRef_def wp_bind)
         (rule wp_mono [OF wp_trivial], auto simp: wp_simps site_ref_def split: sum.splits)
  qed
qed

lemma relates_wp: "relates R f \<Longrightarrow> wp f (\<lambda>_ t. R s t) s"
  by (simp add: relates_def)

text \<open>The four steps, with the clients resolved.\<close>

definition four_steps ::
  "('w, 'c) env \<Rightarrow> 'c \<Rightarrow> Ref \<Rightarrow> 'c \<Rightarrow> Ref \<Rightarrow> ('w, 'x, unit res) io" where
  "four_steps E oldCli oldRef newCli newRef =
     best_effort E ''fence old primary'' (Fence E oldCli oldRef)
       (best_effort E ''flip old primary service to remote'' (FlipCiliumService E oldCli oldRef RoleRemote)
          (strict_step ''promote target'' (Promote E newCli newRef)
            (strict_step ''flip target service to local'' (FlipCiliumService E newCli newRef RoleLocal)
               (State_Monad.return (Ok ())))))"

text \<open>The run of \<open>runPromotion\<close>: refused, unresolved, or the four steps.\<close>

lemma runPromotion_cases:
  assumes "run_state (runPromotion E r ha old target) s = (x, t)"
  shows "(\<exists>e. x = Err e \<and> (t = s \<or> (\<exists>y. run_state (siteClientAndRef E r ha old) s = (y, t)) \<or>
      (\<exists>y s1 e'. run_state (siteClientAndRef E r ha old) s = (y, s1) \<and>
         run_state (GetOrCreate E (r_Client r) (ha_Namespace ha) (rs_KubeconfigSecretRef target)) s1 = (Inl e', t)))) \<or>
    (\<exists>c ref s1 d s2. old \<noteq> [] \<and> old \<noteq> rs_Name target \<and>
       run_state (siteClientAndRef E r ha old) s = (Some (c, ref), s1) \<and>
       run_state (GetOrCreate E (r_Client r) (ha_Namespace ha) (rs_KubeconfigSecretRef target)) s1 = (Inr d, s2) \<and>
       run_state (four_steps E c ref d (cluster_ref (rs_ClusterRef target))) s2 = (x, t))"
proof (cases "old = [] \<or> old = rs_Name target")
  case True
  with assms show ?thesis by (auto simp: runPromotion_def split: if_splits)
next
  case False
  obtain y s1 where y: "run_state (siteClientAndRef E r ha old) s = (y, s1)" by fastforce
  obtain z s2 where z: "run_state (GetOrCreate E (r_Client r) (ha_Namespace ha) (rs_KubeconfigSecretRef target)) s1 = (z, s2)"
    by fastforce
  from False assms y z show ?thesis
    by (cases y; cases z) (auto simp: runPromotion_def four_steps_def Let_def)
qed

lemma four_steps_gated:
  fixes E :: "('w, 'c) env" and s :: "('w \<times> 'c event list, 'x) mem_scheme"
  assumes "not_found_wraps E" and "run_state (four_steps (traced E) c ref d ref') s = (x, t)"
  shows "\<exists>es. trace t = trace s @ es \<and> fence_gated E c (ref_key ref) es"
proof -
  let ?rest = "best_effort (traced E) ''flip old primary service to remote''
    (FlipCiliumService (traced E) c ref RoleRemote)
    (strict_step ''promote target'' (Promote (traced E) d ref')
      (strict_step ''flip target service to local'' (FlipCiliumService (traced E) d ref' RoleLocal)
        (State_Monad.return (Ok ())))) :: ('w \<times> 'c event list, 'x, unit res) io"
  let ?Q = "\<lambda>x t. \<exists>es. trace t = trace s @ es \<and> fence_gated E c (ref_key ref) es"
  have rest: "relates (logs (\<lambda>_. True)) ?rest"
    by (intro logs_best_effort logs_strict_step logs_flip logs_promote log.relates_rules TrueI)
  have "wp (four_steps (traced E) c ref d ref') ?Q s"
    unfolding four_steps_def
  proof (subst wp_best_effort, rule wp_mono [OF wp_Fence_log [OF assms(1)]], elim exE conjE)
    fix x es and t :: "('w \<times> 'c event list, 'x) mem_scheme"
    assume tr: "trace t = trace s @ es" and q: "list_all (\<lambda>e. site_write e \<longrightarrow> fence_put E c (ref_key ref) e) es"
      and sh: "x = Ok () \<or> (\<exists>e. x = Err e \<and> isNotFound E e) \<longrightarrow> (\<exists>y \<in> set es. fence_shown E c (ref_key ref) y)"
    note g = fence_gated_quiet [OF q]
    have go: "wp ?rest ?Q t" if "\<exists>y \<in> set es. fence_shown E c (ref_key ref) y"
      using relates_wp [OF rest]
    proof (rule wp_mono)
      fix b u assume "logs (\<lambda>_. True) t u"
      then obtain fs where "trace u = trace s @ (es @ fs)" using tr by (auto simp: logs_def)
      with fence_gated_append [OF g that] show "?Q b u" by blast
    qed
    show "case x of Ok _ \<Rightarrow> wp ?rest ?Q t
      | Err e \<Rightarrow> if isNotFound (traced E) e then wp ?rest ?Q t else ?Q (Err (Wrapf ''fence old primary'' e)) t
      | Panic p \<Rightarrow> ?Q (Panic p) t"
      using go sh tr g by (cases x) auto
  qed
  from wp_run [OF this assms(2)] show ?thesis .
qed

section \<open>Both sites after a success\<close>

lemma store_lawsD:
  assumes "store_laws E srv"
  shows "snd (get_cluster E c k w) = w" and "snd (get_service E c k w) = w"
    and "update_cluster E c k u w = (r, w') \<Longrightarrow> (srv c', k') \<noteq> (srv c, k) \<Longrightarrow>
      fst (get_cluster E c' k' w') = fst (get_cluster E c' k' w)"
    and "update_cluster E c k u w = (r, w') \<Longrightarrow> fst (get_service E c' k' w') = fst (get_service E c' k' w)"
    and "update_service E c k v w = (r, w') \<Longrightarrow> (srv c', k') \<noteq> (srv c, k) \<Longrightarrow>
      fst (get_service E c' k' w') = fst (get_service E c' k' w)"
    and "update_service E c k v w = (r, w') \<Longrightarrow> fst (get_cluster E c' k' w') = fst (get_cluster E c' k' w)"
  using assms by (simp_all add: store_laws_def)

lemma store_not_missing:
  assumes "store_laws E srv"
  shows "fst (get_cluster E c k w) = Inr o1 \<Longrightarrow> update_cluster E c k u w = (Some e, w') \<Longrightarrow> \<not> isNotFound E e"
    and "fst (get_service E c k w) = Inr o2 \<Longrightarrow> update_service E c k v w = (Some e, w') \<Longrightarrow> \<not> isNotFound E e"
  using assms unfolding store_laws_def by blast+

text \<open>A step on one Cluster or Service leaves every other object alone.\<close>

lemma cluster_step_frame:
  assumes "store_laws E srv"
    and "run_state (Fence E c ref) s = (x, t) \<or> run_state (Promote E c ref) s = (x, t)"
  shows "(srv c', k') \<noteq> (srv c, ref_key ref) \<Longrightarrow>
      fst (get_cluster E c' k' (world t)) = fst (get_cluster E c' k' (world s))"
    and "fst (get_service E c' k' (world t)) = fst (get_service E c' k' (world s))"
proof -
  have "\<exists>w r. (world t = world s \<or> update_cluster E c (ref_key ref) w (world s) = (r, world t))"
    using assms(2) store_lawsD(1) [OF assms(1), of c "ref_key ref" "world s"]
    unfolding fence_step.step [OF TrueI] promote_step.step [OF TrueI]
    by (auto split: prod.splits sum.splits option.splits)
  then show "(srv c', k') \<noteq> (srv c, ref_key ref) \<Longrightarrow>
      fst (get_cluster E c' k' (world t)) = fst (get_cluster E c' k' (world s))"
    and "fst (get_service E c' k' (world t)) = fst (get_service E c' k' (world s))"
    using store_lawsD(3,4) [OF assms(1)] by metis+
qed

lemma service_step_frame:
  assumes "store_laws E srv" and "run_state (FlipCiliumService E c ref role) s = (x, t)"
  shows "(srv c', k') \<noteq> (srv c, nn (ref_Namespace ref) (ref_Name ref @ ''-rw'')) \<Longrightarrow>
      fst (get_service E c' k' (world t)) = fst (get_service E c' k' (world s))"
    and "fst (get_cluster E c' k' (world t)) = fst (get_cluster E c' k' (world s))"
proof -
  let ?k = "nn (ref_Namespace ref) (ref_Name ref @ ''-rw'')"
  have "\<exists>w r. (world t = world s \<or> update_service E c ?k w (world s) = (r, world t))"
    using assms(2) store_lawsD(2) [OF assms(1), of c ?k "world s"]
    unfolding flip_step.step [OF TrueI]
    by (auto split: prod.splits sum.splits option.splits)
  then show "(srv c', k') \<noteq> (srv c, ?k) \<Longrightarrow>
      fst (get_service E c' k' (world t)) = fst (get_service E c' k' (world s))"
    and "fst (get_cluster E c' k' (world t)) = fst (get_cluster E c' k' (world s))"
    using store_lawsD(5,6) [OF assms(1)] by metis+
qed

text \<open>A NotFound from the fence or the flip of the old site means the object is not there.\<close>

lemma fence_not_found:
  assumes "store_laws E srv" and "not_found_wraps E"
    and "run_state (Fence E c ref) s = (Err e, t)" and "isNotFound E e"
  shows "\<exists>e'. fst (get_cluster E c (ref_key ref) (world t)) = Inl e' \<and> isNotFound E e'"
proof -
  obtain r w where g: "get_cluster E c (ref_key ref) (world s) = (r, w)" by fastforce
  with store_lawsD(1) [OF assms(1), of c "ref_key ref" "world s"] have w: "w = world s" by simp
  have nf: "isNotFound E (Wrapf p e) = isNotFound E e" for p e using assms(2) by (simp add: not_found_wraps_def)
  show ?thesis
  proof (cases r)
    case (Inl e')
    with assms(3,4) g w nf show ?thesis by (auto simp: fence_step.step [OF TrueI])
  next
    case (Inr u)
    with assms(3,4) g w nf show ?thesis
      using store_not_missing(1) [OF assms(1), of c "ref_key ref" "world s" u]
      by (auto simp: fence_step.step [OF TrueI] fence_plan_def split: prod.splits option.splits if_splits)
  qed
qed

lemma flip_not_found:
  assumes "store_laws E srv" and "not_found_wraps E"
    and "run_state (FlipCiliumService E c ref role) s = (Err e, t)" and "isNotFound E e"
  shows "\<exists>e'. fst (get_service E c (nn (ref_Namespace ref) (ref_Name ref @ ''-rw'')) (world t)) = Inl e' \<and>
    isNotFound E e'"
proof -
  let ?k = "nn (ref_Namespace ref) (ref_Name ref @ ''-rw'')"
  obtain r w where g: "get_service E c ?k (world s) = (r, w)" by fastforce
  with store_lawsD(2) [OF assms(1), of c ?k "world s"] have w: "w = world s" by simp
  have nf: "isNotFound E (Wrapf p e) = isNotFound E e" for p e using assms(2) by (simp add: not_found_wraps_def)
  show ?thesis
  proof (cases r)
    case (Inl e')
    with assms(3,4) g w nf show ?thesis by (auto simp: flip_step.step [OF TrueI])
  next
    case (Inr u)
    with assms(3,4) g w nf show ?thesis
      using store_not_missing(2) [OF assms(1), of c ?k "world s" u]
      by (auto simp: flip_step.step [OF TrueI] flip_plan_def split: prod.splits option.splits if_splits)
  qed
qed

lemma four_steps_Ok:
  assumes "run_state (four_steps E c ref d ref') s = (Ok (), t)"
  obtains x1 s1 x2 s2 s3 where "run_state (Fence E c ref) s = (x1, s1)"
    and "x1 = Ok () \<or> (\<exists>e. x1 = Err e \<and> isNotFound E e)"
    and "run_state (FlipCiliumService E c ref RoleRemote) s1 = (x2, s2)"
    and "x2 = Ok () \<or> (\<exists>e. x2 = Err e \<and> isNotFound E e)"
    and "run_state (Promote E d ref') s2 = (Ok (), s3)"
    and "run_state (FlipCiliumService E d ref' RoleLocal) s3 = (Ok (), t)"
proof -
  obtain x1 s1 where r1: "run_state (Fence E c ref) s = (x1, s1)" by fastforce
  obtain x2 s2 where r2: "run_state (FlipCiliumService E c ref RoleRemote) s1 = (x2, s2)" by fastforce
  obtain x3 s3 where r3: "run_state (Promote E d ref') s2 = (x3, s3)" by fastforce
  obtain x4 s4 where r4: "run_state (FlipCiliumService E d ref' RoleLocal) s3 = (x4, s4)" by fastforce
  from assms r1 have "x1 = Ok () \<or> (\<exists>e. x1 = Err e \<and> isNotFound E e)"
    by (cases x1) (auto simp: four_steps_def best_effort_def split: if_splits)
  moreover from this assms r1 r2 have "x2 = Ok () \<or> (\<exists>e. x2 = Err e \<and> isNotFound E e)"
    by (cases x2) (auto simp: four_steps_def best_effort_def split: if_splits)
  moreover from calculation assms r1 r2 r3 have "x3 = Ok ()"
    by (cases x3) (auto simp: four_steps_def best_effort_def strict_step_def split: if_splits)
  moreover from calculation assms r1 r2 r3 r4 have "x4 = Ok () \<and> s4 = t"
    by (cases x4) (auto simp: four_steps_def best_effort_def strict_step_def split: if_splits)
  ultimately show thesis using that r1 r2 r3 r4 by blast
qed

text \<open>An object is in the wanted state, or is reported missing.\<close>

definition holds_or_missing :: "'x lib_scheme \<Rightarrow> (goerror + 'o) \<Rightarrow> ('o \<Rightarrow> bool) \<Rightarrow> bool" where
  "holds_or_missing L r P = (case r of Inl e \<Rightarrow> isNotFound L e | Inr u \<Rightarrow> P u)"

definition all_fenced :: "'x lib_scheme \<Rightarrow> json \<Rightarrow> bool" where
  "all_fenced L u \<longleftrightarrow> nil_lookup (getAnnotations L u) AnnotationFenced = FencedAllInstances"

definition serves :: "ServiceRole \<Rightarrow> Service \<Rightarrow> bool" where
  "serves role v \<longleftrightarrow> nil_lookup (svc_annotations v) AnnotationCiliumGlobal = ''true'' \<and>
     nil_lookup (svc_annotations v) AnnotationCiliumAffinity = affinityValue role"

abbreviation rw_key :: "Ref \<Rightarrow> NamespacedName" where
  "rw_key ref \<equiv> nn (ref_Namespace ref) (ref_Name ref @ ''-rw'')"

lemma fence_plan_settled: "fence_plan L ref u = Inr None \<Longrightarrow> all_fenced L u"
  by (auto simp: fence_plan_def all_fenced_def split: if_splits)

lemma flip_plan_settled: "flip_plan role E ref u = Inr None \<Longrightarrow> serves role u"
  by (auto simp: flip_plan_def serves_def split: if_splits)

lemma four_steps_post:
  assumes "store_laws E srv" and "unstructured_laws E" and "not_found_wraps E"
    and "run_state (four_steps E c ref d ref') s = (Ok (), t)"
  shows "\<exists>v. fst (get_cluster E d (ref_key ref') (world t)) = Inr v \<and> in_primary_mode E v"
    and "\<exists>v. fst (get_service E d (rw_key ref') (world t)) = Inr v \<and> serves RoleLocal v"
    and "(srv c, ref) \<noteq> (srv d, ref') \<Longrightarrow>
      holds_or_missing E (fst (get_cluster E c (ref_key ref) (world t))) (all_fenced E) \<and>
      holds_or_missing E (fst (get_service E c (rw_key ref) (world t))) (serves RoleRemote)"
proof -
  from four_steps_Ok [OF assms(4)] obtain x1 s1 x2 s2 s3 where r1: "run_state (Fence E c ref) s = (x1, s1)"
    and ok1: "x1 = Ok () \<or> (\<exists>e. x1 = Err e \<and> isNotFound E e)"
    and r2: "run_state (FlipCiliumService E c ref RoleRemote) s1 = (x2, s2)"
    and ok2: "x2 = Ok () \<or> (\<exists>e. x2 = Err e \<and> isNotFound E e)"
    and r3: "run_state (Promote E d ref') s2 = (Ok (), s3)"
    and r4: "run_state (FlipCiliumService E d ref' RoleLocal) s3 = (Ok (), t)" by metis
  note st = store_faithful [OF assms(1)]
  have "\<exists>v. fst (get_cluster E d (ref_key ref') (world s3)) = Inr v \<and> in_primary_mode E v"
    using promote_step.success_settled [OF st(1) assms(2) r3] promote_plan_None by blast
  then show "\<exists>v. fst (get_cluster E d (ref_key ref') (world t)) = Inr v \<and> in_primary_mode E v"
    using service_step_frame(2) [OF assms(1) r4] by simp
  show "\<exists>v. fst (get_service E d (rw_key ref') (world t)) = Inr v \<and> serves RoleLocal v"
    using flip_step.success_settled [OF st(2) assms(2) r4] by (auto intro: flip_plan_settled)
  assume ne: "(srv c, ref) \<noteq> (srv d, ref')"
  then have k: "(srv c, ref_key ref) \<noteq> (srv d, ref_key ref')" "(srv c, rw_key ref) \<noteq> (srv d, rw_key ref')"
    by (auto simp: ref_key_def)
  have f: "holds_or_missing E (fst (get_cluster E c (ref_key ref) (world s1))) (all_fenced E)"
    using ok1
  proof
    assume "x1 = Ok ()"
    with fence_step.success_settled [OF st(1) assms(2)] r1 fence_plan_settled show ?thesis
      by (fastforce simp: holds_or_missing_def)
  next
    assume "\<exists>e. x1 = Err e \<and> isNotFound E e"
    with fence_not_found [OF assms(1,3)] r1 show ?thesis by (fastforce simp: holds_or_missing_def)
  qed
  have g: "holds_or_missing E (fst (get_service E c (rw_key ref) (world s2))) (serves RoleRemote)"
    using ok2
  proof
    assume "x2 = Ok ()"
    with flip_step.success_settled [OF st(2) assms(2)] r2 flip_plan_settled show ?thesis
      by (fastforce simp: holds_or_missing_def)
  next
    assume "\<exists>e. x2 = Err e \<and> isNotFound E e"
    with flip_not_found [OF assms(1,3)] r2 show ?thesis by (fastforce simp: holds_or_missing_def)
  qed
  have "fst (get_cluster E c (ref_key ref) (world t)) = fst (get_cluster E c (ref_key ref) (world s1))"
    using service_step_frame(2) [OF assms(1)] cluster_step_frame(1) [OF assms(1)] r2 r3 r4 k(1) by metis
  moreover have "fst (get_service E c (rw_key ref) (world t)) = fst (get_service E c (rw_key ref) (world s2))"
    using service_step_frame(1) [OF assms(1)] cluster_step_frame(2) [OF assms(1)] r3 r4 k(2) by metis
  ultimately show "holds_or_missing E (fst (get_cluster E c (ref_key ref) (world t))) (all_fenced E) \<and>
      holds_or_missing E (fst (get_service E c (rw_key ref) (world t))) (serves RoleRemote)"
    using f g by simp
qed

lemma four_steps_clients:
  assumes "run_state (four_steps E c ref d ref') s = (Ok (), t)"
  shows "clients t = clients s"
proof -
  from four_steps_Ok [OF assms] obtain x1 s1 x2 s2 s3 where "run_state (Fence E c ref) s = (x1, s1)"
    "run_state (FlipCiliumService E c ref RoleRemote) s1 = (x2, s2)"
    "run_state (Promote E d ref') s2 = (Ok (), s3)"
    "run_state (FlipCiliumService E d ref' RoleLocal) s3 = (Ok (), t)" by metis
  then show ?thesis
    by (elim fence_step.only_world promote_step.only_world flip_step.only_world) simp
qed

section \<open>Properties\<close>


text \<open>Requests \<open>runPromotion\<close> refuses outright: an empty old primary, an old primary equal to the
  target, or an old primary that is no site of the spec gives an error and makes no call at all.\<close>

lemma runPromotion_refuses:
  assumes "old = [] \<or> old = rs_Name target \<or> old \<notin> set (site_names (ha_Spec ha))"
  shows "\<exists>e. run_state (runPromotion E r ha old target) s = (Err e, s)"
proof -
  have "run_state (siteClientAndRef E r ha old) s = (None, s)"
    if "old \<notin> set (site_names (ha_Spec ha))"
  proof -
    from that have "find (\<lambda>rep. rs_Name rep = old) (spec_replicas ha) = None"
      by (auto simp: site_names_def find_None_iff)
    with that show ?thesis by (simp add: siteClientAndRef_def site_names_def)
  qed
  with assms show ?thesis by (auto simp: runPromotion_def)
qed


section \<open>Witnesses\<close>

definition demo_tmem :: "i64 \<Rightarrow> (rworld \<times> nat event list, nat) rmem" where
  "demo_tmem instances = \<lparr>world = (demo_world instances, []), clients = NewCache, failCount = None\<rparr>"

abbreviation demo_manual :: HACluster where
  "demo_manual \<equiv> demo_ha ''Manual'' ''Ordered'' [(''ha.cnpg.io/promote'', ''b'')] ''a''"

abbreviation demo_b :: ReplicaSite where
  "demo_b \<equiv> demo_replica ''b'' ''site-b'' ''b''"

lemma demo_promotion_writes:
  "list_ex site_write (trace (snd (run_state (runPromotion (traced ref_env) demo_rec demo_manual ''a'' demo_b) (demo_tmem 1))))"
  by code_simp


lemma demo_promotion_runs:
  "fst (run_state (runPromotion ref_env demo_rec demo_manual ''a'' demo_b) (demo_rmem 1)) = Ok ()"
  by code_simp


end
