(* ===== verification/Failover_Handlers.thy ===== *)
theory Failover_Handlers
  imports Promotion_Sequence
begin

text \<open>
  What the two handlers guarantee: when automatic failover may act and when it has to, how the
  failure counter drives it over several reconciles, when the promote annotation is honoured,
  and what a handler leaves in the HACluster object after success and after failure.
\<close>

section \<open>Automatic failover: the shape of a run\<close>

definition current_name :: "HACluster \<Rightarrow> string" where
  "current_name ha = (if CurrentPrimarySite (ha_Status ha) = [] then ps_Name (spec_primary ha)
     else CurrentPrimarySite (ha_Status ha))"

definition primary_healthy :: "HACluster \<Rightarrow> siteObservation \<Rightarrow> siteObservation list \<Rightarrow> bool" where
  "primary_healthy ha p rs =
     (case findObservation (current_name ha) p rs of None \<Rightarrow> False | Some ob \<Rightarrow> primary_ready ob)"

text \<open>Everything before the promotion itself: which branch a run takes.\<close>

datatype verdict = Idle | Pending | NoCandidate | Broken string | Promoting ReplicaSite

definition verdict_of ::
  "HACluster \<Rightarrow> siteObservation \<Rightarrow> siteObservation list \<Rightarrow> bool \<Rightarrow> i64 \<Rightarrow> verdict" where
  "verdict_of ha p rs cooling n =
     (if fo_Mode (spec_failover ha) \<noteq> FailoverModeAutomatic \<or> detectSplitBrain p rs \<noteq> [] \<or> cooling \<or>
         primary_healthy ha p rs then Idle
      else if sint n < sint (effectiveFailureThreshold (spec_failover ha)) then Pending
      else case chooseTarget ha rs (current_name ha) of
        Ok None \<Rightarrow> NoCandidate
      | Ok (Some (target, _)) \<Rightarrow> Promoting target
      | Err e \<Rightarrow> Broken (err_text e)
      | Panic m \<Rightarrow> Broken m)"

lemma logs_in_cooldown: "(\<And>t. P (ReadClock t)) \<Longrightarrow> relates (logs P) (in_cooldown (traced E) ha)"
  unfolding in_cooldown_def traced_env by (intro log.relates_rules logs_call)

lemma in_cooldown_frame:
  assumes "run_state (in_cooldown E ha) (s :: ('w, 'c, 'x) rmem_scheme) = (b, t)"
  shows "failCount t = failCount s" and "clients t = clients s"
  using assms by (auto simp: in_cooldown_def split: option.splits prod.splits)

lemma choose_never_Err: "chooseTarget ha obs f \<noteq> Err e"
proof -
  have "choose_loop ma obs f reps i b \<noteq> Err e" for ma reps i b
    by (cases ma; induction reps arbitrary: i b; simp add: Let_def split: option.splits)
  then show ?thesis by (auto simp: chooseTarget_def Let_def split: res.splits option.splits)
qed

lemma handleAutomaticFailover_cases:
  assumes "run_state (handleAutomaticFailover E r ha p rs) s = ((ha', res), t)"
    and "fo_Mode (spec_failover ha) = FailoverModeAutomatic" and "detectSplitBrain p rs = []"
    and "run_state (in_cooldown E ha) s = (cooling, s1)"
  shows "case verdict_of ha p rs cooling (fail_count s (ha_key ha) + 1) of
      Idle \<Rightarrow> ha' = ha \<and> res = Ok no_effect \<and> run_state (resetFailCount (ha_key ha)) s1 = ((), t)
    | Pending \<Rightarrow> ha' = ha \<and> res = Ok no_effect \<and>
        (\<exists>msg. run_state (event_of E r ha EventTypeWarning eventReasonPrimaryUnhealthy msg)
           (snd (run_state (bumpFailCount (ha_key ha)) s1)) = ((), t))
    | NoCandidate \<Rightarrow> ha' = ha \<and> res = Ok no_effect \<and>
        (\<exists>msg. run_state (event_of E r ha EventTypeWarning eventReasonAutoFailoverNoCandidate msg)
           (snd (run_state (bumpFailCount (ha_key ha)) s1)) = ((), t))
    | Broken m \<Rightarrow> ha' = ha \<and> res = Panic m \<and> t = snd (run_state (bumpFailCount (ha_key ha)) s1)
    | Promoting target \<Rightarrow>
        run_state (automatic_promotion E r ha (current_name ha) target (fail_count s (ha_key ha) + 1)
            (effectiveFailureThreshold (spec_failover ha)))
          (snd (run_state (bumpFailCount (ha_key ha)) s1)) = ((ha', res), t)"
proof -
  have c1: "fail_count s1 k = fail_count s k" for k
    using in_cooldown_frame [OF assms(4)] by (simp add: fail_count_def)
  have h: "(case findObservation (current_name ha) p rs of None \<Rightarrow> False
      | Some ob \<Rightarrow> o_reachable ob \<and> o_primary ob \<and> o_ready ob) = primary_healthy ha p rs"
    by (simp add: primary_healthy_def primary_ready_def split: option.splits)
  obtain n s2 where b: "run_state (bumpFailCount (ha_key ha)) s1 = (n, s2)" by fastforce
  then have n: "n = fail_count s (ha_key ha) + 1"
    using fails.bump_result [of "ha_key ha" s1] c1 by simp
  note run = assms(1) [unfolded handleAutomaticFailover_def current_name_def [symmetric] h Let_def]
  show ?thesis
  proof (cases "cooling \<or> primary_healthy ha p rs")
    case True
    with run assms(2-4) show ?thesis
      by (cases cooling) (auto simp: verdict_of_def split: prod.splits)
  next
    case False
    show ?thesis
    proof (cases "sint n < sint (effectiveFailureThreshold (spec_failover ha))")
      case True
      with False run assms(2-4) b n show ?thesis
        by (auto simp: verdict_of_def split: prod.splits)
    next
      case big: False
      show ?thesis
      proof (cases "chooseTarget ha rs (current_name ha)")
        case (Ok x)
        with False big run assms(2-4) b n show ?thesis
          by (cases x) (auto simp: verdict_of_def split: prod.splits)
      next
        case (Err e)
        then show ?thesis using choose_never_Err by blast
      next
        case (Panic m)
        with False big run assms(2-4) b n show ?thesis by (auto simp: verdict_of_def)
      qed
    qed
  qed
qed

section \<open>Automatic failover: the calls of a run\<close>

lemma logs_Fence:
  "(\<And>c k r. P (GotCluster c k r)) \<Longrightarrow> (\<And>c k v r. P (PutCluster c k v r)) \<Longrightarrow>
   relates (logs P) (Fence (traced E) c ref)"
  unfolding Fence_def Let_def traced_env traced_lib by (intro log.relates_rules logs_call)

lemma logs_runPromotion: "relates (logs (\<lambda>_. True)) (runPromotion (traced E) r ha old target)"
  unfolding runPromotion_def Let_def
  by (intro log.relates_rules logs_siteClientAndRef logs_GetOrCreate logs_best_effort logs_strict_step
      logs_Fence logs_flip logs_promote TrueI)

lemma logs_automatic_promotion:
  "relates (logs (\<lambda>_. True)) (automatic_promotion (traced E) r ha cur target n th)"
  unfolding automatic_promotion_def
  by (intro log.relates_rules logs_event logs_bookkeeping logs_runPromotion logs_counters logs_metrics TrueI)
     (simp_all only: traced_env, intro logs_call TrueI, intro logs_call TrueI)

lemma in_cooldown_log:
  assumes "run_state (in_cooldown (traced E) ha) s = (cooling, s1)"
  shows "(LastFailoverTime (ha_Status ha) = None \<and> s1 = s \<and> \<not> cooling) \<or>
    (\<exists>lf now. LastFailoverTime (ha_Status ha) = Some lf \<and> trace s1 = trace s @ [ReadClock now] \<and>
       cooling = (sint (time_sub now lf) < sint (stabilizationCooldown (spec_failover ha))))"
  using assms
  by (auto simp: in_cooldown_def tr_def trace_def split: option.splits prod.splits)

lemma trace_counters [simp]:
  "trace (snd (run_state (bumpFailCount k) s)) = trace s" "trace (snd (run_state (resetFailCount k) s)) = trace s"
  by (simp_all add: run_bumpFailCount run_resetFailCount trace_def)

lemma quiet_event: "relates (logs quiet) (event_of (traced E) r ha ty rs msg)"
  by (rule logs_event) simp

text \<open>A run that does not promote writes to no site.\<close>

lemma no_promotion_quiet:
  assumes "run_state (handleAutomaticFailover (traced E) r ha p rs) s = ((ha', res), t)"
    and "fo_Mode (spec_failover ha) = FailoverModeAutomatic" and "detectSplitBrain p rs = []"
    and "run_state (in_cooldown (traced E) ha) s = (cooling, s1)"
    and "verdict_of ha p rs cooling (fail_count s (ha_key ha) + 1) = v" and "\<forall>tg. v \<noteq> Promoting tg"
  shows "logs quiet s t \<and> (res = Ok no_effect \<or> (\<exists>m. v = Broken m))"
proof -
  have q: "logs quiet s s1"
    using relates_run [OF logs_in_cooldown assms(4)] by simp
  then have q': "logs quiet s (snd (run_state (bumpFailCount (ha_key ha)) s1))"
    and q'': "logs quiet s (snd (run_state (resetFailCount (ha_key ha)) s1))" by (simp_all add: logs_def)
  have ev: "logs quiet s t" if "run_state (event_of (traced E) r ha EventTypeWarning rs' msg)
      (snd (run_state (bumpFailCount (ha_key ha)) s1)) = ((), t)" for rs' msg
    using log.seq [OF q' relates_run [OF quiet_event that]] .
  note c = handleAutomaticFailover_cases [OF assms(1-4), unfolded assms(5)]
  show ?thesis
  proof (cases v)
    case Idle
    with c have "res = Ok no_effect \<and> snd (run_state (resetFailCount (ha_key ha)) s1) = t" by simp
    with q'' show ?thesis by auto
  next
    case Pending
    with c ev show ?thesis by auto
  next
    case NoCandidate
    with c ev show ?thesis by auto
  next
    case (Broken m)
    with c q' show ?thesis by auto
  next
    case (Promoting tg)
    with assms(6) show ?thesis by blast
  qed
qed

section \<open>What a handler leaves behind\<close>

text \<open>Everything but world and client cache, in particular the failure counters, is untouched.\<close>

definition keeps_rest :: "('w, 'c, 'x) cmem_scheme \<Rightarrow> ('w, 'c, 'x) cmem_scheme \<Rightarrow> bool" where
  "keeps_rest s t \<longleftrightarrow> cmem.more t = cmem.more s"

interpretation rest: run_relation keeps_rest
  by unfold_locales (auto simp: keeps_rest_def)

lemma keeps_call: "relates keeps_rest (call f)" "relates keeps_rest (notify g)"
  by (auto simp: relates_def wp_simps keeps_rest_def split: prod.splits)

lemma keeps_GetOrCreate: "relates keeps_rest (GetOrCreate E hub ns sel)"
  unfolding relates_def keeps_rest_def wp_iff_run by (intro allI impI) (rule GetOrCreate_frame(1))

lemma keeps_runPromotion: "relates keeps_rest (runPromotion E r ha old target)"
  unfolding runPromotion_def siteClientAndRef_def best_effort_def strict_step_def Fence_def Promote_def
    FlipCiliumService_def Let_def
  by (intro rest.relates_rules keeps_call keeps_GetOrCreate)

lemma keeps_rest_fail_count:
  assumes "keeps_rest (s :: ('w, 'c, 'x) rmem_scheme) t"
  shows "fail_count t k = fail_count s k"
  using assms by (cases s; cases t) (simp add: keeps_rest_def fail_count_def)

lemma keeps_event: "relates keeps_rest (event_of E r ha ty rs msg)"
  unfolding event_of_def by (intro rest.relates_rules keeps_call)

lemma keeps_bookkeeping:
  "relates keeps_rest (setFailoverInProgress E ha b tg)" "relates keeps_rest (clearPromoteAnnotation E r ha)"
  "relates keeps_rest (record_failover E ha tg)"
  "relates keeps_rest (IncFailover E ns nm m)" "relates keeps_rest (ObserveFailoverDuration E ns nm m d)"
  unfolding setFailoverInProgress_def clearPromoteAnnotation_def record_failover_def IncFailover_def
    ObserveFailoverDuration_def Let_def
  by (intro rest.relates_rules keeps_call)+

text \<open>The object with one condition set, and nothing else changed.\<close>

definition with_condition :: "'x lib_scheme \<Rightarrow> HACluster \<Rightarrow> Condition \<Rightarrow> HACluster" where
  "with_condition L ha cond = ha\<lparr>ha_Status := (ha_Status ha)\<lparr>Conditions :=
     setStatusCondition L (Conditions (ha_Status ha)) cond\<rparr>\<rparr>"

lemma with_condition_simps [simp]:
  "ha_Annotations (with_condition L ha c) = ha_Annotations ha" "ha_Spec (with_condition L ha c) = ha_Spec ha"
  "ha_Name (with_condition L ha c) = ha_Name ha" "ha_Namespace (with_condition L ha c) = ha_Namespace ha"
  "CurrentPrimarySite (ha_Status (with_condition L ha c)) = CurrentPrimarySite (ha_Status ha)"
  "LastFailoverTime (ha_Status (with_condition L ha c)) = LastFailoverTime (ha_Status ha)"
  by (simp_all add: with_condition_def)

definition failover_condition :: "bool \<Rightarrow> Condition \<Rightarrow> bool" where
  "failover_condition b c \<longleftrightarrow> cond_Type c = conditionFailoverInProgress \<and>
     cond_Status c = (if b then ConditionTrue else ConditionFalse)"

lemma with_condition_found:
  assumes "condition_laws L" and "failover_condition b c"
  shows "\<exists>d. find_cond (Conditions (ha_Status (with_condition L ha c))) conditionFailoverInProgress = Some d \<and>
    cond_Status d = (if b then ConditionTrue else ConditionFalse)"
proof -
  obtain d where "find_cond (setStatusCondition L (Conditions (ha_Status ha)) c) (cond_Type c) = Some d"
    "cond_Status d = cond_Status c"
    using assms(1) unfolding condition_laws_def by blast
  with assms(2) show ?thesis by (simp add: failover_condition_def with_condition_def)
qed

lemma run_setFailoverInProgress:
  assumes "run_state (setFailoverInProgress E ha b tg) s = (h, t)"
  obtains c where "failover_condition b c" and "h = with_condition E ha c"
proof -
  obtain now w where n: "now_time E (world s) = (now, w)" by fastforce
  let ?auto = "fo_Mode (spec_failover ha) = FailoverModeAutomatic"
  let ?c = "\<lparr>cond_Type = conditionFailoverInProgress,
    cond_Status = (if b then ConditionTrue else ConditionFalse),
    cond_ObservedGeneration = ha_Generation ha, cond_LastTransitionTime = now,
    cond_Reason = (if b then if ?auto then ''AutomaticPromotion'' else ''ManualPromotion'' else ''Idle''),
    cond_Message = (if b then ''promoting site '' @ fmt_q tg @ (if ?auto then '' (automatic)'' else '' (manual)'')
      else ''no failover in progress'')\<rparr>"
  from assms n have "h = with_condition E ha ?c"
    unfolding setFailoverInProgress_def with_condition_def Let_def by simp
  moreover have "failover_condition b ?c" by (simp add: failover_condition_def)
  ultimately show thesis using that by blast
qed

lemma run_record_failover:
  assumes "run_state (record_failover E ha tg) s = (h, t)"
  obtains c now where "failover_condition False c"
    and "h = with_condition E (ha\<lparr>ha_Status := (ha_Status ha)\<lparr>CurrentPrimarySite := tg, LastFailoverTime := Some now\<rparr>\<rparr>) c"
proof -
  obtain now w where n: "now_time E (world s) = (now, w)" by fastforce
  with assms have "run_state (setFailoverInProgress E (ha\<lparr>ha_Status := (ha_Status ha)\<lparr>CurrentPrimarySite := tg,
      LastFailoverTime := Some now\<rparr>\<rparr>) False []) (s\<lparr>world := w\<rparr>) = (h, t)"
    by (simp add: record_failover_def)
  from run_setFailoverInProgress [OF this] that show thesis by metis
qed

lemma runPromotion_Ok_names:
  assumes "run_state (runPromotion E r ha old target) s = (Ok (), t)"
  shows "old \<noteq> []" and "old \<noteq> rs_Name target"
  using runPromotion_cases [OF assms] by auto

lemma runPromotion_no_panic: "run_state (runPromotion E r ha old target) s \<noteq> (Panic m, t)"
proof
  assume run: "run_state (runPromotion E r ha old target) s = (Panic m, t)"
  from runPromotion_cases [OF run] obtain c ref d s2 where
    four: "run_state (four_steps E c ref d (cluster_ref (rs_ClusterRef target))) s2 = (Panic m, t)" by auto
  have "wp (four_steps E c ref d ref') (\<lambda>x t. \<forall>m. x \<noteq> Panic m) u" for ref' u
  proof -
    have np: "wp (Fence E c ref) (\<lambda>x t. \<forall>m. x \<noteq> Panic m) u" "wp (Promote E c ref) (\<lambda>x t. \<forall>m. x \<noteq> Panic m) u"
      "wp (FlipCiliumService E c ref role) (\<lambda>x t. \<forall>m. x \<noteq> Panic m) u" for c ref role u
      unfolding wp_iff_run
      by (auto simp: fence_step.never_panics promote_step.never_panics flip_step.never_panics)
    have last: "wp (strict_step a (FlipCiliumService E d ref' RoleLocal) (State_Monad.return (Ok ())))
        (\<lambda>x t. \<forall>m. x \<noteq> Panic m) u" for a u
      unfolding wp_strict_step by (rule wp_mono [OF np(3)]) (auto simp: wp_simps split: res.splits)
    have prom: "wp (strict_step b (Promote E d ref') (strict_step a (FlipCiliumService E d ref' RoleLocal)
        (State_Monad.return (Ok ())))) (\<lambda>x t. \<forall>m. x \<noteq> Panic m) u" for a b u
      by (subst wp_strict_step) (rule wp_mono [OF np(2)], auto simp: last split: res.splits)
    have flip: "wp (best_effort E e (FlipCiliumService E c ref RoleRemote) (strict_step b (Promote E d ref')
        (strict_step a (FlipCiliumService E d ref' RoleLocal) (State_Monad.return (Ok ())))))
        (\<lambda>x t. \<forall>m. x \<noteq> Panic m) u" for a b e u
      by (subst wp_best_effort) (rule wp_mono [OF np(3)], auto simp: prom split: res.splits)
    show ?thesis
      unfolding four_steps_def
      by (subst wp_best_effort) (rule wp_mono [OF np(1)], auto simp: flip split: res.splits)
  qed
  from wp_run [OF this four] show False by simp
qed

text \<open>The object after a recorded failover.\<close>

definition failed_over :: "'x lib_scheme \<Rightarrow> HACluster \<Rightarrow> string \<Rightarrow> HACluster \<Rightarrow> bool" where
  "failed_over L ha tg h \<longleftrightarrow> CurrentPrimarySite (ha_Status h) = tg \<and> LastFailoverTime (ha_Status h) \<noteq> None \<and>
     (condition_laws L \<longrightarrow> (\<exists>d. find_cond (Conditions (ha_Status h)) conditionFailoverInProgress = Some d \<and>
        cond_Status d = ''False''))"

lemma record_failover_failed_over:
  assumes "run_state (record_failover E ha tg) s = (h, t)"
  shows "failed_over E ha tg h" and "ha_Annotations h = ha_Annotations ha" and "ha_Spec h = ha_Spec ha"
    and "ha_key h = ha_key ha"
proof -
  from run_record_failover [OF assms] obtain c now where c: "failover_condition False c"
    "h = with_condition E (ha\<lparr>ha_Status := (ha_Status ha)\<lparr>CurrentPrimarySite := tg, LastFailoverTime := Some now\<rparr>\<rparr>) c"
    by metis
  then show "failed_over E ha tg h" using with_condition_found by (fastforce simp: failed_over_def)
  from c show "ha_Annotations h = ha_Annotations ha" "ha_Spec h = ha_Spec ha" "ha_key h = ha_key ha" by simp_all
qed

text \<open>The object after a failed attempt: only the condition may differ.\<close>

definition same_but_conditions :: "HACluster \<Rightarrow> HACluster \<Rightarrow> bool" where
  "same_but_conditions ha h \<longleftrightarrow> (\<exists>cs. h = ha\<lparr>ha_Status := (ha_Status ha)\<lparr>Conditions := cs\<rparr>\<rparr>)"

lemma same_but_conditions_refl [simp]: "same_but_conditions ha ha"
  unfolding same_but_conditions_def by (rule exI [of _ "Conditions (ha_Status ha)"]) simp

lemma same_but_conditions_set:
  assumes "same_but_conditions ha h" and "run_state (setFailoverInProgress E h b tg) s = (h', t)"
  shows "same_but_conditions ha h'"
proof -
  from run_setFailoverInProgress [OF assms(2)] obtain c where "h' = with_condition E h c" by blast
  with assms(1) show ?thesis by (auto simp: same_but_conditions_def with_condition_def)
qed

lemma same_but_conditionsD:
  assumes "same_but_conditions ha h"
  shows "ha_key h = ha_key ha" "ha_Spec h = ha_Spec ha" "ha_Annotations h = ha_Annotations ha"
    "CurrentPrimarySite (ha_Status h) = CurrentPrimarySite (ha_Status ha)"
    "LastFailoverTime (ha_Status h) = LastFailoverTime (ha_Status ha)"
  using assms by (auto simp: same_but_conditions_def)

lemma run_automatic_promotion:
  assumes "run_state (automatic_promotion E r ha cur tg n th) (s :: ('w, 'c, 'x) rmem_scheme) = ((h, res), t)"
  shows "(res = Ok \<lparr>demoted = cur, promoted = rs_Name tg\<rparr> \<and> cur \<noteq> [] \<and> failed_over E ha (rs_Name tg) h \<and>
       fail_count t (ha_key ha) = 0) \<or>
     (\<exists>e. res = Err e \<and> same_but_conditions ha h \<and> (\<forall>k. fail_count t k = fail_count s k))"
proof -
  let ?m0 = "''promoting site '' @ fmt_q (rs_Name tg) @ '' to primary (automatic, primary '' @ fmt_q cur @
        '' unhealthy '' @ show_int (sint n) @ ''/'' @ show_int (sint th) @ '')''"
  obtain u1 where r1: "run_state (event_of E r ha EventTypeNormal eventReasonFailoverStarted ?m0) s = ((), u1)"
    by (cases "run_state (event_of E r ha EventTypeNormal eventReasonFailoverStarted ?m0) s") simp
  obtain h1 u2 where r2: "run_state (setFailoverInProgress E ha True (rs_Name tg)) u1 = (h1, u2)" by fastforce
  obtain start u3 where r3: "run_state (call (now_time E)) u2 = (start, u3)" by fastforce
  obtain x u4 where r4: "run_state (runPromotion E r h1 cur tg) u3 = (x, u4)" by fastforce
  have k: "keeps_rest s u4"
    using rest.seq relates_run [OF keeps_event r1] relates_run [OF keeps_bookkeeping(1) r2]
      relates_run [OF keeps_call(1) r3] relates_run [OF keeps_runPromotion r4] by metis
  have sc: "same_but_conditions ha h1" by (rule same_but_conditions_set [OF _ r2]) simp
  note hd = same_but_conditionsD [OF sc]
  show ?thesis
  proof (cases x)
    case (Panic m)
    with r4 runPromotion_no_panic show ?thesis by blast
  next
    case (Err e)
    let ?m1 = "''automatic promotion of '' @ fmt_q (rs_Name tg) @ '' failed: '' @ err_text e"
    obtain u5 where r5: "run_state (event_of E r h1 EventTypeWarning eventReasonFailoverFailed ?m1) u4 = ((), u5)"
      by (cases "run_state (event_of E r h1 EventTypeWarning eventReasonFailoverFailed ?m1) u4") simp
    obtain h2 u6 where r6: "run_state (setFailoverInProgress E h1 False []) u5 = (h2, u6)" by fastforce
    have "h = h2" "t = u6" "\<exists>e. res = Err e"
      using assms r1 r2 r3 r4 r5 r6 Err by (auto simp: automatic_promotion_def)
    moreover have "keeps_rest s u6"
      using rest.seq k relates_run [OF keeps_event r5] relates_run [OF keeps_bookkeeping(1) r6] by metis
    ultimately show ?thesis
      using same_but_conditions_set [OF sc r6] keeps_rest_fail_count by blast
  next
    case (Ok y)
    obtain stop u5 where r5: "run_state (call (now_time E)) u4 = (stop, u5)" by fastforce
    obtain u6 where r6: "run_state (ObserveFailoverDuration E (ha_Namespace h1) (ha_Name h1) ''automatic''
        (Seconds (time_sub stop start))) u5 = ((), u6)" by (simp add: ObserveFailoverDuration_def)
    obtain h2 u7 where r7: "run_state (record_failover E h1 (rs_Name tg)) u6 = (h2, u7)" by fastforce
    let ?m2 = "''site '' @ fmt_q (rs_Name tg) @ '' is now primary (automatic)''"
    obtain u8 where r8: "run_state (event_of E r h2 EventTypeNormal eventReasonFailoverCompleted ?m2) u7 = ((), u8)"
      by (cases "run_state (event_of E r h2 EventTypeNormal eventReasonFailoverCompleted ?m2) u7") simp
    obtain u9 where r9: "run_state (IncFailover E (ha_Namespace h2) (ha_Name h2) ''automatic'') u8 = ((), u9)"
      by (simp add: IncFailover_def)
    have "h = h2" "t = snd (run_state (resetFailCount (ha_key h2)) u9)" "res = Ok \<lparr>demoted = cur, promoted = rs_Name tg\<rparr>"
      using assms r1 r2 r3 r4 r5 r6 r7 r8 r9 Ok by (auto simp: automatic_promotion_def split: prod.splits)
    moreover have "ha_key h2 = ha_key ha" "failed_over E ha (rs_Name tg) h2"
      using record_failover_failed_over [OF r7] hd by (simp_all add: failed_over_def)
    moreover have "cur \<noteq> []" using r4 Ok by (auto dest: runPromotion_Ok_names(1))
    ultimately show ?thesis by (auto simp: fails.reset_count)
  qed
qed

section \<open>The promote annotation\<close>

lemma run_clearPromoteAnnotation:
  assumes "run_state (clearPromoteAnnotation E r ha) s = ((h, err), t)"
  shows "(err = None \<and> map_of (ha_Annotations h) annotationPromote = None) \<or>
    (\<exists>e. err = Some e \<and> h = ha)"
  using assms by (auto simp: clearPromoteAnnotation_def split: if_splits sum.splits prod.splits)

lemma run_manual_promotion:
  assumes "run_state (manual_promotion E r ha target rep old nm) s = ((h, res), t)"
  shows "(res = Ok \<lparr>demoted = old, promoted = nm\<rparr> \<and> old \<noteq> [] \<and> old \<noteq> rs_Name rep \<and> failed_over E ha target h \<and>
       map_of (ha_Annotations h) annotationPromote = None) \<or>
     (\<exists>e. res = Err e \<and> same_but_conditions ha h)"
proof -
  let ?m0 = "''promoting site '' @ fmt_q target @ '' to primary (manual)''"
  obtain u1 where r1: "run_state (event_of E r ha EventTypeNormal eventReasonFailoverStarted ?m0) s = ((), u1)"
    by (cases "run_state (event_of E r ha EventTypeNormal eventReasonFailoverStarted ?m0) s") simp
  obtain h1 u2 where r2: "run_state (setFailoverInProgress E ha True target) u1 = (h1, u2)" by fastforce
  obtain start u3 where r3: "run_state (call (now_time E)) u2 = (start, u3)" by fastforce
  obtain x u4 where r4: "run_state (runPromotion E r h1 old rep) u3 = (x, u4)" by fastforce
  have sc: "same_but_conditions ha h1" by (rule same_but_conditions_set [OF _ r2]) simp
  show ?thesis
  proof (cases x)
    case (Panic m)
    with r4 runPromotion_no_panic show ?thesis by blast
  next
    case (Err e)
    let ?m1 = "''promotion of '' @ fmt_q target @ '' failed: '' @ err_text e"
    obtain u5 where r5: "run_state (event_of E r h1 EventTypeWarning eventReasonFailoverFailed ?m1) u4 = ((), u5)"
      by (cases "run_state (event_of E r h1 EventTypeWarning eventReasonFailoverFailed ?m1) u4") simp
    obtain h2 u6 where r6: "run_state (setFailoverInProgress E h1 False []) u5 = (h2, u6)" by fastforce
    have "h = h2" "\<exists>e. res = Err e"
      using assms r1 r2 r3 r4 r5 r6 Err by (auto simp: manual_promotion_def finish_manual_def)
    then show ?thesis using same_but_conditions_set [OF sc r6] by blast
  next
    case (Ok y)
    obtain stop u5 where r5: "run_state (call (now_time E)) u4 = (stop, u5)" by fastforce
    obtain u6 where r6: "run_state (ObserveFailoverDuration E (ha_Namespace h1) (ha_Name h1) ''manual''
        (Seconds (time_sub stop start))) u5 = ((), u6)" by (simp add: ObserveFailoverDuration_def)
    obtain h2 cerr u7 where r7: "run_state (clearPromoteAnnotation E r h1) u6 = ((h2, cerr), u7)" by (metis prod.exhaust)
    note cl = run_clearPromoteAnnotation [OF r7]
    show ?thesis
    proof (cases cerr)
      case (Some e)
      have "h = h2" "\<exists>e. res = Err e"
        using assms r1 r2 r3 r4 r5 r6 r7 Ok Some by (auto simp: manual_promotion_def finish_manual_def)
      with cl sc Some show ?thesis by auto
    next
      case None
      obtain h3 u8 where r8: "run_state (record_failover E h2 target) u7 = (h3, u8)" by fastforce
      let ?m2 = "''site '' @ fmt_q target @ '' is now primary''"
      obtain u9 where r9: "run_state (event_of E r h3 EventTypeNormal eventReasonFailoverCompleted ?m2) u8 = ((), u9)"
        by (cases "run_state (event_of E r h3 EventTypeNormal eventReasonFailoverCompleted ?m2) u8") simp
      have "h = h3" "res = Ok \<lparr>demoted = old, promoted = nm\<rparr>"
        using assms r1 r2 r3 r4 r5 r6 r7 r8 r9 Ok None by (auto simp: manual_promotion_def finish_manual_def split: prod.splits)
      moreover have "old \<noteq> []" "old \<noteq> rs_Name rep" using r4 Ok by (auto dest: runPromotion_Ok_names)
      ultimately show ?thesis
        using record_failover_failed_over [OF r8] cl None by (auto simp: failed_over_def)
    qed
  qed
qed

text \<open>The conditions under which a promote annotation is honoured.\<close>

definition promote_granted ::
  "HACluster \<Rightarrow> siteObservation \<Rightarrow> siteObservation list \<Rightarrow> string \<Rightarrow> ReplicaSite \<Rightarrow> nat \<Rightarrow> string \<Rightarrow> bool" where
  "promote_granted ha p rs target rep i old \<longleftrightarrow>
     map_of (ha_Annotations ha) annotationPromote = Some target \<and> fo_Mode (spec_failover ha) = ''Manual'' \<and>
     findReplica ha target = Some (rep, i) \<and> i < length rs \<and> healthy_replica (rs ! i) \<and>
     currentPrimaryForPromotion ha p rs = Inr old"

lemma handlePromoteAnnotation_cases:
  assumes "run_state (handlePromoteAnnotation E r ha p rs) s = ((ha', res), t)"
  shows "(map_of (ha_Annotations ha) annotationPromote = None \<and> ha' = ha \<and> res = Ok no_effect \<and> t = s) \<or>
    (\<exists>m. ha' = ha \<and> res = Panic m \<and> t = s \<and>
       (\<exists>target rep i. findReplica ha target = Some (rep, i) \<and> length rs \<le> i)) \<or>
    (\<exists>msg. run_state (reject_promote E r ha msg) s = ((ha', res), t) \<and>
       (\<forall>target rep i old. \<not> promote_granted ha p rs target rep i old)) \<or>
    (\<exists>target rep i old. promote_granted ha p rs target rep i old \<and>
       run_state (manual_promotion E r ha target rep old (o_name (rs ! i))) s = ((ha', res), t))"
proof (cases "map_of (ha_Annotations ha) annotationPromote")
  case None
  with assms show ?thesis by (simp add: handlePromoteAnnotation_def)
next
  case (Some target)
  note an = this
  show ?thesis
  proof (cases "fo_Mode (spec_failover ha) = FailoverModeManual")
    case False
    with assms an show ?thesis by (auto simp: handlePromoteAnnotation_def promote_granted_def)
  next
    case True
    show ?thesis
    proof (cases "findReplica ha target")
      case None
      with assms an True show ?thesis by (auto simp: handlePromoteAnnotation_def promote_granted_def)
    next
      case (Some x)
      obtain rep i where x: "x = (rep, i)" by fastforce
      show ?thesis
      proof (cases "i < length rs \<and> healthy_replica (rs ! i)")
        case False
        with assms an True Some x show ?thesis
          by (auto simp: handlePromoteAnnotation_def promote_granted_def healthy_replica_def Let_def split: if_splits)
      next
        case ok: True
        with assms an True Some x show ?thesis
          by (cases "currentPrimaryForPromotion ha p rs")
             (auto simp: handlePromoteAnnotation_def promote_granted_def healthy_replica_def Let_def)
      qed
    qed
  qed
qed

lemma run_reject_promote:
  assumes "run_state (reject_promote E r ha msg) s = ((h, res), t)"
  shows "(res = Ok no_effect \<and> map_of (ha_Annotations h) annotationPromote = None) \<or> (\<exists>e. res = Err e \<and> h = ha)"
proof -
  obtain u1 where r1: "run_state (event_of E r ha EventTypeWarning eventReasonPromoteRejected msg) s = ((), u1)"
    by (cases "run_state (event_of E r ha EventTypeWarning eventReasonPromoteRejected msg) s") simp
  obtain h2 cerr u2 where r2: "run_state (clearPromoteAnnotation E r ha) u1 = ((h2, cerr), u2)" by (metis prod.exhaust)
  from assms r1 r2 have "h = h2" "res = (case cerr of None \<Rightarrow> Ok no_effect | Some e \<Rightarrow> Err e)"
    by (auto simp: reject_promote_def)
  with run_clearPromoteAnnotation [OF r2] show ?thesis by auto
qed

lemma findReplica_bound: "findReplica ha nm = Some (rep, i) \<Longrightarrow> i < length (spec_replicas ha)"
proof -
  have "find_replica_from reps nm k = Some (rep, i) \<Longrightarrow> i < k + length reps" for reps k
    by (induction reps nm k rule: find_replica_from.induct) (auto split: if_splits)
  then show "findReplica ha nm = Some (rep, i) \<Longrightarrow> ?thesis" by (fastforce simp: findReplica_def)
qed

lemma granted_no_split_brain:
  "promote_granted ha p rs target rep i old \<Longrightarrow> detectSplitBrain p rs = []"
  by (auto simp: promote_granted_def currentPrimaryForPromotion_def Let_def split: if_splits)

section \<open>The counter over several reconciles\<close>

text \<open>
  A sequence of reconciles of one HACluster, as far as automatic failover is concerned: in each,
  the object and the observations are whatever they are at that time.
\<close>

fun auto_rounds ::
  "('w, 'c) env \<Rightarrow> ('w, 'c) HAClusterReconciler \<Rightarrow> (HACluster \<times> siteObservation \<times> siteObservation list) list \<Rightarrow>
   ('w, 'c, 'x, promotionEffect res list) rio" where
  "auto_rounds E r [] = State_Monad.return []"
| "auto_rounds E r ((ha, p, rs) # xs) = do {
     y \<leftarrow> handleAutomaticFailover E r ha p rs;
     ys \<leftarrow> auto_rounds E r xs;
     State_Monad.return (snd y # ys)
   }"

lemma event_of_frame:
  assumes "run_state (event_of E r ha ty rs msg) (s :: ('w, 'c, 'x) rmem_scheme) = (u, t)"
  shows "failCount t = failCount s"
  using assms by (auto simp: event_of_def split: if_splits)

lemma round_below_threshold:
  assumes "run_state (handleAutomaticFailover (traced E) r ha p rs) s = ((ha', res), t)"
    and "sint (fail_count s (ha_key ha) + 1) < sint (effectiveFailureThreshold (spec_failover ha))"
  shows "logs quiet s t \<and> res = Ok no_effect \<and>
    fail_count t (ha_key ha) \<in> {0, fail_count s (ha_key ha), fail_count s (ha_key ha) + 1}"
proof (cases "fo_Mode (spec_failover ha) = FailoverModeAutomatic \<and> detectSplitBrain p rs = []")
  case False
  then show ?thesis
    using assms(1) log.start fails.reset_count [of "ha_key ha" s "ha_key ha"]
    by (auto simp: handleAutomaticFailover_def Let_def run_resetFailCount logs_def trace_def split: if_splits)
next
  case True
  obtain cooling s1 where cd: "run_state (in_cooldown (traced E) ha) s = (cooling, s1)" by fastforce
  have c1: "fail_count s1 k = fail_count s k" for k
    using in_cooldown_frame [OF cd] by (simp add: fail_count_def)
  obtain v where v: "verdict_of ha p rs cooling (fail_count s (ha_key ha) + 1) = v" by blast
  have iv: "v = Idle \<or> v = Pending"
    unfolding v [symmetric] verdict_of_def using assms(2) by simp
  note c = handleAutomaticFailover_cases [OF assms(1) True [THEN conjunct1] True [THEN conjunct2] cd, unfolded v]
  have "fail_count t (ha_key ha) \<in> {0, fail_count s (ha_key ha) + 1}"
    using iv
  proof
    assume "v = Idle"
    with c have "snd (run_state (resetFailCount (ha_key ha)) s1) = t" by simp
    with fails.reset_count [of "ha_key ha" s1 "ha_key ha"] show ?thesis by simp
  next
    assume "v = Pending"
    with c obtain msg where "run_state (event_of (traced E) r ha EventTypeWarning eventReasonPrimaryUnhealthy msg)
      (snd (run_state (bumpFailCount (ha_key ha)) s1)) = ((), t)" by auto
    from event_of_frame [OF this] have "fail_count t (ha_key ha) = fail_count (snd (run_state (bumpFailCount (ha_key ha)) s1)) (ha_key ha)"
      by (simp add: fail_count_def)
    with fails.bump_count [of "ha_key ha" s1 "ha_key ha"] c1 show ?thesis by simp
  qed
  moreover have "logs quiet s t \<and> res = Ok no_effect"
    using no_promotion_quiet [OF assms(1) True [THEN conjunct1] True [THEN conjunct2] cd v] iv by auto
  ultimately show ?thesis by auto
qed

lemma sint_succ: "sint (n :: i64) < 2 ^ 62 \<Longrightarrow> 0 \<le> sint n \<Longrightarrow> sint (n + 1) = sint n + 1"
proof -
  assume "sint n < 2 ^ 62" "0 \<le> sint n"
  then have "sint (word_of_int (sint n + 1) :: i64) = sint n + 1" by (intro sint_i64) auto
  then show ?thesis by simp
qed

lemma sint_threshold_bound: "sint (effectiveFailureThreshold f) < 2 ^ 31"
  using sint_threshold [of f] sint_i32_bounds [of "fo_FailureThreshold f"] by auto

lemma rounds_below_threshold:
  assumes "\<forall>(ha, p, rs) \<in> set xs. ha_key ha = key \<and> effectiveFailureThreshold (spec_failover ha) = th"
    and "0 \<le> sint (fail_count s key)" and "sint (fail_count s key) + int (length xs) < sint th"
    and "sint th < 2 ^ 31"
    and "run_state (auto_rounds (traced E) r xs) s = (ys, t)"
  shows "logs quiet s t \<and> list_all (\<lambda>y. y = Ok no_effect) ys"
  using assms
proof (induction xs arbitrary: s ys)
  case Nil
  then show ?case by (simp add: log.start)
next
  case (Cons x xs)
  obtain ha p rs where x: "x = (ha, p, rs)" by (cases x) auto
  obtain ha' res s1 where r1: "run_state (handleAutomaticFailover (traced E) r ha p rs) s = ((ha', res), s1)"
    by (metis prod.exhaust)
  obtain zs u where r2: "run_state (auto_rounds (traced E) r xs) s1 = (zs, u)" by fastforce
  from Cons.prems(5) x r1 r2 have ys: "ys = res # zs" "u = t" by auto
  have k: "ha_key ha = key" "effectiveFailureThreshold (spec_failover ha) = th"
    using Cons.prems(1) x by auto
  have "sint (fail_count s key + 1) = sint (fail_count s key) + 1"
    using Cons.prems(2-4) by (intro sint_succ) auto
  with Cons.prems(3) k have lt: "sint (fail_count s (ha_key ha) + 1) < sint (effectiveFailureThreshold (spec_failover ha))"
    by auto
  from round_below_threshold [OF r1 lt] k have q: "logs quiet s s1" "res = Ok no_effect"
    and cnt: "fail_count s1 key \<in> {0, fail_count s key, fail_count s key + 1}" by auto
  from cnt \<open>sint (fail_count s key + 1) = _\<close> Cons.prems(2)
  have "0 \<le> sint (fail_count s1 key)" "sint (fail_count s1 key) \<le> sint (fail_count s key) + 1" by auto
  then have "logs quiet s1 t \<and> list_all (\<lambda>y. y = Ok no_effect) zs"
    using Cons.prems r2 ys by (intro Cons.IH) auto
  with q ys log.seq [OF q(1)] show ?case by auto
qed

text \<open>A round in which the primary is down and nothing suspends the failover.\<close>

definition unhealthy_round :: "HACluster \<times> siteObservation \<times> siteObservation list \<Rightarrow> bool" where
  "unhealthy_round x = (case x of (ha, p, rs) \<Rightarrow>
     fo_Mode (spec_failover ha) = FailoverModeAutomatic \<and> detectSplitBrain p rs = [] \<and>
     LastFailoverTime (ha_Status ha) = None \<and> \<not> primary_healthy ha p rs)"

lemma unhealthy_round_counts:
  assumes "run_state (handleAutomaticFailover E r ha p rs) s = ((ha', res), t)"
    and "unhealthy_round (ha, p, rs)"
    and "sint (fail_count s (ha_key ha) + 1) < sint (effectiveFailureThreshold (spec_failover ha))"
  shows "fail_count t (ha_key ha) = fail_count s (ha_key ha) + 1"
proof -
  have cd: "run_state (in_cooldown E ha) s = (False, s)"
    using assms(2) by (simp add: in_cooldown_def unhealthy_round_def)
  have v: "verdict_of ha p rs False (fail_count s (ha_key ha) + 1) = Pending"
    using assms(2,3) by (simp add: verdict_of_def unhealthy_round_def)
  from handleAutomaticFailover_cases [OF assms(1) _ _ cd, unfolded v] assms(2) obtain msg where
    "run_state (event_of E r ha EventTypeWarning eventReasonPrimaryUnhealthy msg)
      (snd (run_state (bumpFailCount (ha_key ha)) s)) = ((), t)"
    by (auto simp: unhealthy_round_def)
  from event_of_frame [OF this] have "fail_count t (ha_key ha) =
      fail_count (snd (run_state (bumpFailCount (ha_key ha)) s)) (ha_key ha)"
    by (simp add: fail_count_def)
  with fails.bump_count [of "ha_key ha" s "ha_key ha"] show ?thesis by simp
qed

lemma unhealthy_rounds_count:
  assumes "\<forall>x \<in> set xs. unhealthy_round x \<and> ha_key (fst x) = key \<and> effectiveFailureThreshold (spec_failover (fst x)) = th"
    and "0 \<le> sint (fail_count s key)" and "sint (fail_count s key) + int (length xs) < sint th"
    and "sint th < 2 ^ 31"
    and "run_state (auto_rounds E r xs) s = (ys, t)"
  shows "sint (fail_count t key) = sint (fail_count s key) + int (length xs)"
  using assms
proof (induction xs arbitrary: s ys)
  case (Cons x xs)
  obtain ha p rs where x: "x = (ha, p, rs)" by (cases x) auto
  obtain ha' res s1 where r1: "run_state (handleAutomaticFailover E r ha p rs) s = ((ha', res), s1)"
    by (metis prod.exhaust)
  obtain zs u where r2: "run_state (auto_rounds E r xs) s1 = (zs, u)" by fastforce
  from Cons.prems(5) x r1 r2 have u: "u = t" by auto
  have k: "ha_key ha = key" "effectiveFailureThreshold (spec_failover ha) = th" "unhealthy_round (ha, p, rs)"
    using Cons.prems(1) x by auto
  have suc: "sint (fail_count s key + 1) = sint (fail_count s key) + 1"
    using Cons.prems(2-4) by (intro sint_succ) auto
  with Cons.prems(3) k have lt: "sint (fail_count s (ha_key ha) + 1) < sint (effectiveFailureThreshold (spec_failover ha))"
    by auto
  from unhealthy_round_counts [OF r1 k(3) lt] k suc have "sint (fail_count s1 key) = sint (fail_count s key) + 1" by simp
  moreover from this have "sint (fail_count t key) = sint (fail_count s1 key) + int (length xs)"
    using Cons.prems r2 u by (intro Cons.IH) auto
  ultimately show ?case by simp
qed simp

lemma due_verdict:
  assumes "unhealthy_round (ha, p, rs)" and "length rs = length (spec_replicas ha)"
    and "eligible (spec_replicas ha) rs (current_name ha) j"
    and "sint (effectiveFailureThreshold (spec_failover ha)) \<le> sint n"
  obtains i where "eligible (spec_replicas ha) rs (current_name ha) i"
    and "verdict_of ha p rs False n = Promoting (spec_replicas ha ! i)"
proof -
  obtain b where b: "chooseTarget ha rs (current_name ha) = Ok (map_option (\<lambda>b. (spec_replicas ha ! b, b)) b)"
    "best_choice (fo_PromotionPolicy (spec_failover ha) = PromotionPolicyMostAdvancedLSN) rs
       {i. eligible (spec_replicas ha) rs (current_name ha) i} b"
    using chooseTarget_best [OF assms(2)] by blast
  from b(2) assms(3) obtain i where i: "b = Some i" "eligible (spec_replicas ha) rs (current_name ha) i"
    by (cases b) (auto simp: best_choice_def first_best_def split: if_splits)
  moreover have "verdict_of ha p rs False n = Promoting (spec_replicas ha ! i)"
    using assms(1,4) b(1) i(1) by (simp add: verdict_of_def unhealthy_round_def)
  ultimately show thesis using that by blast
qed

lemma due_round_acts:
  assumes "unhealthy_round (ha, p, rs)" and "length rs = length (spec_replicas ha)"
    and "eligible (spec_replicas ha) rs (current_name ha) j"
    and "sint (effectiveFailureThreshold (spec_failover ha)) \<le> sint (fail_count s (ha_key ha) + 1)"
  shows "snd (fst (run_state (handleAutomaticFailover E r ha p rs) s)) \<noteq> Ok no_effect"
proof -
  obtain i where v: "verdict_of ha p rs False (fail_count s (ha_key ha) + 1) = Promoting (spec_replicas ha ! i)"
    using due_verdict [OF assms] by blast
  have cd: "run_state (in_cooldown E ha) s = (False, s)"
    using assms(1) by (simp add: in_cooldown_def unhealthy_round_def)
  obtain ha' res t where run: "run_state (handleAutomaticFailover E r ha p rs) s = ((ha', res), t)"
    by (metis prod.exhaust)
  have auto: "fo_Mode (spec_failover ha) = FailoverModeAutomatic" "detectSplitBrain p rs = []"
    using assms(1) by (simp_all add: unhealthy_round_def)
  from handleAutomaticFailover_cases [OF run auto cd, unfolded v]
  have "run_state (automatic_promotion E r ha (current_name ha) (spec_replicas ha ! i) (fail_count s (ha_key ha) + 1)
      (effectiveFailureThreshold (spec_failover ha))) (snd (run_state (bumpFailCount (ha_key ha)) s)) = ((ha', res), t)"
    by simp
  from run_automatic_promotion [OF this] run show ?thesis by (auto simp: no_effect_def)
qed

section \<open>Properties\<close>


text \<open>C5. No promotion before the threshold, over any history: starting from a zero counter (a fresh
  process, a reset), any sequence of fewer than threshold reconciles of an HACluster, with whatever
  observations, writes to no site and promotes nothing.\<close>

theorem no_promotion_before_threshold:
  assumes "\<forall>(ha, p, rs) \<in> set xs. ha_key ha = key \<and> Failover (ha_Spec ha) = f"
    and "fail_count s key = 0" and "int (length xs) < sint (effectiveFailureThreshold f)"
    and "run_state (auto_rounds (traced E) r xs) s = (ys, t)"
  shows "\<exists>es. trace t = trace s @ es \<and> list_all (\<lambda>e. \<not> site_write e) es \<and>
    list_all (\<lambda>y. y = Ok no_effect) ys"
proof -
  have "logs quiet s t \<and> list_all (\<lambda>y. y = Ok no_effect) ys"
    by (rule rounds_below_threshold [OF _ _ _ sint_threshold_bound [of f] assms(4)])
       (use assms in \<open>auto split: prod.splits\<close>)
  then show ?thesis by (auto simp: logs_def)
qed




text \<open>C12. When a promote annotation may act, in every environment: if the handler writes to any site, or reports a
  promotion, then the annotation is present, the mode is Manual, it names a replica of the spec whose
  observation is reachable, ready and in replica mode, and no split-brain is observed.\<close>

theorem manual_promotion_only_when_granted:
  assumes "run_state (handlePromoteAnnotation (traced E) r ha p rs) s = ((ha', res), t)"
    and "trace t = trace s @ es"
    and "list_ex site_write es \<or> (\<exists>ef. res = Ok ef \<and> ef \<noteq> no_effect)"
  shows "\<exists>target rep i old. promote_granted ha p rs target rep i old \<and> detectSplitBrain p rs = []"
proof (rule ccontr)
  assume no: "\<not> ?thesis"
  have q: "relates (logs quiet) (reject_promote (traced E) r ha msg)" for msg
    by (rule logs_bookkeeping(4)) simp_all
  from no handlePromoteAnnotation_cases [OF assms(1)] granted_no_split_brain
  have "(t = s \<and> (\<forall>ef. res = Ok ef \<longrightarrow> ef = no_effect)) \<or>
      (\<exists>msg. run_state (reject_promote (traced E) r ha msg) s = ((ha', res), t))" by auto
  then show False
  proof
    assume "t = s \<and> (\<forall>ef. res = Ok ef \<longrightarrow> ef = no_effect)"
    with assms(2,3) show False by auto
  next
    assume "\<exists>msg. run_state (reject_promote (traced E) r ha msg) s = ((ha', res), t)"
    then obtain msg where m: "run_state (reject_promote (traced E) r ha msg) s = ((ha', res), t)" by blast
    from relates_run [OF q m] run_reject_promote [OF m] assms(2,3) show False
      by (auto simp: logs_def list_all_iff list_ex_iff)
  qed
qed


section \<open>Witnesses\<close>

text \<open>The bootstrap site is down, both replicas are healthy; threshold 2.\<close>

definition down_ha :: HACluster where "down_ha = demo_ha ''Automatic'' ''Ordered'' [] ''a''"
definition down_p :: siteObservation where "down_p = demo_obs ''a'' False False False 0"
definition down_rs :: "siteObservation list" where
  "down_rs = [demo_obs ''b'' True False True 1, demo_obs ''c'' True False True 1]"

lemma down_round: "unhealthy_round (down_ha, down_p, down_rs)" "ha_key down_ha = nn ''ha'' ''c''"
  "length down_rs = length (spec_replicas down_ha)" "eligible (spec_replicas down_ha) down_rs (current_name down_ha) 0"
  "sint (effectiveFailureThreshold (spec_failover down_ha)) = 2"
  by (simp_all add: unhealthy_round_def down_ha_def down_p_def down_rs_def demo_ha_def demo_obs_def
      detectSplitBrain_def primaryReadyCandidates_def primary_ready_def primary_healthy_def findObservation_def
      current_name_def eligible_def healthy_replica_def demo_replica_def sint_threshold Let_def)

definition counted_mem :: "(rworld \<times> nat event list, nat) rmem" where
  "counted_mem = \<lparr>world = (rw_empty, []), clients = NewCache,
     failCount = Some ((\<lambda>_. None)(nn ''ha'' ''c'' \<mapsto> 1))\<rparr>"


theorem no_promotion_before_threshold_witness:
  "list_all (\<lambda>e. \<not> site_write e)
     (trace (snd (run_state (auto_rounds (traced ref_env) demo_rec [(down_ha, down_p, down_rs)]) (demo_tmem 0))))"
proof -
  obtain ys t where z: "run_state (auto_rounds (traced ref_env) demo_rec [(down_ha, down_p, down_rs)]) (demo_tmem 0) = (ys, t)"
    by fastforce
  have "trace (demo_tmem 0) = []" "fail_count (demo_tmem 0) (ha_key down_ha) = 0"
    by (simp_all add: demo_tmem_def trace_def fail_count_def)
  with no_promotion_before_threshold [OF _ _ _ z, of "ha_key down_ha" "spec_failover down_ha"] down_round z
  show ?thesis by auto
qed


definition manual_rs :: "siteObservation list" where
  "manual_rs = [demo_obs ''b'' True False True 1, demo_obs ''c'' True False True 1]"

definition manual_p :: siteObservation where
  "manual_p = demo_obs ''a'' True True True 1"

lemma manual_granted: "promote_granted demo_manual manual_p manual_rs ''b'' demo_b 0 ''a''"
  by (simp add: promote_granted_def demo_ha_def annotationPromote_def findReplica_def demo_replica_def manual_rs_def
      manual_p_def demo_obs_def healthy_replica_def currentPrimaryForPromotion_def detectSplitBrain_def
      primaryReadyCandidates_def primary_ready_def Let_def)

lemma manual_run:
  "run_state (handlePromoteAnnotation E r demo_manual manual_p manual_rs) s =
   run_state (manual_promotion E r demo_manual ''b'' demo_b ''a'' ''b'') s"
  using manual_granted
  by (simp add: handlePromoteAnnotation_def promote_granted_def healthy_replica_def Let_def)
     (simp add: manual_rs_def demo_obs_def)

lemma runPromotion_same: "same_but_conditions ha h \<Longrightarrow> runPromotion E r h old tg = runPromotion E r ha old tg"
proof -
  assume "same_but_conditions ha h"
  then have "ha_Spec h = ha_Spec ha" "ha_Namespace h = ha_Namespace ha"
    using same_but_conditionsD by auto
  then show ?thesis by (simp only: runPromotion_def siteClientAndRef_def)
qed

text \<open>A world with nothing but the old primary's Cluster, and remote clients in the cache.\<close>

definition tiny :: "nat event list \<Rightarrow> (rworld \<times> nat event list, nat) cmem" where
  "tiny es = \<lparr>world = (rw_empty\<lparr>rw_clusters := (\<lambda>_. None)((0, nn ''db'' ''pg'') := Some (JObj []))\<rparr>, es),
     clients = (\<lambda>_. Some \<lparr>cli = 1, resourceVersion = []\<rparr>)\<rparr>"

lemma tiny_promotion_writes:
  "list_ex site_write (trace (snd (run_state (runPromotion (traced ref_env) demo_rec demo_manual ''a'' demo_b)
     (tiny [ReadClock 0, ReadClock 0]))))"
  by code_simp

lemma demo_silent: "\<not> r_Recorder demo_rec"
  by (simp add: demo_rec_def)

lemma tiny_clock: "now_time (traced ref_env) (world (tiny es)) = (0, fst (world (tiny es)), es @ [ReadClock 0])"
  by (simp add: tr_def ref_env_def tiny_def rw_empty_def)

lemma tiny_set: "(tiny es)\<lparr>world := (fst (world (tiny fs)), gs)\<rparr> = tiny gs"
  by (simp add: tiny_def)

lemma tiny_manual_writes:
  "list_ex site_write (trace (snd (run_state (handlePromoteAnnotation (traced ref_env) demo_rec demo_manual manual_p manual_rs) (tiny []))))"
proof -
  obtain h1 u2 where r2: "run_state (setFailoverInProgress (traced ref_env) demo_manual True ''b'') (tiny []) = (h1, u2)"
    by fastforce
  then have u2: "u2 = tiny [ReadClock 0]"
    unfolding setFailoverInProgress_def Let_def by (auto simp: tiny_clock tiny_set simp del: traced_env)
  have sc: "same_but_conditions demo_manual h1" by (rule same_but_conditions_set [OF _ r2]) simp
  obtain x u4 where r4: "run_state (runPromotion (traced ref_env) demo_rec demo_manual ''a'' demo_b)
      (tiny [ReadClock 0, ReadClock 0]) = (x, u4)" by fastforce
  let ?tail = "finish_manual (traced ref_env) demo_rec h1 ''b'' ''a'' ''b'' 0 x ::
    ((rworld \<times> nat event list, nat) cmem, HACluster \<times> promotionEffect res) state"
  have "run_state (manual_promotion (traced ref_env) demo_rec demo_manual ''b'' demo_b ''a'' ''b'') (tiny []) = run_state ?tail u4"
    using r2 r4 u2 unfolding manual_promotion_def
    by (simp add: runPromotion_same [OF sc] event_of_def tiny_clock tiny_set demo_silent del: traced_env)
  moreover have "relates (logs (\<lambda>_. True)) ?tail"
    unfolding finish_manual_def
    by (intro log.relates_rules logs_event logs_bookkeeping logs_metrics TrueI)
       (simp_all only: traced_env, intro logs_call TrueI)
  ultimately obtain fs where "trace (snd (run_state (handlePromoteAnnotation (traced ref_env) demo_rec demo_manual manual_p manual_rs) (tiny []))) = trace u4 @ fs"
    unfolding manual_run using relates_snd [of "logs (\<lambda>_. True)" ?tail u4] by (auto simp: logs_def)
  with tiny_promotion_writes r4 show ?thesis by simp
qed

theorem manual_promotion_only_when_granted_witness:
  "list_ex site_write (trace (snd (run_state (handlePromoteAnnotation (traced ref_env) demo_rec demo_manual manual_p manual_rs) (tiny [])))) \<and>
   (\<exists>target rep i old. promote_granted demo_manual manual_p manual_rs target rep i old)"
proof -
  obtain ha' res t where z: "run_state (handlePromoteAnnotation (traced ref_env) demo_rec demo_manual manual_p manual_rs) (tiny []) = ((ha', res), t)"
    by (metis prod.exhaust)
  have "trace t = trace (tiny []) @ trace t" by (simp add: tiny_def trace_def)
  from manual_promotion_only_when_granted [OF z this] tiny_manual_writes z show ?thesis by auto
qed


end
