(* ===== verification/Controller_Topology.thy ===== *)
theory Controller_Topology
  imports Failover_Handlers
begin

text \<open>
  \<open>reconcileReplicaTopology\<close>: after the status is written, every site other than the primary
  is made to follow it. The central safety rule is the rejoin policy: a site found in primary
  mode is rebuilt as a replica only under \<open>AutoReplica\<close>, otherwise it is fenced. The rule is
  proved for every environment, over the calls of a run.
\<close>

section \<open>Model\<close>

definition eventReasonRejoinFenced :: string where "eventReasonRejoinFenced = ''RejoinFenced''"
definition eventReasonRejoinReconfigured :: string where
  "eventReasonRejoinReconfigured = ''RejoinReconfigured''"

text \<open>The three ways one site of the loop is made to follow the primary.\<close>

definition rejoin_as_replica ::
  "('w, 'c) env \<Rightarrow> ('w, 'c) HAClusterReconciler \<Rightarrow> HACluster \<Rightarrow> string \<Rightarrow> string \<Rightarrow> string \<Rightarrow> 'c \<Rightarrow> Ref \<Rightarrow>
   ('w, 'x, unit res) io" where
  "rejoin_as_replica E r ha effectivePrimary endpoint siteName c ref = do {
     x \<leftarrow> Reconfigure E c ref endpoint;
     case x of
       Err e \<Rightarrow> State_Monad.return (Err (Wrapf (''auto-rejoin '' @ fmt_q siteName @ '' as replica'') e))
     | Panic p \<Rightarrow> State_Monad.return (Panic p)
     | Ok _ \<Rightarrow> do {
         _ \<leftarrow> event_of E r ha EventTypeWarning eventReasonRejoinReconfigured
           (''returning primary '' @ fmt_q siteName @ '' rebuilt as replica of '' @ fmt_q effectivePrimary @
            '' (data discarded)'');
         State_Monad.return (Ok ())
       }
   }"

definition fence_returning ::
  "('w, 'c) env \<Rightarrow> ('w, 'c) HAClusterReconciler \<Rightarrow> HACluster \<Rightarrow> string \<Rightarrow> 'c \<Rightarrow> Ref \<Rightarrow> ('w, 'x, unit res) io" where
  "fence_returning E r ha siteName c ref = do {
     x \<leftarrow> Fence E c ref;
     case x of
       Err e \<Rightarrow> State_Monad.return (Err (Wrapf (''fence returning primary '' @ fmt_q siteName) e))
     | Panic p \<Rightarrow> State_Monad.return (Panic p)
     | Ok _ \<Rightarrow> do {
         _ \<leftarrow> event_of E r ha EventTypeWarning eventReasonRejoinFenced
           (''returning primary '' @ fmt_q siteName @
            '' fenced (rejoinPolicy=Manual); resolve split-brain manually'');
         State_Monad.return (Ok ())
       }
   }"

definition repoint_replica ::
  "('w, 'c) env \<Rightarrow> string \<Rightarrow> string \<Rightarrow> string \<Rightarrow> 'c \<Rightarrow> Ref \<Rightarrow> ('w, 'x, unit res) io" where
  "repoint_replica E effectivePrimary endpoint siteName c ref = do {
     x \<leftarrow> Reconfigure E c ref endpoint;
     case x of
       Err e \<Rightarrow> State_Monad.return (Err (Wrapf (''repoint replica '' @ fmt_q siteName @ '' to '' @
                  fmt_q effectivePrimary) e))
     | Panic p \<Rightarrow> State_Monad.return (Panic p)
     | Ok _ \<Rightarrow> State_Monad.return (Ok ())
   }"

text \<open>One site of the loop body, once its client is resolved.\<close>

definition converge_site ::
  "('w, 'c) env \<Rightarrow> ('w, 'c) HAClusterReconciler \<Rightarrow> HACluster \<Rightarrow> string \<Rightarrow> string \<Rightarrow> string \<Rightarrow> string \<Rightarrow> 'c \<Rightarrow> Ref \<Rightarrow>
   ('w, 'x, unit res) io" where
  "converge_site E r ha effectivePrimary endpoint rejoin siteName c ref = do {
     h \<leftarrow> Probe E c (nn (ref_Namespace ref) (ref_Name ref));
     let fresh = siteObsFromHealth siteName h;
     if \<not> o_reachable fresh then State_Monad.return (Ok ())
     else if o_primary fresh then
       (if rejoin = RejoinPolicyAutoReplica
        then rejoin_as_replica E r ha effectivePrimary endpoint siteName c ref
        else fence_returning E r ha siteName c ref)
     else repoint_replica E effectivePrimary endpoint siteName c ref
   }"

fun topology_loop ::
  "('w, 'c) env \<Rightarrow> ('w, 'c) HAClusterReconciler \<Rightarrow> HACluster \<Rightarrow> string \<Rightarrow> string \<Rightarrow> string \<Rightarrow> siteObservation list \<Rightarrow>
   (('w, 'c, 'x) cmem_scheme, unit res) state" where
  "topology_loop E r ha effectivePrimary endpoint rejoin [] = State_Monad.return (Ok ())"
| "topology_loop E r ha effectivePrimary endpoint rejoin (ob # obs) =
     (if o_name ob = effectivePrimary then topology_loop E r ha effectivePrimary endpoint rejoin obs
      else do {
        x \<leftarrow> siteClientAndRef E r ha (o_name ob);
        case x of
          None \<Rightarrow> topology_loop E r ha effectivePrimary endpoint rejoin obs
        | Some y \<Rightarrow> (case y of (c, ref) \<Rightarrow> do {
            z \<leftarrow> converge_site E r ha effectivePrimary endpoint rejoin (o_name ob) c ref;
            case z of
              Ok _ \<Rightarrow> topology_loop E r ha effectivePrimary endpoint rejoin obs
            | Err e \<Rightarrow> State_Monad.return (Err e)
            | Panic p \<Rightarrow> State_Monad.return (Panic p)
          })
      })"

definition reconcileReplicaTopology ::
  "('w, 'c) env \<Rightarrow> ('w, 'c) HAClusterReconciler \<Rightarrow> HACluster \<Rightarrow> string \<Rightarrow> siteObservation \<Rightarrow> siteObservation list \<Rightarrow>
   (('w, 'c, 'x) cmem_scheme, unit res) state" where
  "reconcileReplicaTopology E r ha effectivePrimary primaryObs replicaObs =
     (if effectivePrimary = [] then State_Monad.return (Ok ())
      else let endpoint = replicationEndpointFor ha effectivePrimary in
        if endpoint = [] then State_Monad.return (Ok ())
        else let rejoin = (if fo_RejoinPolicy (spec_failover ha) = [] then RejoinPolicyManual
                           else fo_RejoinPolicy (spec_failover ha))
          in topology_loop E r ha effectivePrimary endpoint rejoin (primaryObs # replicaObs))"

section \<open>The rejoin rule over the calls\<close>

text \<open>
  Every update of a Cluster is the fencing write or comes after a read of that Cluster that
  showed it in replica mode.
\<close>

definition rebuild_gated :: "'x lib_scheme \<Rightarrow> 'c event list \<Rightarrow> bool" where
  "rebuild_gated L es \<longleftrightarrow>
     (\<forall>pre c k u r post. es = pre @ PutCluster c k u r # post \<longrightarrow>
        fencing L u \<or> (\<exists>v. GotCluster c k (Inr v) \<in> set pre \<and> \<not> in_primary_mode L v))"

lemma rebuild_gated_Nil [simp]: "rebuild_gated L []"
  by (simp add: rebuild_gated_def)

lemma rebuild_gated_append:
  assumes "rebuild_gated L es" and "rebuild_gated L fs"
  shows "rebuild_gated L (es @ fs)"
  unfolding rebuild_gated_def
proof (intro allI impI)
  fix pre c k u r post
  assume split: "es @ fs = pre @ PutCluster c k u r # post"
  show "fencing L u \<or> (\<exists>v. GotCluster c k (Inr v) \<in> set pre \<and> \<not> in_primary_mode L v)"
  proof (cases "length pre < length es")
    case True
    then obtain us where "es = pre @ us" "us \<noteq> []" "us @ fs = PutCluster c k u r # post"
      using split by (auto simp: append_eq_append_conv2)
    then obtain vs where "es = pre @ PutCluster c k u r # vs" by (cases us) auto
    with assms(1) show ?thesis unfolding rebuild_gated_def by blast
  next
    case False
    then obtain us where us: "pre = es @ us" "fs = us @ PutCluster c k u r # post"
      using split by (auto simp: append_eq_append_conv2 Cons_eq_append_conv)
    with assms(2) have "fencing L u \<or> (\<exists>v. GotCluster c k (Inr v) \<in> set us \<and> \<not> in_primary_mode L v)"
      unfolding rebuild_gated_def by blast
    with us show ?thesis by auto
  qed
qed

lemma rebuild_gated_simple:
  assumes "\<And>c k u r. PutCluster c k u r \<in> set es \<Longrightarrow> fencing L u"
  shows "rebuild_gated L es"
  unfolding rebuild_gated_def using assms by (metis in_set_conv_decomp)

definition rejoin_safe ::
  "'y lib_scheme \<Rightarrow> ('w \<times> 'c event list, 'x) mem_scheme \<Rightarrow> ('w \<times> 'c event list, 'x) mem_scheme \<Rightarrow> bool" where
  "rejoin_safe L s t \<longleftrightarrow> (\<exists>es. trace t = trace s @ es \<and> rebuild_gated L es)"

interpretation rejoin: run_relation "rejoin_safe L" for L
  by unfold_locales (auto simp: rejoin_safe_def intro: rebuild_gated_append exI [of _ "[]"])

lemma rejoin_of_logs:
  assumes "relates (logs P) f" and "\<And>c k u r. P (PutCluster c k u r) \<Longrightarrow> fencing L u"
  shows "relates (rejoin_safe L) f"
proof -
  have "rebuild_gated L es" if "list_all P es" for es
    by (rule rebuild_gated_simple) (use that assms(2) in \<open>metis list_all_iff\<close>)
  then have "logs P s t \<Longrightarrow> rejoin_safe L s t" for s t
    unfolding logs_def rejoin_safe_def by blast
  with assms(1) show ?thesis unfolding relates_def by (blast intro: wp_mono)
qed

lemma rejoin_quiet:
  "relates (rejoin_safe L) (siteClientAndRef (traced E) r ha nm)"
  "relates (rejoin_safe L) (event_of (traced E) r ha ty rs msg)"
  by (rule rejoin_of_logs [where P = quiet], intro logs_siteClientAndRef logs_event, simp_all)+

lemma rejoin_Fence: "relates (rejoin_safe E) (Fence (traced E) c ref)"
proof -
  have "relates (logs (\<lambda>e. site_write e \<longrightarrow> fence_put E c (ref_key ref) e)) (Fence (traced E) c ref)"
    unfolding Fence_def Let_def traced_env traced_lib
    by (intro log.relates_rules logs_call) (auto simp: fencing_def)
  then show ?thesis by (rule rejoin_of_logs) simp
qed

lemma logs_Reconfigure:
  "(\<And>r. P (GotCluster c (ref_key ref) r)) \<Longrightarrow> (\<And>u r. P (PutCluster c (ref_key ref) u r)) \<Longrightarrow>
   relates (logs P) (Reconfigure (traced E) c ref host)"
proof -
  assume P: "\<And>r. P (GotCluster c (ref_key ref) r)" "\<And>u r. P (PutCluster c (ref_key ref) u r)"
  show ?thesis
  proof (cases "host = []")
    case True
    then show ?thesis by (simp add: Reconfigure_def log.relates_return)
  next
    case False
    show ?thesis
      unfolding relates_def wp_def reconfigure_step.step [OF False]
      by (auto simp: logs_def trace_def tr_def P split: prod.splits sum.splits option.splits)
  qed
qed

text \<open>Reading a site in replica mode and then repointing it keeps the rule.\<close>

lemma rejoin_converge:
  fixes E :: "('w, 'c) env"
  assumes "rejoinPol \<noteq> RejoinPolicyAutoReplica"
  shows "relates (rejoin_safe E) (converge_site (traced E) r ha eff endpoint rejoinPol nm c ref)"
  unfolding relates_def
proof
  fix s :: "('w \<times> 'c event list, 'x) mem_scheme"
  let ?k = "nn (ref_Namespace ref) (ref_Name ref)"
  obtain g w where g: "get_cluster E c ?k (fst (world s)) = (g, w)" by fastforce
  let ?s1 = "s\<lparr>world := (w, trace s @ [GotCluster c ?k g])\<rparr>"
  have k: "?k = ref_key ref" by (simp add: ref_key_def)
  have probe: "run_state (Probe (traced E) c ?k) s =
      (case g of Inl e \<Rightarrow> zero_health\<lparr>Reason := ''get cnpg cluster '' @ ref_Namespace ref @ ''/'' @ ref_Name ref @ '': '' @ err_text e\<rparr>
       | Inr u \<Rightarrow> (parseCluster E u)\<lparr>Reachable := True\<rparr>, ?s1)"
    using g by (cases "world s"; cases g) (simp_all add: run_Probe tr_def trace_def parseCluster_traced)
  have s1: "rejoin_safe E s ?s1"
    unfolding rejoin_safe_def by (rule exI [of _ "[GotCluster c ?k g]"]) (auto intro: rebuild_gated_simple)
  show "wp (converge_site (traced E) r ha eff endpoint rejoinPol nm c ref) (\<lambda>_ t. rejoin_safe E s t) s"
  proof (cases g)
    case (Inl e)
    with s1 show ?thesis
      unfolding converge_site_def wp_bind wp_def [of "Probe (traced E) c ?k"] probe
      by (simp add: siteObsFromHealth_def zero_health_def wp_simps)
  next
    case (Inr u)
    show ?thesis
    proof (cases "in_primary_mode E u")
      case True
      let ?rest = "fence_returning (traced E) r ha nm c ref :: ('w \<times> 'c event list, 'x, unit res) io"
      have "relates (rejoin_safe E) ?rest"
        unfolding fence_returning_def by (intro rejoin.relates_rules rejoin_Fence rejoin_quiet)
      then have "wp ?rest (\<lambda>_ t. rejoin_safe E ?s1 t) ?s1" by (rule relates_wp)
      then have "wp ?rest (\<lambda>_ t. rejoin_safe E s t) ?s1"
        by (rule wp_mono) (rule rejoin.seq [OF s1])
      with True Inr assms show ?thesis
        unfolding converge_site_def wp_bind [of "Probe (traced E) c ?k"] wp_def [of "Probe (traced E) c ?k"] probe
        by (simp add: siteObsFromHealth_def Let_def)
    next
      case False
      let ?P = "\<lambda>e. \<forall>c' k' u' r'. e = PutCluster c' k' u' r' \<longrightarrow> c' = c \<and> k' = ?k"
      let ?rest = "repoint_replica (traced E) eff endpoint nm c ref :: ('w \<times> 'c event list, 'x, unit res) io"
      have "relates (logs ?P) ?rest"
        unfolding repoint_replica_def by (intro log.relates_rules logs_Reconfigure) (simp_all add: k)
      then have "wp ?rest (\<lambda>_ t. logs ?P ?s1 t) ?s1" by (rule relates_wp)
      then have "wp ?rest (\<lambda>_ t. rejoin_safe E s t) ?s1"
      proof (rule wp_mono)
        fix a t assume "logs ?P ?s1 t"
        then obtain es where es: "trace t = trace s @ (GotCluster c ?k g # es)" "list_all ?P es"
          by (auto simp: logs_def)
        have "rebuild_gated E (GotCluster c ?k g # es)"
          using es(2) Inr False
          by (auto simp: rebuild_gated_def list_all_iff Cons_eq_append_conv)
        with es(1) show "rejoin_safe E s t" unfolding rejoin_safe_def by blast
      qed
      with False Inr show ?thesis
        unfolding converge_site_def wp_bind [of "Probe (traced E) c ?k"] wp_def [of "Probe (traced E) c ?k"] probe
        by (simp add: siteObsFromHealth_def Let_def)
    qed
  qed
qed

lemma rejoin_loop:
  assumes "rejoinPol \<noteq> RejoinPolicyAutoReplica"
  shows "relates (rejoin_safe E) (topology_loop (traced E) r ha eff endpoint rejoinPol obs)"
proof (induction obs)
  case Nil
  show ?case by (simp add: rejoin.relates_return)
next
  case (Cons ob obs)
  show ?case
    unfolding topology_loop.simps
    by (intro rejoin.relates_rules rejoin_quiet rejoin_converge [OF assms] Cons.IH)
qed

lemma rejoin_topology:
  "fo_RejoinPolicy (spec_failover ha) \<noteq> RejoinPolicyAutoReplica \<Longrightarrow>
   relates (rejoin_safe E) (reconcileReplicaTopology (traced E) r ha eff p rs)"
  unfolding reconcileReplicaTopology_def Let_def by (intro rejoin.relates_rules rejoin_loop) simp

section \<open>What one site ends up as\<close>

text \<open>Recording an Event changes no Cluster.\<close>

definition events_separate :: "('w, 'c) env \<Rightarrow> bool" where
  "events_separate E \<longleftrightarrow> (\<forall>k ty rs msg w c k'.
     fst (get_cluster E c k' (emit_event E k ty rs msg w)) = fst (get_cluster E c k' w))"

lemma events_separate_ref: "events_separate ref_env"
  by (simp add: events_separate_def ref_env_def split: option.splits)

text \<open>A replica-mode Cluster whose replication source is the given host.\<close>

definition streams_from :: "'x lib_scheme \<Rightarrow> string \<Rightarrow> json \<Rightarrow> bool" where
  "streams_from L host u \<longleftrightarrow> fst (nestedBool L u replica_enabled_path) \<and>
     (\<exists>idx ext. externalClusterIndex (fst (nestedSlice L u [''spec'', ''externalClusters'']))
          (fst (nestedString L u [''spec'', ''replica'', ''source''])) = Inr idx \<and>
        fst (nestedSlice L u [''spec'', ''externalClusters'']) ! idx = JObj ext \<and>
        host_of ext = Some (JStr host))"

lemma reconfigure_plan_settled: "reconfigure_plan host L ref u = Inr None \<Longrightarrow> streams_from L host u"
  by (erule reconfigure_plan_None) (auto simp: streams_from_def)

lemma fence_plan_spec:
  "unstructured_laws L \<Longrightarrow> fence_plan L ref u = Inr (Some u') \<Longrightarrow> same_reads L u' u (''spec'' # p)"
  using unstructuredD(8) by (fastforce simp: fence_plan_def split: if_splits)

lemma Fence_spec:
  assumes "store_laws E srv" and "unstructured_laws E" and "run_state (Fence E c ref) s = (Ok (), t)"
    and "fst (get_cluster E c (ref_key ref) (world s)) = Inr u"
  shows "\<exists>v. fst (get_cluster E c (ref_key ref) (world t)) = Inr v \<and> all_fenced E v \<and> (\<forall>p. same_reads E v u (''spec'' # p))"
proof -
  note st = store_faithful(1) [OF assms(1)]
  from fence_step.success_settled [OF st assms(2,3)] obtain v where
    v: "fst (get_cluster E c (ref_key ref) (world t)) = Inr v" "fence_plan E ref v = Inr None" by blast
  from fence_step.success_agrees [OF st assms(3)] assms(4) v(1)
  have "(fence_plan E ref u = Inr None \<and> v = u) \<or> (\<exists>u'. fence_plan E ref u = Inr (Some u') \<and> same_intent E v u')"
    by (metis sum.inject(2))
  then have "same_reads E v u (''spec'' # p)" for p
    using fence_plan_spec [OF assms(2)] by (auto simp: same_intent_def same_reads_def)
  with v fence_plan_settled [OF v(2)] show ?thesis by blast
qed

lemma Reconfigure_follows:
  assumes "store_laws E srv" and "unstructured_laws E" and "run_state (Reconfigure E c ref host) s = (Ok (), t)"
  shows "\<exists>v. fst (get_cluster E c (ref_key ref) (world t)) = Inr v \<and> streams_from E host v"
  using reconfigure_step.success_settled [OF store_faithful(1) [OF assms(1)] assms(2,3)] reconfigure_plan_settled
  by blast

lemma run_event_of:
  "run_state (event_of E r ha ty rs msg) s = ((), if r_Recorder r then s\<lparr>world := emit_event E (ha_key ha) ty rs msg (world s)\<rparr> else s)"
  by (simp add: event_of_def)

lemma rejoin_as_replica_Ok:
  assumes "events_separate E" and "run_state (rejoin_as_replica E r ha eff endpoint nm c ref) s = (Ok (), t)"
  shows "\<exists>u. run_state (Reconfigure E c ref endpoint) s = (Ok (), u) \<and>
    (\<forall>d k. fst (get_cluster E d k (world t)) = fst (get_cluster E d k (world u)))"
  using assms(2)
  by (auto simp: rejoin_as_replica_def run_event_of assms(1) [unfolded events_separate_def]
      split: prod.splits res.splits if_splits)

lemma fence_returning_Ok:
  assumes "events_separate E" and "run_state (fence_returning E r ha nm c ref) s = (Ok (), t)"
  shows "\<exists>u. run_state (Fence E c ref) s = (Ok (), u) \<and>
    (\<forall>d k. fst (get_cluster E d k (world t)) = fst (get_cluster E d k (world u)))"
  using assms(2)
  by (auto simp: fence_returning_def run_event_of assms(1) [unfolded events_separate_def]
      split: prod.splits res.splits if_splits)

lemma repoint_replica_Ok:
  assumes "run_state (repoint_replica E eff endpoint nm c ref) s = (Ok (), t)"
  shows "run_state (Reconfigure E c ref endpoint) s = (Ok (), t)"
  using assms by (auto simp: repoint_replica_def split: prod.splits res.splits)

lemma converge_site_run:
  assumes "store_laws E srv"
  shows "run_state (converge_site E r ha eff endpoint rejoin nm c ref) s =
    (case fst (get_cluster E c (ref_key ref) (world s)) of
       Inl e \<Rightarrow> (Ok (), s)
     | Inr u \<Rightarrow> if in_primary_mode E u
         then if rejoin = RejoinPolicyAutoReplica then run_state (rejoin_as_replica E r ha eff endpoint nm c ref) s
              else run_state (fence_returning E r ha nm c ref) s
         else run_state (repoint_replica E eff endpoint nm c ref) s)"
proof -
  obtain g w where g: "get_cluster E c (ref_key ref) (world s) = (g, w)" by fastforce
  with store_lawsD(1) [OF assms, of c "ref_key ref" "world s"] have w: "w = world s" by simp
  have k: "nn (ref_Namespace ref) (ref_Name ref) = ref_key ref" by (simp add: ref_key_def)
  show ?thesis
  proof (cases g)
    case (Inl e)
    with g w show ?thesis unfolding converge_site_def k
      by (simp add: run_Probe siteObsFromHealth_def zero_health_def)
  next
    case (Inr u)
    with g w show ?thesis unfolding converge_site_def k
      by (simp add: run_Probe siteObsFromHealth_def Let_def)
  qed
qed

text \<open>One site of the topology loop, when it reports success (Kubernetes store without concurrent writers, Events
  kept apart from Clusters): a site whose Cluster does not read is left alone; a site in primary mode is fenced,
  with everything below \<open>spec\<close> as it was, unless the policy is \<open>AutoReplica\<close>; every other site, and
  under \<open>AutoReplica\<close> the returning primary too, is in replica mode and its selected external cluster points
  at the primary's endpoint.\<close>

lemma converge_site_result:
  assumes "store_laws E srv" and "unstructured_laws E" and "events_separate E"
    and "run_state (converge_site E r ha eff endpoint rejoin nm c ref) s = (Ok (), t)"
  shows "case fst (get_cluster E c (ref_key ref) (world s)) of
      Inl e \<Rightarrow> t = s
    | Inr u \<Rightarrow> (\<exists>v. fst (get_cluster E c (ref_key ref) (world t)) = Inr v \<and>
        (if in_primary_mode E u \<and> rejoin \<noteq> ''AutoReplica''
         then all_fenced E v \<and> (\<forall>p. same_reads E v u (''spec'' # p))
         else streams_from E endpoint v))"
proof (cases "fst (get_cluster E c (ref_key ref) (world s))")
  case (Inl e)
  then show ?thesis using assms(4) unfolding converge_site_run [OF assms(1)] by simp
next
  case (Inr u)
  note run = assms(4) [unfolded converge_site_run [OF assms(1)] Inr sum.case]
  show ?thesis
  proof (cases "in_primary_mode E u \<and> rejoin \<noteq> RejoinPolicyAutoReplica")
    case True
    with run have "run_state (fence_returning E r ha nm c ref) s = (Ok (), t)" by simp
    from fence_returning_Ok [OF assms(3) this] obtain t' where
      t': "run_state (Fence E c ref) s = (Ok (), t')"
      "\<forall>d k. fst (get_cluster E d k (world t)) = fst (get_cluster E d k (world t'))" by blast
    from Fence_spec [OF assms(1,2) t'(1) Inr] t'(2) True Inr show ?thesis by simp
  next
    case False
    have "\<exists>t'. run_state (Reconfigure E c ref endpoint) s = (Ok (), t') \<and>
      (\<forall>d k. fst (get_cluster E d k (world t)) = fst (get_cluster E d k (world t')))"
    proof (cases "in_primary_mode E u")
      case True
      with False run have "run_state (rejoin_as_replica E r ha eff endpoint nm c ref) s = (Ok (), t)" by simp
      then show ?thesis by (rule rejoin_as_replica_Ok [OF assms(3)])
    next
      case False
      with run have "run_state (repoint_replica E eff endpoint nm c ref) s = (Ok (), t)" by simp
      from repoint_replica_Ok [OF this] show ?thesis by blast
    qed
    then obtain t' where
      t': "run_state (Reconfigure E c ref endpoint) s = (Ok (), t')"
      "\<forall>d k. fst (get_cluster E d k (world t)) = fst (get_cluster E d k (world t'))" by blast
    from Reconfigure_follows [OF assms(1,2) t'(1)] t'(2) False Inr show ?thesis by auto
  qed
qed

section \<open>Properties\<close>

text \<open>C16. The rejoin policy is a data-safety guard, in every environment: unless the policy is \<open>AutoReplica\<close>,
  every Cluster update \<open>reconcileReplicaTopology\<close> makes is the fencing write, or is made on a Cluster that a
  read earlier in the same run showed in replica mode. A site only ever seen in primary mode (a returning old
  primary, or one just demoted) is never rebuilt.\<close>

theorem manual_rejoin_never_rebuilds:
  assumes "fo_RejoinPolicy (spec_failover ha) \<noteq> ''AutoReplica''"
    and "run_state (reconcileReplicaTopology (traced E) r ha eff p rs) s = (x, t)"
  shows "\<exists>es. trace t = trace s @ es \<and> rebuild_gated E es"
proof -
  have "relates (rejoin_safe E) (reconcileReplicaTopology (traced E) r ha eff p rs)"
    by (rule rejoin_topology) (simp add: assms(1))
  from relates_run [OF this assms(2)] show ?thesis by (simp add: rejoin_safe_def)
qed

lemma demo_topology_writes:
  "list_ex site_write (trace (snd (run_state (reconcileReplicaTopology (traced ref_env) demo_rec
     (demo_ha ''Manual'' ''Ordered'' [] ''b'') ''b'' manual_p [demo_obs ''b'' True False True 1]) (demo_tmem 1))))"
  by code_simp

theorem manual_rejoin_never_rebuilds_witness:
  "rebuild_gated ref_env (trace (snd (run_state (reconcileReplicaTopology (traced ref_env) demo_rec
     (demo_ha ''Manual'' ''Ordered'' [] ''b'') ''b'' manual_p [demo_obs ''b'' True False True 1]) (demo_tmem 1)))) \<and>
   list_ex site_write (trace (snd (run_state (reconcileReplicaTopology (traced ref_env) demo_rec
     (demo_ha ''Manual'' ''Ordered'' [] ''b'') ''b'' manual_p [demo_obs ''b'' True False True 1]) (demo_tmem 1))))"
proof -
  let ?run = "run_state (reconcileReplicaTopology (traced ref_env) demo_rec
     (demo_ha ''Manual'' ''Ordered'' [] ''b'') ''b'' manual_p [demo_obs ''b'' True False True 1]) (demo_tmem 1)"
  obtain x t where r: "?run = (x, t)" by fastforce
  have "fo_RejoinPolicy (spec_failover (demo_ha ''Manual'' ''Ordered'' [] ''b'')) \<noteq> ''AutoReplica''"
    by (simp add: demo_ha_def)
  from manual_rejoin_never_rebuilds [OF this r] have "rebuild_gated ref_env (trace t)"
    by (simp add: demo_tmem_def trace_def)
  with r demo_topology_writes show ?thesis by simp
qed

text \<open>Topology changes are opt-in: without a known primary, or when the primary's site declares no replication
  endpoint, \<open>reconcileReplicaTopology\<close> makes no call at all and reports success.\<close>

lemma topology_opt_in:
  assumes "eff = [] \<or> replicationEndpointFor ha eff = []"
  shows "run_state (reconcileReplicaTopology E r ha eff p rs) s = (Ok (), s)"
  using assms by (auto simp: reconcileReplicaTopology_def Let_def)

end
