(* ===== verification/Controller_Status.thy ===== *)
theory Controller_Status
  imports Controller_Topology
begin

text \<open>
  What a reconcile reports: the conditions (\<open>setConditions\<close>) and the metrics
  (\<open>publishMetrics\<close>) of \<open>internal/controller/hacluster_controller.go\<close>. The effect of
  \<open>publishMetrics\<close> on a scrape is stated by the pure function \<open>published\<close>, which
  the loop of gauge calls refines.
\<close>

section \<open>Conditions\<close>

definition conditionAvailable :: string where "conditionAvailable = ''Available''"
definition conditionDegraded :: string where "conditionDegraded = ''Degraded''"
definition conditionSplitBrain :: string where "conditionSplitBrain = ''SplitBrain''"

definition available_condition :: "HACluster \<Rightarrow> time \<Rightarrow> bool \<Rightarrow> Condition" where
  "available_condition ha now available =
     (let avail = \<lparr>cond_Type = conditionAvailable, cond_Status = ConditionFalse,
            cond_ObservedGeneration = ha_Generation ha, cond_LastTransitionTime = now,
            cond_Reason = ''PrimaryNotReady'', cond_Message = ''no healthy CNPG-primary observed''\<rparr>
      in if available then avail\<lparr>cond_Status := ConditionTrue, cond_Reason := ''PrimaryReady'',
           cond_Message := ''primary site '' @ fmt_q (CurrentPrimarySite (ha_Status ha)) @
             '' is CNPG-primary and ready''\<rparr>
         else avail)"

definition split_condition :: "HACluster \<Rightarrow> time \<Rightarrow> string list \<Rightarrow> Condition" where
  "split_condition ha now splitBrain =
     (let split = \<lparr>cond_Type = conditionSplitBrain, cond_Status = ConditionFalse,
            cond_ObservedGeneration = ha_Generation ha, cond_LastTransitionTime = now,
            cond_Reason = ''NoConflict'',
            cond_Message = ''at most one site observed as CNPG-primary and ready''\<rparr>
      in if 1 < length splitBrain then split\<lparr>cond_Status := ConditionTrue,
           cond_Reason := ''MultiplePrimariesObserved'',
           cond_Message := ''multiple sites observed as CNPG-primary and ready: '' @ fmt_strings splitBrain @
             '' '' @ dash @ '' writes may diverge''\<rparr>
         else split)"

definition unreachable_sites :: "siteObservation list \<Rightarrow> string list" where
  "unreachable_sites obs = map o_name (filter (\<lambda>ob. \<not> o_reachable ob) obs)"

definition unready_sites :: "siteObservation list \<Rightarrow> string list" where
  "unready_sites obs = map o_name (filter (\<lambda>ob. o_reachable ob \<and> \<not> o_ready ob) obs)"

definition degraded_condition :: "HACluster \<Rightarrow> time \<Rightarrow> siteObservation list \<Rightarrow> Condition" where
  "degraded_condition ha now obs =
     (let degraded = \<lparr>cond_Type = conditionDegraded, cond_Status = ConditionFalse,
            cond_ObservedGeneration = ha_Generation ha, cond_LastTransitionTime = now,
            cond_Reason = ''AllSitesHealthy'', cond_Message = ''all sites reachable and ready''\<rparr>;
          unreachable = unreachable_sites obs; unready = unready_sites obs
      in if unreachable \<noteq> [] then degraded\<lparr>cond_Status := ConditionTrue, cond_Reason := ''SitesUnreachable'',
           cond_Message := ''unreachable sites: '' @ fmt_strings unreachable @ '' (unready: '' @
             fmt_strings unready @ '')''\<rparr>
         else if unready \<noteq> [] then degraded\<lparr>cond_Status := ConditionTrue, cond_Reason := ''SitesNotReady'',
           cond_Message := ''sites reachable but not ready: '' @ fmt_strings unready\<rparr>
         else degraded)"

definition setConditions ::
  "('w, 'c) env \<Rightarrow> HACluster \<Rightarrow> bool \<Rightarrow> string list \<Rightarrow> siteObservation \<Rightarrow> siteObservation list \<Rightarrow>
   ('w, 'x, HACluster) io" where
  "setConditions E ha available splitBrain primaryOb replicas = do {
     now \<leftarrow> call (now_time E);
     let ha = with_condition E ha (available_condition ha now available);
     let ha = with_condition E ha (split_condition ha now splitBrain);
     let ha = with_condition E ha (degraded_condition ha now (primaryOb # replicas));
     State_Monad.return ha
   }"

section \<open>Metrics\<close>

definition primary_lsn :: "string \<Rightarrow> siteObservation list \<Rightarrow> u64 option" where
  "primary_lsn currentPrimary obs =
     (case find (\<lambda>ob. o_name ob = currentPrimary \<and> o_lsnKnown ob) obs of
        None \<Rightarrow> None
      | Some ob \<Rightarrow> Some (o_lsnValue ob))"

definition publish_site ::
  "('w, 'c) env \<Rightarrow> HACluster \<Rightarrow> string \<Rightarrow> u64 option \<Rightarrow> siteObservation \<Rightarrow> ('w, 'x, unit) io" where
  "publish_site E ha currentPrimary primaryLSN ob =
     (let ns = ha_Namespace ha; n = ha_Name ha; site = o_name ob in do {
        _ \<leftarrow> SetSite E ns n site (site = currentPrimary) (o_reachable ob) (o_ready ob);
        _ \<leftarrow> (case o_lagSeconds ob of
               Some lag \<Rightarrow> SetReplicaLag E ns n site lag
             | None \<Rightarrow> ClearReplicaLag E ns n site);
        _ \<leftarrow> (case primaryLSN of
               None \<Rightarrow> ClearReplicaLagBytes E ns n site
             | Some lsn \<Rightarrow>
                 if \<not> o_lsnKnown ob then ClearReplicaLagBytes E ns n site
                 else if site = currentPrimary \<or> lsn \<le> o_lsnValue ob
                 then SetReplicaLagBytes E ns n site (f64_of_int 0)
                 else SetReplicaLagBytes E ns n site (f64_of_u64 (lsn - o_lsnValue ob)));
        _ \<leftarrow> (if o_lsnKnown ob then SetSiteCurrentLSNBytes E ns n site (f64_of_u64 (o_lsnValue ob))
             else ClearSiteCurrentLSNBytes E ns n site);
        if o_lsnKnown ob \<and> o_lsn ob \<noteq> [] then SetSiteLSNInfo E ns n site (o_lsn ob)
        else ClearSiteLSNInfo E ns n site
      })"

fun publish_sites ::
  "('w, 'c) env \<Rightarrow> HACluster \<Rightarrow> string \<Rightarrow> u64 option \<Rightarrow> siteObservation list \<Rightarrow> ('w, 'x, unit) io" where
  "publish_sites E ha currentPrimary primaryLSN [] = State_Monad.return ()"
| "publish_sites E ha currentPrimary primaryLSN (ob # obs) = do {
     _ \<leftarrow> publish_site E ha currentPrimary primaryLSN ob;
     publish_sites E ha currentPrimary primaryLSN obs
   }"

definition publishMetrics ::
  "('w, 'c) env \<Rightarrow> HACluster \<Rightarrow> string \<Rightarrow> bool \<Rightarrow> siteObservation \<Rightarrow> siteObservation list \<Rightarrow> ('w, 'x, unit) io" where
  "publishMetrics E ha currentPrimary splitBrain primaryOb replicaObs =
     (let obs = primaryOb # replicaObs in do {
        _ \<leftarrow> publish_sites E ha currentPrimary (primary_lsn currentPrimary obs) obs;
        SetSplitBrain E (ha_Namespace ha) (ha_Name ha) splitBrain
      })"

section \<open>What a scrape shows\<close>

text \<open>How far a site is behind the current primary; \<open>None\<close> when either position is unknown.\<close>

definition lag_bytes :: "u64 option \<Rightarrow> siteObservation \<Rightarrow> u64 option" where
  "lag_bytes primaryLSN ob = (case primaryLSN of
     Some lsn \<Rightarrow> if o_lsnKnown ob then Some (if lsn \<le> o_lsnValue ob then 0 else lsn - o_lsnValue ob) else None
   | None \<Rightarrow> None)"

text \<open>
  The series one site owns, with their new values (\<open>Some None\<close>: absent); \<open>None\<close> for every
  other series.
\<close>

definition site_series :: "HACluster \<Rightarrow> string \<Rightarrow> u64 option \<Rightarrow> siteObservation \<Rightarrow> string \<times> string list \<Rightarrow> f64 option option" where
  "site_series ha cp lsn ob = (\<lambda>(g, ls).
     let key = [ha_Name ha, ha_Namespace ha, o_name ob] in
     if ls = key \<and> g = vec_Name CurrentPrimarySiteVec then Some (Some (boolGauge (o_name ob = cp)))
     else if ls = key \<and> g = vec_Name SiteReachable then Some (Some (boolGauge (o_reachable ob)))
     else if ls = key \<and> g = vec_Name SiteReady then Some (Some (boolGauge (o_ready ob)))
     else if ls = key \<and> g = vec_Name ReplicaLagSeconds then Some (o_lagSeconds ob)
     else if ls = key \<and> g = vec_Name ReplicaLagBytes then Some (map_option f64_of_u64 (lag_bytes lsn ob))
     else if ls = key \<and> g = vec_Name SiteCurrentLSNBytes
       then Some (if o_lsnKnown ob then Some (f64_of_u64 (o_lsnValue ob)) else None)
     else if take 3 ls = key \<and> g = vec_Name SiteLSNInfo
       then Some (if o_lsnKnown ob \<and> o_lsn ob \<noteq> [] \<and> ls = key @ [o_lsn ob] then Some (Finite 1 0) else None)
     else None)"

definition published ::
  "HACluster \<Rightarrow> string \<Rightarrow> bool \<Rightarrow> siteObservation list \<Rightarrow> scrape \<Rightarrow> scrape" where
  "published ha cp sb obs old = (\<lambda>k.
     if k = (vec_Name SplitBrain, [ha_Name ha, ha_Namespace ha]) then Some (boolGauge sb)
     else case find (\<lambda>ob. site_series ha cp (primary_lsn cp obs) ob k \<noteq> None) obs of
       None \<Rightarrow> old k
     | Some ob \<Rightarrow> the (site_series ha cp (primary_lsn cp obs) ob k))"

lemma site_series_names:
  assumes "site_series ha cp lsn ob k \<noteq> None" and "site_series ha cp lsn' ob' k \<noteq> None"
  shows "o_name ob = o_name ob'"
  using assms by (auto simp: site_series_def Let_def split: if_splits prod.splits)

lemma gauge_lawsD:
  assumes "gauge_laws E series"
  shows "series (gauge_set E g ls v w) = (series w)((g, ls) \<mapsto> v)"
    and "series (gauge_delete E g ls w) = (series w)((g, ls) := None)"
  using assms by (simp_all add: gauge_laws_def)

lemma f64_zero: "f64_of_int 0 = Finite 0 0" "f64_of_u64 0 = Finite 0 0"
  by (simp_all add: f64_of_u64_def f64_of_int_small)

lemma collector_names: "distinct (map vec_Name collectors)" "distinct (map vec_Name (rev collectors))"
  by (simp_all add: collectors_def vec_defs)

lemmas collector_names_neq [simp] = collector_names [unfolded collectors_def rev.simps append.simps list.map distinct.simps
  list.set insert_iff empty_iff de_Morgan_disj not_False_eq_True simp_thms conj_assoc]

lemma publish_site_world:
  "world (snd (run_state (publish_site E ha cp lsn ob) s)) =
    (let key = [ha_Name ha, ha_Namespace ha, o_name ob];
         info = [(''hacluster'', ha_Name ha), (''namespace'', ha_Namespace ha), (''site'', o_name ob)];
         w = world s;
         w = gauge_set E (vec_Name CurrentPrimarySiteVec) key (boolGauge (o_name ob = cp)) w;
         w = gauge_set E (vec_Name SiteReachable) key (boolGauge (o_reachable ob)) w;
         w = gauge_set E (vec_Name SiteReady) key (boolGauge (o_ready ob)) w;
         w = (case o_lagSeconds ob of None \<Rightarrow> gauge_delete E (vec_Name ReplicaLagSeconds) key w
              | Some v \<Rightarrow> gauge_set E (vec_Name ReplicaLagSeconds) key v w);
         w = (case lsn of None \<Rightarrow> gauge_delete E (vec_Name ReplicaLagBytes) key w
              | Some x \<Rightarrow> if \<not> o_lsnKnown ob then gauge_delete E (vec_Name ReplicaLagBytes) key w
                  else gauge_set E (vec_Name ReplicaLagBytes) key
                    (if o_name ob = cp \<or> x \<le> o_lsnValue ob then f64_of_int 0 else f64_of_u64 (x - o_lsnValue ob)) w);
         w = (if o_lsnKnown ob then gauge_set E (vec_Name SiteCurrentLSNBytes) key (f64_of_u64 (o_lsnValue ob)) w
              else gauge_delete E (vec_Name SiteCurrentLSNBytes) key w);
         w = gauge_delete_partial E (vec_Name SiteLSNInfo) info w
     in if o_lsnKnown ob \<and> o_lsn ob \<noteq> [] then gauge_set E (vec_Name SiteLSNInfo) (key @ [o_lsn ob]) (Finite 1 0) w else w)"
  unfolding publish_site_def metric_ops Let_def
  by (cases "o_lagSeconds ob"; cases lsn) simp_all

lemma publish_site_series:
  assumes "gauge_laws E series" and "o_name ob = cp \<Longrightarrow> o_lsnKnown ob \<Longrightarrow> lsn = Some (o_lsnValue ob)"
  shows "series (world (snd (run_state (publish_site E ha cp lsn ob) s))) (g, ls) =
    (case site_series ha cp lsn ob (g, ls) of None \<Rightarrow> series (world s) (g, ls) | Some v \<Rightarrow> v)"
proof -
  note laws = gauge_lawsD [OF assms(1)] gauge_delete_info [OF assms(1)]
  have opt: "series (case z of None \<Rightarrow> a | Some x \<Rightarrow> b x) k = (case z of None \<Rightarrow> series a k | Some x \<Rightarrow> series (b x) k)"
    for z :: "'z option" and a b k by (cases z) simp_all
  have cond: "series (if z then a else b) k = (if z then series a k else series b k)" for z a b k by simp
  have other: ?thesis if "g \<notin> vec_Name ` set [CurrentPrimarySiteVec, SiteReachable, SiteReady, ReplicaLagSeconds,
      ReplicaLagBytes, SiteCurrentLSNBytes, SiteLSNInfo]"
    using that unfolding publish_site_world Let_def by (simp add: laws cond opt site_series_def split: option.split)
  have simple: ?thesis if "g \<in> {vec_Name CurrentPrimarySiteVec, vec_Name SiteReachable, vec_Name SiteReady}"
    using that unfolding publish_site_world Let_def
    by (elim insertE emptyE) (simp_all add: laws cond opt site_series_def Let_def split: option.split)
  have lag: ?thesis if "g = vec_Name ReplicaLagSeconds"
    using that unfolding publish_site_world Let_def
    by (simp add: laws cond opt site_series_def Let_def split: option.split)
  have bytes: ?thesis if "g = vec_Name ReplicaLagBytes"
    using that assms(2) unfolding publish_site_world Let_def
    by (simp add: laws cond opt site_series_def Let_def lag_bytes_def f64_zero split: option.split) auto
  have pos: ?thesis if "g = vec_Name SiteCurrentLSNBytes"
    using that unfolding publish_site_world Let_def
    by (simp add: laws cond opt site_series_def Let_def split: option.split)
  have info: ?thesis if "g = vec_Name SiteLSNInfo"
    using that unfolding publish_site_world Let_def
    by (simp add: laws cond opt site_series_def Let_def split: option.split)
  show ?thesis using other simple lag bytes pos info by auto
qed

lemma publish_sites_series:
  assumes "gauge_laws E series" and "distinct (map o_name obs)"
    and "\<forall>ob \<in> set obs. o_name ob = cp \<longrightarrow> o_lsnKnown ob \<longrightarrow> lsn = Some (o_lsnValue ob)"
  shows "series (world (snd (run_state (publish_sites E ha cp lsn obs) s))) k =
    (case find (\<lambda>ob. site_series ha cp lsn ob k \<noteq> None) obs of
       None \<Rightarrow> series (world s) k
     | Some ob \<Rightarrow> the (site_series ha cp lsn ob k))"
  using assms(2,3)
proof (induction obs arbitrary: s)
  case (Cons ob obs)
  obtain g ls where k: "k = (g, ls)" by fastforce
  let ?t = "snd (run_state (publish_site E ha cp lsn ob) s)"
  have t: "series (world ?t) k = (case site_series ha cp lsn ob k of None \<Rightarrow> series (world s) k | Some v \<Rightarrow> v)"
    unfolding k by (rule publish_site_series [OF assms(1)]) (use Cons.prems(2) in auto)
  have run: "snd (run_state (publish_sites E ha cp lsn (ob # obs)) s) = snd (run_state (publish_sites E ha cp lsn obs) ?t)"
    by (simp split: prod.splits)
  show ?case
  proof (cases "site_series ha cp lsn ob k")
    case None
    with Cons t show ?thesis unfolding run by (simp split: option.split)
  next
    case (Some v)
    have "find (\<lambda>ob. site_series ha cp lsn ob k \<noteq> None) obs = None"
      using site_series_names [of ha cp lsn ob k] Some Cons.prems(1) unfolding find_None_iff by fastforce
    with Cons t Some show ?thesis unfolding run by simp
  qed
qed simp

lemma primary_lsn_known:
  assumes "distinct (map o_name obs)" and "ob \<in> set obs" and "o_name ob = cp" and "o_lsnKnown ob"
  shows "primary_lsn cp obs = Some (o_lsnValue ob)"
proof -
  have "find (\<lambda>ob. o_name ob = cp \<and> o_lsnKnown ob) obs = Some ob"
    using assms by (induction obs) auto
  then show ?thesis by (simp add: primary_lsn_def)
qed

section \<open>Conditions after an update\<close>

lemma find_with_condition:
  assumes "condition_laws L"
  shows "ty \<noteq> cond_Type c \<Longrightarrow>
      find_cond (Conditions (ha_Status (with_condition L ha c))) ty = find_cond (Conditions (ha_Status ha)) ty"
    and "\<exists>d. find_cond (Conditions (ha_Status (with_condition L ha c))) (cond_Type c) = Some d \<and>
      cond_Status d = cond_Status c \<and> cond_Reason d = cond_Reason c \<and> cond_Message d = cond_Message c \<and>
      cond_ObservedGeneration d = cond_ObservedGeneration c"
  using assms by (simp_all add: condition_laws_def with_condition_def)

lemma condition_fields [simp]:
  "cond_Type (available_condition ha now b) = conditionAvailable"
  "cond_Type (split_condition ha now sb) = conditionSplitBrain"
  "cond_Type (degraded_condition ha now obs) = conditionDegraded"
  "cond_Status (available_condition ha now b) = (if b then ''True'' else ''False'')"
  "cond_Status (split_condition ha now sb) = (if 1 < length sb then ''True'' else ''False'')"
  "cond_ObservedGeneration (available_condition ha now b) = ha_Generation ha"
  "cond_ObservedGeneration (split_condition ha now sb) = ha_Generation ha"
  "cond_ObservedGeneration (degraded_condition ha now obs) = ha_Generation ha"
  by (simp_all add: available_condition_def split_condition_def degraded_condition_def Let_def)

lemma degraded_status:
  "cond_Status (degraded_condition ha now obs) = (if list_all (\<lambda>ob. o_reachable ob \<and> o_ready ob) obs then ''False'' else ''True'')"
  "cond_Reason (degraded_condition ha now obs) =
     (if list_ex (\<lambda>ob. \<not> o_reachable ob) obs then ''SitesUnreachable''
      else if list_ex (\<lambda>ob. \<not> o_ready ob) obs then ''SitesNotReady'' else ''AllSitesHealthy'')"
  by (auto simp: degraded_condition_def unreachable_sites_def unready_sites_def Let_def list_all_iff list_ex_iff
      filter_empty_conv)

lemma condition_types_neq [simp]:
  "conditionAvailable \<noteq> conditionSplitBrain" "conditionAvailable \<noteq> conditionDegraded"
  "conditionSplitBrain \<noteq> conditionAvailable" "conditionSplitBrain \<noteq> conditionDegraded"
  "conditionDegraded \<noteq> conditionAvailable" "conditionDegraded \<noteq> conditionSplitBrain"
  by (simp_all add: conditionAvailable_def conditionSplitBrain_def conditionDegraded_def)

lemma with_condition_generation [simp]: "ha_Generation (with_condition L ha c) = ha_Generation ha"
  by (simp add: with_condition_def)

lemma setConditions_run:
  obtains now w where "run_state (setConditions E ha av sb p rs) s =
    (with_condition E (with_condition E (with_condition E ha (available_condition ha now av))
       (split_condition ha now sb)) (degraded_condition ha now (p # rs)), s\<lparr>world := w\<rparr>)"
proof -
  obtain now w where n: "now_time E (world s) = (now, w)" by fastforce
  have "split_condition (with_condition E ha c) = split_condition ha"
    "degraded_condition (with_condition E ha c) = degraded_condition ha" for ha c
    by (simp_all add: fun_eq_iff split_condition_def degraded_condition_def)
  with n that [of now w] show thesis by (simp add: setConditions_def Let_def)
qed

lemma same_but_conditions_with [simp]: "same_but_conditions ha (with_condition L ha c)"
  by (auto simp: same_but_conditions_def with_condition_def intro: exI [of _ "setStatusCondition L (Conditions (ha_Status ha)) c"])

lemma same_but_conditions_trans:
  "same_but_conditions a b \<Longrightarrow> same_but_conditions b c \<Longrightarrow> same_but_conditions a c"
  by (auto simp: same_but_conditions_def)

section \<open>Properties\<close>

text \<open>C24. The conditions tell what was observed: after \<open>setConditions\<close>, \<open>Available\<close> is \<open>True\<close> exactly
  when a single healthy primary was decided, \<open>SplitBrain\<close> exactly when more than one site claims to be primary,
  \<open>Degraded\<close> exactly when some site is unreachable or not ready, with a reason that gives unreachable sites
  precedence; all three carry the generation of the object; every other condition (\<open>FailoverInProgress\<close>) and
  everything outside the conditions is as before.\<close>

theorem setConditions_correct:
  assumes "condition_laws E" and "run_state (setConditions E ha available splitBrain p rs) s = (ha', t)"
  shows "(\<exists>d. find_cond (Conditions (ha_Status ha')) ''Available'' = Some d \<and>
        cond_Status d = (if available then ''True'' else ''False'') \<and> cond_ObservedGeneration d = ha_Generation ha) \<and>
    (\<exists>d. find_cond (Conditions (ha_Status ha')) ''SplitBrain'' = Some d \<and>
        cond_Status d = (if 1 < length splitBrain then ''True'' else ''False'') \<and>
        cond_ObservedGeneration d = ha_Generation ha) \<and>
    (\<exists>d. find_cond (Conditions (ha_Status ha')) ''Degraded'' = Some d \<and>
        cond_Status d = (if list_all (\<lambda>ob. o_reachable ob \<and> o_ready ob) (p # rs) then ''False'' else ''True'') \<and>
        cond_Reason d = (if list_ex (\<lambda>ob. \<not> o_reachable ob) (p # rs) then ''SitesUnreachable''
          else if list_ex (\<lambda>ob. \<not> o_ready ob) (p # rs) then ''SitesNotReady'' else ''AllSitesHealthy'') \<and>
        cond_ObservedGeneration d = ha_Generation ha) \<and>
    (\<forall>ty. ty \<notin> {''Available'', ''SplitBrain'', ''Degraded''} \<longrightarrow>
        find_cond (Conditions (ha_Status ha')) ty = find_cond (Conditions (ha_Status ha)) ty) \<and>
    same_but_conditions ha ha'"
proof -
  obtain now where ha': "ha' = with_condition E (with_condition E (with_condition E ha (available_condition ha now available))
       (split_condition ha now splitBrain)) (degraded_condition ha now (p # rs))"
    using setConditions_run [of E ha available splitBrain p rs s] assms(2) by auto
  note keep = find_with_condition(1) [OF assms(1)] and new = find_with_condition(2) [OF assms(1)]
  have types: "conditionAvailable = ''Available''" "conditionSplitBrain = ''SplitBrain''" "conditionDegraded = ''Degraded''"
    by (simp_all add: conditionAvailable_def conditionSplitBrain_def conditionDegraded_def)
  have a: "\<exists>d. find_cond (Conditions (ha_Status ha')) conditionAvailable = Some d \<and>
      cond_Status d = (if available then ''True'' else ''False'') \<and> cond_ObservedGeneration d = ha_Generation ha"
    using new [of ha "available_condition ha now available"] by (auto simp: ha' keep)
  have b: "\<exists>d. find_cond (Conditions (ha_Status ha')) conditionSplitBrain = Some d \<and>
      cond_Status d = (if 1 < length splitBrain then ''True'' else ''False'') \<and>
      cond_ObservedGeneration d = ha_Generation ha"
    using new [of "with_condition E ha (available_condition ha now available)" "split_condition ha now splitBrain"]
    by (auto simp: ha' keep)
  note c = new [of "with_condition E (with_condition E ha (available_condition ha now available))
    (split_condition ha now splitBrain)" "degraded_condition ha now (p # rs)",
    folded ha', unfolded degraded_status condition_fields]
  have d: "ty \<notin> {conditionAvailable, conditionSplitBrain, conditionDegraded} \<Longrightarrow>
      find_cond (Conditions (ha_Status ha')) ty = find_cond (Conditions (ha_Status ha)) ty" for ty
    by (simp add: ha' keep)
  have e: "same_but_conditions ha ha'"
    unfolding ha'
    by (rule same_but_conditions_trans [OF same_but_conditions_trans]; rule same_but_conditions_with)
  show ?thesis using a b c d e unfolding types by blast
qed

theorem setConditions_correct_witness:
  "\<exists>d. find_cond (Conditions (ha_Status (fst (run_state (setConditions ref_env down_ha False [] down_p down_rs) (demo_rmem 1)))))
     ''Degraded'' = Some d \<and> cond_Status d = ''True'' \<and> cond_Reason d = ''SitesUnreachable''"
proof -
  obtain ha' t where r: "run_state (setConditions ref_env down_ha False [] down_p down_rs) (demo_rmem 1) = (ha', t)"
    by fastforce
  from setConditions_correct [OF condition_laws_ref r] r show ?thesis
    by (auto simp: down_p_def demo_obs_def)
qed


definition lsn_obs :: "string \<Rightarrow> string \<Rightarrow> u64 \<Rightarrow> siteObservation" where
  "lsn_obs nm txt v = (demo_obs nm True (nm = ''a'') True 1)\<lparr>o_lsnKnown := True, o_lsn := txt, o_lsnValue := v\<rparr>"




end
