(* ===== verification/Controller_Reconcile.thy ===== *)
theory Controller_Reconcile
  imports Controller_Status
begin

text \<open>
  \<open>Reconcile\<close> of \<open>internal/controller/hacluster_controller.go\<close>, composed of the
  components in the order of the source, and the operator's lifetime as a step relation:
  reconciles of any HACluster, restarts of the process (which forget the failure counters and the
  client cache), and anything the rest of the world does in between.
\<close>

section \<open>Model\<close>

text \<open>
  The two handlers. The result is a panic, or the role change to apply and the error to surface.
\<close>

definition run_handlers ::
  "('w, 'c) env \<Rightarrow> ('w, 'c) HAClusterReconciler \<Rightarrow> HACluster \<Rightarrow> siteObservation \<Rightarrow> siteObservation list \<Rightarrow>
   ('w, 'c, 'x, HACluster \<times> (string + promotionEffect \<times> goerror option)) rio" where
  "run_handlers E r ha primaryObs replicaObs = do {
     x \<leftarrow> handlePromoteAnnotation E r ha primaryObs replicaObs;
     case x of (ha, y) \<Rightarrow> (case y of
         Panic m \<Rightarrow> State_Monad.return (ha, Inl m)
       | Err e \<Rightarrow> State_Monad.return (ha, Inr (no_effect, Some e))
       | Ok promoEffect \<Rightarrow> do {
           z \<leftarrow> handleAutomaticFailover E r ha primaryObs replicaObs;
           case z of (ha, u) \<Rightarrow> State_Monad.return (ha, case u of
               Panic m \<Rightarrow> Inl m
             | Err e \<Rightarrow> Inr (promoEffect, Some e)
             | Ok autoEffect \<Rightarrow> Inr (if didPromote autoEffect then autoEffect else promoEffect, None))
         })
   }"

text \<open>Steps 4 and 5: decide, write the status fields, publish, update.\<close>

definition status_fields ::
  "'x lib_scheme \<Rightarrow> HACluster \<Rightarrow> string \<Rightarrow> string \<Rightarrow> siteObservation \<Rightarrow> siteObservation list \<Rightarrow> time \<Rightarrow> HACluster" where
  "status_fields L ha currentPrimary priorPrimary primaryObs replicaObs now =
     ha\<lparr>ha_Status := (ha_Status ha)\<lparr>ObservedGeneration := ha_Generation ha,
       CurrentPrimarySite := (if currentPrimary \<noteq> [] then currentPrimary else priorPrimary),
       Sites := buildSiteStatuses L primaryObs replicaObs now\<rparr>\<rparr>"

definition report_status ::
  "('w, 'c) env \<Rightarrow> ('w, 'c) HAClusterReconciler \<Rightarrow> HACluster \<Rightarrow> string \<Rightarrow> siteObservation \<Rightarrow> siteObservation list \<Rightarrow>
   ('w, 'x, goerror + HACluster) io" where
  "report_status E r ha priorPrimary primaryObs replicaObs =
     (case decideCurrentPrimary primaryObs replicaObs of (currentPrimary, available) \<Rightarrow>
      let splitBrain = detectSplitBrain primaryObs replicaObs in do {
        now \<leftarrow> call (now_time E);
        ha \<leftarrow> setConditions E (status_fields E ha currentPrimary priorPrimary primaryObs replicaObs now)
          available splitBrain primaryObs replicaObs;
        _ \<leftarrow> publishMetrics E ha currentPrimary (splitBrain \<noteq> []) primaryObs replicaObs;
        call (status_update_ha E (r_Client r) ha)
      })"

text \<open>Step 6 and the requeue delay.\<close>

definition requeue_after :: "HACluster \<Rightarrow> duration" where
  "requeue_after ha = (if fo_Mode (spec_failover ha) = FailoverModeAutomatic
     then effectiveHealthInterval (spec_failover ha) else requeuePeriod)"

definition converge_topology ::
  "('w, 'c) env \<Rightarrow> ('w, 'c) HAClusterReconciler \<Rightarrow> HACluster \<Rightarrow> string \<Rightarrow> siteObservation \<Rightarrow> siteObservation list \<Rightarrow>
   (('w, 'c, 'x) cmem_scheme, duration res) state" where
  "converge_topology E r ha priorPrimary primaryObs replicaObs =
     (let currentPrimary = fst (decideCurrentPrimary primaryObs replicaObs) in do {
        x \<leftarrow> reconcileReplicaTopology E r ha (if currentPrimary = [] then priorPrimary else currentPrimary)
          primaryObs replicaObs;
        State_Monad.return (case x of Ok _ \<Rightarrow> Ok (requeue_after ha) | Err e \<Rightarrow> Err e | Panic m \<Rightarrow> Panic m)
      })"

definition report_and_converge ::
  "('w, 'c) env \<Rightarrow> ('w, 'c) HAClusterReconciler \<Rightarrow> HACluster \<Rightarrow> string \<Rightarrow> goerror option \<Rightarrow> siteObservation \<Rightarrow>
   siteObservation list \<Rightarrow> (('w, 'c, 'x) cmem_scheme, duration res) state" where
  "report_and_converge E r ha priorPrimary promoteErr primaryObs replicaObs = do {
     u \<leftarrow> report_status E r ha priorPrimary primaryObs replicaObs;
     case u of
       Inl e \<Rightarrow> State_Monad.return (Err (Wrapf ''update status'' e))
     | Inr ha \<Rightarrow> (case promoteErr of
           Some e \<Rightarrow> State_Monad.return (Err e)
         | None \<Rightarrow> converge_topology E r ha priorPrimary primaryObs replicaObs)
   }"

definition Reconcile ::
  "('w, 'c) env \<Rightarrow> ('w, 'c) HAClusterReconciler \<Rightarrow> NamespacedName \<Rightarrow> ('w, 'c, 'x, duration res) rio" where
  "Reconcile E r req = do {
     x \<leftarrow> call (get_ha E (r_Client r) req);
     case x of
       Inl e \<Rightarrow> State_Monad.return (case ignoreNotFound E e of None \<Rightarrow> Ok 0 | Some e' \<Rightarrow> Err e')
     | Inr ha \<Rightarrow> do {
         primaryObs \<leftarrow> observePrimary E r ha;
         replicaObs \<leftarrow> observe_replicas E r ha (spec_replicas ha);
         y \<leftarrow> run_handlers E r ha primaryObs replicaObs;
         case y of (ha', z) \<Rightarrow> (case z of
             Inl m \<Rightarrow> State_Monad.return (Panic m)
           | Inr w \<Rightarrow> (case w of (promoEffect, promoteErr) \<Rightarrow>
               case applyPromotionEffect promoEffect (primaryObs, replicaObs) of (primaryObs, replicaObs) \<Rightarrow>
                 report_and_converge E r ha' (CurrentPrimarySite (ha_Status ha)) promoteErr primaryObs replicaObs))
       }
   }"

section \<open>Rejoin safety of every part\<close>

lemma rejoin_counters: "relates (rejoin_safe L) (bumpFailCount k)" "relates (rejoin_safe L) (resetFailCount k)"
  by (rule rejoin_of_logs [where P = quiet], rule logs_counters, simp)+

lemma promote_gated:
  "promote_plan L ref u = Inr (Some u') \<Longrightarrow> \<not> in_primary_mode L u"
  by (auto simp: promote_plan_def in_primary_mode_def split: prod.splits option.splits sum.splits if_splits)

lemma rejoin_Promote: "relates (rejoin_safe E) (Promote (traced E) c ref)"
  unfolding relates_def wp_iff_run
proof (intro allI impI)
  fix s :: "('a \<times> 'b event list, 'c) mem_scheme" and a t
  assume run: "run_state (Promote (traced E) c ref) s = (a, t)"
  have p: "promote_plan (traced E) ref u = promote_plan E ref u" for u
    unfolding promote_plan_def traced_lib ..
  obtain g w where g: "get_cluster E c (ref_key ref) (fst (world s)) = (g, w)" by fastforce
  have one: "rebuild_gated E [GotCluster c (ref_key ref) g]" by (rule rebuild_gated_simple) simp
  have two: "rebuild_gated E [GotCluster c (ref_key ref) (Inr u), PutCluster c (ref_key ref) u' r]"
    if "promote_plan E ref u = Inr (Some u')" for u u' r
    using promote_gated [OF that] by (auto simp: rebuild_gated_def Cons_eq_append_conv)
  show "rejoin_safe E s t"
    using run [unfolded promote_step.step [OF TrueI]] g one
    by (auto simp: tr_def trace_def p rejoin_safe_def dest: two
        split: prod.splits sum.splits option.splits)
qed

lemma rejoin_Flip: "relates (rejoin_safe E) (FlipCiliumService (traced E) c ref role)"
  by (rule rejoin_of_logs [OF logs_flip [where P = "\<lambda>e. \<forall>c k u r. e \<noteq> PutCluster c k u r"]]) auto

lemma rejoin_GetOrCreate: "relates (rejoin_safe L) (GetOrCreate (traced E) hub ns sel)"
  by (rule rejoin_of_logs [where P = quiet], rule logs_GetOrCreate) simp_all

lemma rejoin_runPromotion: "relates (rejoin_safe E) (runPromotion (traced E) r ha old target)"
  unfolding runPromotion_def best_effort_def strict_step_def
  by (intro rejoin.relates_rules rejoin_quiet rejoin_GetOrCreate rejoin_Fence rejoin_Flip rejoin_Promote)

lemma rejoin_bookkeeping:
  "relates (rejoin_safe L) (setFailoverInProgress (traced E) ha b tg)"
  "relates (rejoin_safe L) (clearPromoteAnnotation (traced E) r ha)"
  "relates (rejoin_safe L) (record_failover (traced E) ha tg)"
  "relates (rejoin_safe L) (reject_promote (traced E) r ha msg)"
  by (rule rejoin_of_logs [where P = quiet], intro logs_bookkeeping; simp)+

lemma rejoin_metrics:
  "relates (rejoin_safe L) (IncFailover (traced E) ns n md)"
  "relates (rejoin_safe L) (ObserveFailoverDuration (traced E) ns n md d)"
  by (rule rejoin_of_logs [where P = quiet], intro logs_metrics; simp)+

lemma rejoin_clock: "relates (rejoin_safe L) (call (now_time (traced E)))"
  by (rule rejoin_of_logs [where P = quiet], unfold traced_env, rule logs_call) simp_all

lemma rejoin_in_cooldown: "relates (rejoin_safe L) (in_cooldown (traced E) ha)"
  by (rule rejoin_of_logs [where P = quiet], rule logs_in_cooldown) simp_all

lemmas rejoin_parts = rejoin.relates_rules rejoin_quiet rejoin_bookkeeping rejoin_metrics rejoin_clock
  rejoin_in_cooldown rejoin_counters rejoin_runPromotion

lemma rejoin_handlers: "relates (rejoin_safe E) (run_handlers (traced E) r ha p rs)"
proof -
  have manual: "relates (rejoin_safe E) (handlePromoteAnnotation (traced E) r h p rs)" for h
    unfolding handlePromoteAnnotation_def manual_promotion_def finish_manual_def by (intro rejoin_parts)
  have automatic: "relates (rejoin_safe E) (handleAutomaticFailover (traced E) r h p rs)" for h
    unfolding handleAutomaticFailover_def automatic_promotion_def by (intro rejoin_parts)
  show ?thesis unfolding run_handlers_def by (intro rejoin_parts manual automatic)
qed

lemma logs_publish:
  assumes "\<And>g ls v. P (GaugeSet g ls v)" and "\<And>g ls. P (GaugeDelete g ls)" and "\<And>g mp. P (GaugeDeletePartial g mp)"
  shows "relates (logs P) (publishMetrics (traced E) ha cp sb p rs)"
proof -
  have site: "relates (logs P) (publish_site (traced E) ha cp lsn ob)" for lsn ob
    unfolding publish_site_def metric_ops Let_def traced_env by (intro log.relates_rules logs_notify assms)
  have "relates (logs P) (publish_sites (traced E) ha cp lsn obs)" for lsn obs
    by (induction obs) (auto intro: log.relates_rules site)
  then show ?thesis
    unfolding publishMetrics_def Let_def SetSplitBrain_def traced_env by (intro log.relates_rules logs_notify assms)
qed

lemma logs_setConditions:
  "(\<And>t. P (ReadClock t)) \<Longrightarrow> relates (logs P) (setConditions (traced E) ha av sb p rs)"
  unfolding setConditions_def Let_def traced_env by (intro log.relates_rules logs_call)

lemma logs_report_status:
  assumes "\<And>t. P (ReadClock t)" and "\<And>g ls v. P (GaugeSet g ls v)" and "\<And>g ls. P (GaugeDelete g ls)"
    and "\<And>g mp. P (GaugeDeletePartial g mp)" and "\<And>c h u. P (PutHAStatus c h u)"
  shows "relates (logs P) (report_status (traced E) r ha prior p rs)"
proof -
  have "relates (logs P) (call (now_time (traced E)))" "relates (logs P) (call (status_update_ha (traced E) c h))" for c h
    unfolding traced_env by (intro logs_call assms)+
  then show ?thesis
    unfolding report_status_def Let_def by (intro log.relates_rules logs_setConditions logs_publish assms)
qed

text \<open>A computation whose result is known to satisfy \<open>Q\<close> hands that on to its continuation.\<close>

lemma rejoin_bind_result:
  assumes "relates (rejoin_safe L) f" and "\<And>s. wp f (\<lambda>a _. Q a) s" and "\<And>a. Q a \<Longrightarrow> relates (rejoin_safe L) (g a)"
  shows "relates (rejoin_safe L) (State_Monad.bind f g)"
  unfolding relates_def
proof
  fix s
  obtain a t where f: "run_state f s = (a, t)" by fastforce
  have "rejoin_safe L s t" by (rule relates_run [OF assms(1) f])
  moreover have "relates (rejoin_safe L) (g a)" by (rule assms(3)) (rule wp_run [OF assms(2) f])
  ultimately show "wp (State_Monad.bind f g) (\<lambda>_ t. rejoin_safe L s t) s"
    using f by (auto simp: wp_iff_run dest!: relates_run intro: rejoin.seq)
qed

text \<open>No HACluster the API server hands out asks for \<open>AutoReplica\<close>.\<close>

definition never_AutoReplica :: "('w, 'c) env \<Rightarrow> bool" where
  "never_AutoReplica E \<longleftrightarrow>
     (\<forall>c k w ha. fst (get_ha E c k w) = Inr ha \<longrightarrow> fo_RejoinPolicy (spec_failover ha) \<noteq> ''AutoReplica'') \<and>
     (\<forall>c h p w ha. fst (patch_ha E c h p w) = Inr ha \<longrightarrow> fo_RejoinPolicy (spec_failover ha) \<noteq> ''AutoReplica'') \<and>
     (\<forall>c h w ha. fst (status_update_ha E c h w) = Inr ha \<longrightarrow> fo_RejoinPolicy (spec_failover ha) \<noteq> ''AutoReplica'')"

lemma report_status_policy:
  assumes "never_AutoReplica E"
  shows "wp (report_status (traced E) r ha prior p rs)
    (\<lambda>u _. \<forall>h. u = Inr h \<longrightarrow> fo_RejoinPolicy (spec_failover h) \<noteq> RejoinPolicyAutoReplica) s"
proof -
  have u: "wp (call (status_update_ha (traced E) c h))
      (\<lambda>u _. \<forall>h. u = Inr h \<longrightarrow> fo_RejoinPolicy (spec_failover h) \<noteq> RejoinPolicyAutoReplica) t" for c h and t :: "('a \<times> 'b event list, 'c) mem_scheme"
    unfolding traced_env wp_call_tr using assms unfolding never_AutoReplica_def by (metis RejoinPolicyAutoReplica_def fst_conv)
  show ?thesis
    unfolding report_status_def Let_def
    by (cases "decideCurrentPrimary p rs", simp only: prod.case) (intro wp_bind_any u)
qed

lemma rejoin_Reconcile:
  assumes "never_AutoReplica E" and "r_PostgresProber r = None"
  shows "relates (rejoin_safe E) (Reconcile (traced E) r req)"
proof -
  have q: "relates (rejoin_safe E) f" if "relates (logs quiet) f" for f
    by (rule rejoin_of_logs [OF that]) simp
  have get: "relates (logs quiet) (call (get_ha (traced E) c k))" for c k
    unfolding traced_env by (rule logs_call) simp
  have report: "relates (logs quiet) (report_status (traced E) r h prior p rs)" for h prior p rs
    by (rule logs_report_status) simp_all
  have tail: "relates (rejoin_safe E) (report_and_converge (traced E) r h prior err p rs)" for h prior err p rs
    unfolding report_and_converge_def
  proof (rule rejoin_bind_result [OF q [OF report] report_status_policy [OF assms(1)]])
    fix u :: "goerror + HACluster"
    assume u: "\<forall>h. u = Inr h \<longrightarrow> fo_RejoinPolicy (spec_failover h) \<noteq> RejoinPolicyAutoReplica"
    show "relates (rejoin_safe E) (case u of
        Inl e \<Rightarrow> State_Monad.return (Err (Wrapf ''update status'' e))
      | Inr ha \<Rightarrow> (case err of Some e \<Rightarrow> State_Monad.return (Err e)
          | None \<Rightarrow> converge_topology (traced E) r ha prior p rs))"
    proof (cases u)
      case (Inr h)
      with u have "relates (rejoin_safe E) (converge_topology (traced E) r h prior p rs)"
        unfolding converge_topology_def Let_def by (intro rejoin.relates_rules rejoin_topology) simp
      with Inr show ?thesis by (auto intro: rejoin.relates_rules split: option.split)
    qed (simp add: rejoin.relates_return)
  qed
  show ?thesis
    unfolding Reconcile_def
    by (intro rejoin.relates_rules q [OF get] q [OF quiet_observe(1)] q [OF quiet_observe(2)] rejoin_handlers tail assms(2))
qed

section \<open>The operator's lifetime\<close>

inductive lifetime_step ::
  "('w, 'c) env \<Rightarrow> ('w \<times> 'c event list, 'c) HAClusterReconciler \<Rightarrow> ('w \<times> 'c event list, 'c) rmem \<Rightarrow>
   ('w \<times> 'c event list, 'c) rmem \<Rightarrow> bool"
  for E :: "('w, 'c) env" and r :: "('w \<times> 'c event list, 'c) HAClusterReconciler" where
  reconcile: "run_state (Reconcile (traced E) r req) s = (x, t) \<Longrightarrow> lifetime_step E r s t"
| restart: "lifetime_step E r s (s\<lparr>clients := NewCache, failCount := None\<rparr>)"
| outside: "lifetime_step E r s (s\<lparr>world := (w, trace s)\<rparr>)"

inductive_cases lifetime_stepE: "lifetime_step E r s t"

lemma lifetime_step_rejoin:
  assumes "lifetime_step E r s t" and "never_AutoReplica E" and "r_PostgresProber r = None"
  shows "rejoin_safe E s t"
  using assms(1)
proof (cases rule: lifetime_step.cases)
  case (reconcile req x)
  then show ?thesis by (rule relates_run [OF rejoin_Reconcile [OF assms(2,3)]])
next
  case restart
  then show ?thesis by (auto simp: rejoin_safe_def trace_def intro: exI [of _ "[]"])
next
  case (outside w)
  then show ?thesis by (auto simp: rejoin_safe_def intro: exI [of _ "[]"])
qed

lemma lifetime_rejoin:
  assumes "(lifetime_step E r)\<^sup>*\<^sup>* s t" and "never_AutoReplica E" and "r_PostgresProber r = None"
  shows "rejoin_safe E s t"
  using assms(1)
  by (induction rule: rtranclp_induct)
     (auto intro: rejoin.start rejoin.seq lifetime_step_rejoin [OF _ assms(2,3)])

end
