(* ===== verification/Reconcile_Properties.thy ===== *)
theory Reconcile_Properties
  imports Controller_Reconcile
begin

text \<open>
  The properties of a whole reconcile and of the operator's lifetime: it ends without a panic,
  writes the status exactly once and before it touches the topology, does not promote while a split-brain
  is observed, and never rebuilds a site it has only seen in primary mode.
\<close>

section \<open>No panic\<close>

text \<open>
  A patch answers with the stored object; unless somebody edits the list of replicas in the same
  moment, its length is the one the reconcile started from.
\<close>

definition patch_keeps_replicas :: "('w, 'c) env \<Rightarrow> bool" where
  "patch_keeps_replicas E \<longleftrightarrow> (\<forall>c h p w h'. fst (patch_ha E c h p w) = Inr h' \<longrightarrow>
     length (spec_replicas h') = length (spec_replicas h))"

abbreviation sites_kept :: "nat \<Rightarrow> HACluster \<Rightarrow> bool" where
  "sites_kept n h \<equiv> length (spec_replicas h) = n"

lemma kept_setFailoverInProgress:
  "sites_kept n ha \<Longrightarrow> wp (setFailoverInProgress E ha b tg) (\<lambda>h _. sites_kept n h) s"
  unfolding wp_iff_run by (auto elim!: run_setFailoverInProgress)

lemma kept_record_failover: "sites_kept n ha \<Longrightarrow> wp (record_failover E ha tg) (\<lambda>h _. sites_kept n h) s"
  unfolding wp_iff_run using record_failover_failed_over(3) by fastforce

lemma kept_clear:
  assumes "patch_keeps_replicas E" and "sites_kept n ha"
  shows "wp (clearPromoteAnnotation E r ha) (\<lambda>x _. sites_kept n (fst x)) s"
proof -
  have "sites_kept n h" if "patch_ha E c ha p w = (Inr h, w')" for c p w h w'
    using assms that unfolding patch_keeps_replicas_def by (metis fst_conv)
  with assms(2) show ?thesis
    by (auto simp: clearPromoteAnnotation_def wp_simps split: prod.splits sum.splits)
qed

lemma kept_reject:
  assumes "patch_keeps_replicas E" and "sites_kept n ha"
  shows "wp (reject_promote E r ha msg) (\<lambda>x _. sites_kept n (fst x)) s"
  unfolding reject_promote_def
  by (rule wp_bind_any, rule wp_bindI [OF kept_clear [OF assms]]) (auto simp: wp_simps split: prod.splits)

lemma kept_manual:
  assumes "patch_keeps_replicas E" and "sites_kept n ha"
  shows "wp (manual_promotion E r ha tg rep old nm) (\<lambda>x _. sites_kept n (fst x)) s"
proof -
  have fin: "wp (finish_manual E r h tg old nm start x) (\<lambda>x _. sites_kept n (fst x)) t"
    if "sites_kept n h" for h start x t
  proof (cases x)
    case (Ok y)
    have rec: "wp (case y of (ha, cerr) \<Rightarrow>
            (case cerr of
               Some e \<Rightarrow> State_Monad.return (ha, Err (Wrapf ''clear promote annotation'' e))
             | None \<Rightarrow> do {
                 ha \<leftarrow> record_failover E ha tg;
                 _ \<leftarrow> event_of E r ha EventTypeNormal eventReasonFailoverCompleted
                   (''site '' @ fmt_q tg @ '' is now primary'');
                 _ \<leftarrow> IncFailover E (ha_Namespace ha) (ha_Name ha) ''manual'';
                 State_Monad.return (ha, Ok \<lparr>demoted = old, promoted = nm\<rparr>)
               })) (\<lambda>x _. sites_kept n (fst x)) t" if y: "sites_kept n (fst y)" for y t
    proof (cases y)
      case (Pair h cerr)
      with y have h: "sites_kept n h" by simp
      show ?thesis
        unfolding Pair prod.case
        by (cases cerr; simp only: option.case)
           (rule wp_bindI [OF kept_record_failover [OF h]], intro wp_bind_any, simp_all add: wp_return h)
    qed
    show ?thesis
      unfolding finish_manual_def Ok res.case
      by (rule wp_bind_any, rule wp_bind_any, rule wp_bindI [OF kept_clear [OF assms(1) that]], rule rec)
  next
    case (Err e)
    show ?thesis
      unfolding finish_manual_def Err res.case
      by (rule wp_bind_any, rule wp_bindI [OF kept_setFailoverInProgress [OF that]]) (simp add: wp_return)
  qed (simp add: finish_manual_def wp_return that)
  show ?thesis
    unfolding manual_promotion_def
    by (rule wp_bind_any, rule wp_bindI [OF kept_setFailoverInProgress [OF assms(2)]], rule wp_bind_any,
        rule wp_bind_any, rule fin)
qed

lemma manual_keeps_replicas:
  assumes "patch_keeps_replicas E" and "run_state (handlePromoteAnnotation E r ha p rs) s = ((ha', res), t)"
  shows "length (spec_replicas ha') = length (spec_replicas ha)"
  using handlePromoteAnnotation_cases [OF assms(2)] wp_run [OF kept_reject [OF assms(1) refl]]
    wp_run [OF kept_manual [OF assms(1) refl]]
  by fastforce

lemma automatic_no_panic:
  assumes "length rs = length (spec_replicas ha)"
    and "run_state (handleAutomaticFailover E r ha p rs) s = ((ha', res), t)"
  shows "res \<noteq> Panic m"
proof (cases "fo_Mode (spec_failover ha) = FailoverModeAutomatic \<and> detectSplitBrain p rs = []")
  case False
  with assms(2) show ?thesis by (auto simp: handleAutomaticFailover_def Let_def split: if_splits prod.splits)
next
  case True
  obtain cooling s1 where c: "run_state (in_cooldown E ha) s = (cooling, s1)" by fastforce
  note cs = handleAutomaticFailover_cases [OF assms(2) conjunct1 [OF True] conjunct2 [OF True] c]
  obtain o' where ok: "chooseTarget ha rs (current_name ha) = Ok o'"
    using chooseTarget_best [OF assms(1)] by metis
  show ?thesis
  proof (cases "verdict_of ha p rs cooling (fail_count s (ha_key ha) + 1)")
    case (Broken m')
    with ok show ?thesis by (auto simp: verdict_of_def split: if_splits option.splits)
  next
    case (Promoting tg)
    with cs have "run_state (automatic_promotion E r ha (current_name ha) tg (fail_count s (ha_key ha) + 1)
        (effectiveFailureThreshold (spec_failover ha))) (snd (run_state (bumpFailCount (ha_key ha)) s1)) = ((ha', res), t)"
      by simp
    from run_automatic_promotion [OF this] show ?thesis by auto
  qed (use cs in auto)
qed

lemma handlers_no_panic:
  assumes "patch_keeps_replicas E" and "length rs = length (spec_replicas ha)"
    and "run_state (run_handlers E r ha p rs) s = ((ha', y), t)"
  shows "y \<noteq> Inl m"
proof -
  obtain h1 x s1 where m: "run_state (handlePromoteAnnotation E r ha p rs) s = ((h1, x), s1)" by (metis prod.exhaust)
  obtain h2 z s2 where au: "run_state (handleAutomaticFailover E r h1 p rs) s1 = ((h2, z), s2)" by (metis prod.exhaust)
  have "x \<noteq> Panic m'" for m'
    using handlePromoteAnnotation_cases [OF m] run_reject_promote run_manual_promotion findReplica_bound assms(2)
    by (metis leD res.distinct(3,5))
  moreover have "z \<noteq> Panic m'" for m'
    using automatic_no_panic [OF _ au] manual_keeps_replicas [OF assms(1) m] assms(2) by simp
  ultimately show ?thesis
    using assms(3) m au by (cases x; cases z) (auto simp: run_handlers_def)
qed

lemma converge_no_panic: "run_state (converge_site E r ha eff ep rj nm c ref) s \<noteq> (Panic m, t)"
proof -
  have np: "wp (Fence E c ref) (\<lambda>x _. \<forall>m. x \<noteq> Panic m) u" "wp (Reconfigure E c ref ep) (\<lambda>x _. \<forall>m. x \<noteq> Panic m) u"
    for u :: "('a, 'b) mem_scheme"
    unfolding wp_iff_run by (auto simp: fence_step.never_panics reconfigure_step.never_panics)
  have parts: "wp (rejoin_as_replica E r ha eff ep nm c ref) (\<lambda>x _. \<forall>m. x \<noteq> Panic m) u"
    "wp (fence_returning E r ha nm c ref) (\<lambda>x _. \<forall>m. x \<noteq> Panic m) u"
    "wp (repoint_replica E eff ep nm c ref) (\<lambda>x _. \<forall>m. x \<noteq> Panic m) u"
    for u :: "('a, 'b) mem_scheme"
    unfolding rejoin_as_replica_def fence_returning_def repoint_replica_def
    by (rule wp_bindI [OF np(2)] wp_bindI [OF np(1)], auto simp: wp_return intro: wp_bind_any split: res.splits)+
  have "wp (converge_site E r ha eff ep rj nm c ref) (\<lambda>x _. \<forall>m. x \<noteq> Panic m) s"
    unfolding converge_site_def Let_def
    by (rule wp_bind_any) (auto simp: wp_return parts)
  then show ?thesis by (auto simp: wp_def)
qed

lemma topology_no_panic:
  fixes E :: "('w, 'c) env" and s :: "('w, 'c, 'x) cmem_scheme"
  shows "wp (reconcileReplicaTopology E r ha eff p rs) (\<lambda>x _. \<forall>m. x \<noteq> Panic m) s"
proof -
  have "wp (topology_loop E r ha eff ep rj obs) (\<lambda>x _. \<forall>m. x \<noteq> Panic m) s"
    for ep rj obs and s :: "('w, 'c, 'x) cmem_scheme"
  proof (induction obs arbitrary: s)
    case (Cons ob obs)
    have cv: "wp (converge_site E r ha eff ep rj nm c ref) (\<lambda>x _. \<forall>m. x \<noteq> Panic m) u"
      for nm c ref and u :: "('w, 'c, 'x) cmem_scheme"
      unfolding wp_iff_run using converge_no_panic by metis
    have "wp (case x of None \<Rightarrow> topology_loop E r ha eff ep rj obs
        | Some y \<Rightarrow> (case y of (c, ref) \<Rightarrow> do {
            z \<leftarrow> converge_site E r ha eff ep rj (o_name ob) c ref;
            case z of
              Ok _ \<Rightarrow> topology_loop E r ha eff ep rj obs
            | Err e \<Rightarrow> State_Monad.return (Err e)
            | Panic p \<Rightarrow> State_Monad.return (Panic p)
          })) (\<lambda>x _. \<forall>m. x \<noteq> Panic m) u" for x and u :: "('w, 'c, 'x) cmem_scheme"
      by (auto simp: Cons.IH wp_return split: option.split prod.split res.split intro!: wp_bindI [OF cv])
    then show ?case by (auto simp: Cons.IH intro: wp_bind_any)
  qed (simp add: wp_return)
  then show ?thesis by (simp add: reconcileReplicaTopology_def Let_def wp_return del: topology_loop.simps)
qed

section \<open>The shape of a reconcile\<close>

lemma Reconcile_cases:
  assumes "run_state (Reconcile E r req) s = (x, t)"
  obtains (missing) e where "run_state (call (get_ha E (r_Client r) req)) s = (Inl e, t)"
      and "x = (case ignoreNotFound E e of None \<Rightarrow> Ok 0 | Some e' \<Rightarrow> Err e')"
    | (found) ha s1 p s2 rs s3 ha' y s4 where
      "run_state (call (get_ha E (r_Client r) req)) s = (Inr ha, s1)" and "run_state (observePrimary E r ha) s1 = (p, s2)"
      and "run_state (observe_replicas E r ha (spec_replicas ha)) s2 = (rs, s3)"
      and "run_state (run_handlers E r ha p rs) s3 = ((ha', y), s4)"
      and "case y of Inl m \<Rightarrow> x = Panic m \<and> t = s4
        | Inr (eff, err) \<Rightarrow> (case applyPromotionEffect eff (p, rs) of (p', rs') \<Rightarrow>
            run_state (report_and_converge E r ha' (CurrentPrimarySite (ha_Status ha)) err p' rs') s4 = (x, t))"
proof -
  obtain g s1 where g: "run_state (call (get_ha E (r_Client r) req)) s = (g, s1)" by fastforce
  show thesis
  proof (cases g)
    case (Inl e)
    with assms g missing show thesis by (auto simp: Reconcile_def simp del: run_call)
  next
    case (Inr ha)
    obtain p s2 where p: "run_state (observePrimary E r ha) s1 = (p, s2)" by fastforce
    obtain rs s3 where rs: "run_state (observe_replicas E r ha (spec_replicas ha)) s2 = (rs, s3)" by fastforce
    obtain ha' y s4 where h: "run_state (run_handlers E r ha p rs) s3 = ((ha', y), s4)" by (metis prod.exhaust)
    have "case y of Inl m \<Rightarrow> x = Panic m \<and> t = s4
        | Inr (eff, err) \<Rightarrow> (case applyPromotionEffect eff (p, rs) of (p', rs') \<Rightarrow>
            run_state (report_and_converge E r ha' (CurrentPrimarySite (ha_Status ha)) err p' rs') s4 = (x, t))"
      using assms g Inr p rs h by (cases y) (auto simp: Reconcile_def simp del: run_call split: prod.splits)
    with g Inr p rs h found show thesis by metis
  qed
qed

lemma observe_replicas_length: "wp (observe_replicas E r ha reps) (\<lambda>xs _. length xs = length reps) s"
proof (induction reps arbitrary: s)
  case (Cons rep reps)
  show ?case
    unfolding observe_replicas.simps
    by (rule wp_bind_any, rule wp_bindI [OF Cons.IH]) (simp add: wp_return)
qed (simp add: wp_return)

lemma report_and_converge_no_panic: "wp (report_and_converge E r ha prior err p rs) (\<lambda>x _. \<forall>m. x \<noteq> Panic m) s"
proof -
  have c: "wp (converge_topology E r h prior p rs) (\<lambda>x _. \<forall>m. x \<noteq> Panic m) u" for h u
    unfolding converge_topology_def Let_def
    by (rule wp_bindI [OF topology_no_panic]) (auto simp: wp_return split: res.split)
  show ?thesis
    unfolding report_and_converge_def
    by (rule wp_bind_any) (auto simp: wp_return c split: sum.split option.split)
qed

lemma Reconcile_no_panic:
  assumes "patch_keeps_replicas E" and "run_state (Reconcile E r req) s = (x, t)"
  shows "x \<noteq> Panic m"
  using assms(2)
proof (cases rule: Reconcile_cases)
  case (missing e)
  then show ?thesis by (simp split: option.split)
next
  case (found ha s1 p s2 rs s3 ha' y s4)
  have "length rs = length (spec_replicas ha)" by (rule wp_run [OF observe_replicas_length found(3)])
  from handlers_no_panic [OF assms(1) this found(4)] obtain eff err where y: "y = Inr (eff, err)"
    by (cases y) auto
  obtain p' rs' where "applyPromotionEffect eff (p, rs) = (p', rs')" by fastforce
  with found(5) y have "run_state (report_and_converge E r ha' (CurrentPrimarySite (ha_Status ha)) err p' rs') s4 = (x, t)"
    by simp
  from wp_run [OF report_and_converge_no_panic this] show ?thesis by simp
qed

section \<open>The status is written once, before the topology\<close>

fun status_put :: "'c event \<Rightarrow> bool" where
  "status_put (PutHAStatus c h u) = True"
| "status_put _ = False"

abbreviation no_put :: "'c event \<Rightarrow> bool" where
  "no_put e \<equiv> \<not> status_put e"

lemma put_free:
  "relates (logs no_put) (runPromotion (traced E) r ha old target)"
  "relates (logs no_put) (event_of (traced E) r ha ty rsn msg)"
  "relates (logs no_put) (setFailoverInProgress (traced E) ha b tg)"
  "relates (logs no_put) (clearPromoteAnnotation (traced E) r ha)"
  "relates (logs no_put) (record_failover (traced E) ha tg)"
  "relates (logs no_put) (reject_promote (traced E) r ha msg)"
  "relates (logs no_put) (IncFailover (traced E) ns n md)"
  "relates (logs no_put) (ObserveFailoverDuration (traced E) ns n md d)"
  "relates (logs no_put) (call (now_time (traced E)))"
  "relates (logs no_put) (in_cooldown (traced E) ha)"
  "relates (logs no_put) (bumpFailCount key)" "relates (logs no_put) (resetFailCount key)"
  subgoal
    unfolding runPromotion_def Let_def
    by (intro log.relates_rules logs_siteClientAndRef logs_GetOrCreate logs_best_effort logs_strict_step
        logs_Fence logs_flip logs_promote; simp)
  subgoal by (intro logs_event; simp)
  subgoal by (intro logs_bookkeeping; simp)
  subgoal by (intro logs_bookkeeping; simp)
  subgoal by (intro logs_bookkeeping; simp)
  subgoal by (intro logs_bookkeeping; simp)
  subgoal by (intro logs_metrics; simp)
  subgoal by (intro logs_metrics; simp)
  subgoal unfolding traced_env by (rule logs_call) simp
  subgoal by (intro logs_in_cooldown; simp)
  by (rule logs_counters)+

lemma put_free_handlers: "relates (logs no_put) (run_handlers (traced E) r ha p rs)"
proof -
  have "relates (logs no_put) (handlePromoteAnnotation (traced E) r h p rs)" for h
    unfolding handlePromoteAnnotation_def manual_promotion_def finish_manual_def by (intro log.relates_rules put_free)
  moreover have "relates (logs no_put) (handleAutomaticFailover (traced E) r h p rs)" for h
    unfolding handleAutomaticFailover_def automatic_promotion_def by (intro log.relates_rules put_free)
  ultimately show ?thesis unfolding run_handlers_def by (intro log.relates_rules)
qed

lemma put_free_topology: "relates (logs no_put) (reconcileReplicaTopology (traced E) r ha eff p rs)"
proof -
  have "relates (logs no_put) (converge_site (traced E) r ha eff ep rj nm c ref)" for ep rj nm c ref
    unfolding converge_site_def rejoin_as_replica_def fence_returning_def repoint_replica_def
    by (intro log.relates_rules logs_Probe logs_Reconfigure logs_Fence logs_event; simp)
  moreover have "relates (logs no_put) (siteClientAndRef (traced E) r ha nm)" for nm
    by (intro logs_siteClientAndRef; simp)
  ultimately have "relates (logs no_put) (topology_loop (traced E) r ha eff ep rj obs)" for ep rj obs
    by (induction obs) (auto intro!: log.relates_rules)
  then show ?thesis unfolding reconcileReplicaTopology_def by (intro log.relates_rules)
qed

text \<open>What \<open>report_status\<close> hands to the API server.\<close>

definition status_of ::
  "'x lib_scheme \<Rightarrow> string \<Rightarrow> siteObservation \<Rightarrow> siteObservation list \<Rightarrow> HACluster \<Rightarrow> bool" where
  "status_of L prior p rs h \<longleftrightarrow>
     CurrentPrimarySite (ha_Status h) = (case decideCurrentPrimary p rs of (n, ok) \<Rightarrow> if ok then n else prior) \<and>
     ObservedGeneration (ha_Status h) = ha_Generation h \<and>
     (\<exists>now. Sites (ha_Status h) = buildSiteStatuses L p rs now)"

lemma decided_nonempty:
  assumes "list_all (\<lambda>ob. o_name ob \<noteq> []) (p # rs)"
  shows "(if fst (decideCurrentPrimary p rs) \<noteq> [] then fst (decideCurrentPrimary p rs) else prior) =
    (case decideCurrentPrimary p rs of (n, ok) \<Rightarrow> if ok then n else prior)"
proof -
  have "set (primaryReadyCandidates p rs) \<subseteq> o_name ` set (p # rs)"
    by (auto simp: primaryReadyCandidates_def)
  with assms have "[] \<notin> set (primaryReadyCandidates p rs)" by (fastforce simp: list_all_iff)
  then show ?thesis
    by (auto simp: decideCurrentPrimary_def Let_def length_Suc_conv)
qed

lemma report_status_trace:
  assumes "run_state (report_status (traced E) r ha prior p rs) s = (u, t)"
    and "list_all (\<lambda>ob. o_name ob \<noteq> []) (p # rs)"
  shows "\<exists>pre h. trace t = trace s @ pre @ [PutHAStatus (r_Client r) h u] \<and>
    list_all (\<lambda>e. \<not> site_write e \<and> no_put e) pre \<and> status_of E prior p rs h"
proof -
  let ?P = "\<lambda>e. \<not> site_write e \<and> no_put e"
  obtain cp av where d: "decideCurrentPrimary p rs = (cp, av)" by fastforce
  obtain now s1 where r1: "run_state (call (now_time (traced E))) s = (now, s1)" by fastforce
  let ?h0 = "status_fields (traced E) ha cp prior p rs now"
  obtain h s2 where r2: "run_state (setConditions (traced E) ?h0 av (detectSplitBrain p rs) p rs) s1 = (h, s2)" by fastforce
  obtain s3 where r3: "run_state (publishMetrics (traced E) h cp (detectSplitBrain p rs \<noteq> []) p rs) s2 = ((), s3)"
    by (cases "run_state (publishMetrics (traced E) h cp (detectSplitBrain p rs \<noteq> []) p rs) s2") simp
  have r4: "run_state (call (status_update_ha (traced E) (r_Client r) h)) s3 = (u, t)"
    using assms(1) d r1 r2 r3 by (simp add: report_status_def Let_def del: run_call)
  have "logs ?P s s1" by (rule relates_run [OF _ r1]) (simp only: traced_env, rule logs_call, simp)
  moreover have "logs ?P s1 s2" by (rule relates_run [OF logs_setConditions r2]) simp
  moreover have "logs ?P s2 s3" by (rule relates_run [OF logs_publish r3]) simp_all
  ultimately have "logs ?P s s3" by (blast intro: log.seq)
  then obtain pre where pre: "trace s3 = trace s @ pre" "list_all ?P pre" by (auto simp: logs_def)
  have "trace t = trace s3 @ [PutHAStatus (r_Client r) h u]"
    using r4 by (auto simp: tr_def trace_def split: prod.splits)
  moreover have "status_of E prior p rs h"
  proof -
    obtain now' where "h = with_condition (traced E) (with_condition (traced E) (with_condition (traced E) ?h0
        (available_condition ?h0 now' av)) (split_condition ?h0 now' (detectSplitBrain p rs)))
        (degraded_condition ?h0 now' (p # rs))"
      using setConditions_run [of "traced E" ?h0 av "detectSplitBrain p rs" p rs s1] r2 by auto
    moreover have "buildSiteStatuses (traced E) = buildSiteStatuses E"
      unfolding fun_eq_iff buildSiteStatuses_def toSiteStatus_def lagMilliseconds_def traced_lib by simp
    ultimately show ?thesis
      using decided_nonempty [OF assms(2), of prior] d
      by (auto simp: status_of_def status_fields_def with_condition_def)
  qed
  ultimately show ?thesis using pre by auto
qed

lemma converge_topology_result:
  assumes "run_state (converge_topology E r ha prior p rs) s = (x, t)"
  shows "x = Ok (requeue_after ha) \<or> (\<exists>e. x = Err e)"
proof -
  let ?run = "run_state (reconcileReplicaTopology E r ha (if fst (decideCurrentPrimary p rs) = [] then prior
    else fst (decideCurrentPrimary p rs)) p rs) s"
  obtain y u where y: "?run = (y, u)" by fastforce
  from wp_run [OF topology_no_panic y] assms y show ?thesis
    by (cases y) (auto simp: converge_topology_def Let_def)
qed

lemma put_free_converge: "relates (logs no_put) (converge_topology (traced E) r ha prior p rs)"
  unfolding converge_topology_def by (intro log.relates_rules put_free_topology)

lemma effect_names:
  assumes "applyPromotionEffect eff (p, rs) = (p', rs')"
  shows "o_name p' # map o_name rs' = o_name p # map o_name rs"
proof -
  have [simp]: "map o_name (update_first (\<lambda>ob. o_name ob = nm) (set_role prim) obs) = map o_name obs" for nm prim obs
    by (induction obs) (auto simp: set_role_def Let_def)
  have "o_name p'' # map o_name rs'' = o_name p # map o_name rs"
    if "setObservationRole nm prim (p, rs) = (p'', rs'')" for nm prim p rs p'' rs''
    using that by (auto simp: setObservationRole_def set_role_def Let_def split: if_splits)
  with assms show ?thesis
    by (auto simp: applyPromotionEffect_def split: if_splits) (metis list.inject prod.collapse)+
qed

lemma observed_names:
  assumes "r_PostgresProber r = None"
    and "run_state (observePrimary E r ha) s = (p, s')" and "run_state (observe_replicas E r ha (spec_replicas ha)) s' = (rs, t)"
  shows "o_name p # map o_name rs = site_names (ha_Spec ha)"
proof -
  have pr: "lsn_prober (active_prober E r)" by (rule active_prober_ok) (simp add: assms(1))
  from wp_run [OF lsn_prober.observePrimary_ok [OF pr refl] assms(2)]
    wp_run [OF lsn_prober.observe_replicas_ok [OF pr refl] assms(3)]
  show ?thesis by (simp add: site_names_def)
qed

lemma logs_no_put_observe:
  assumes "r_PostgresProber r = None"
  shows "relates (logs no_put) (observePrimary (traced E) r ha)" and "relates (logs no_put) (observe_replicas (traced E) r ha reps)"
proof -
  note rules = log.relates_rules logs_Probe logs_probePostgres logs_GetOrCreate
  show "relates (logs no_put) (observePrimary (traced E) r ha)"
    unfolding observePrimary_def Let_def by (intro rules assms) simp_all
  have "relates (logs no_put) (observeReplica (traced E) r ha rep)" for rep
    unfolding observeReplica_def by (intro rules assms) simp_all
  then show "relates (logs no_put) (observe_replicas (traced E) r ha reps)"
    by (induction reps) (auto intro: log.relates_rules)
qed

lemma requeue_positive: "10 ^ 9 \<le> sint (requeue_after ha)"
proof -
  have "sint requeuePeriod = 30 * 10 ^ 9" by code_simp
  moreover have "10 ^ 9 \<le> sint (effectiveHealthInterval (spec_failover ha))" by (simp add: sint_interval)
  ultimately show ?thesis by (simp add: requeue_after_def)
qed

lemma report_and_converge_trace:
  assumes "run_state (report_and_converge (traced E) r ha prior err p rs) s = (x, t)"
    and "list_all (\<lambda>ob. o_name ob \<noteq> []) (p # rs)"
  shows "\<exists>pre h u post. trace t = trace s @ pre @ PutHAStatus (r_Client r) h u # post \<and> list_all no_put (pre @ post) \<and>
    status_of E prior p rs h \<and>
    (case u of Inl e \<Rightarrow> x = Err (Wrapf ''update status'' e) \<and> post = []
     | Inr h' \<Rightarrow> (case err of Some e \<Rightarrow> x = Err e \<and> post = []
         | None \<Rightarrow> x = Ok (requeue_after h') \<or> (\<exists>e. x = Err e)))"
proof -
  obtain u s1 where r1: "run_state (report_status (traced E) r ha prior p rs) s = (u, s1)" by fastforce
  from report_status_trace [OF r1 assms(2)] obtain pre h where
    h: "trace s1 = trace s @ pre @ [PutHAStatus (r_Client r) h u]" "list_all (\<lambda>e. \<not> site_write e \<and> no_put e) pre"
    "status_of E prior p rs h" by blast
  then have pre: "list_all no_put pre" by (simp add: list_all_iff)
  show ?thesis
  proof (cases "\<exists>h'. u = Inr h' \<and> err = None")
    case False
    then have "t = s1" "case u of Inl e \<Rightarrow> x = Err (Wrapf ''update status'' e) | Inr h' \<Rightarrow> (\<exists>e. err = Some e \<and> x = Err e)"
      using assms(1) r1 by (auto simp: report_and_converge_def split: sum.splits option.splits)
    with h pre show ?thesis
      by (intro exI [of _ pre] exI [of _ h] exI [of _ u] exI [of _ "[]"]) (auto split: sum.splits)
  next
    case True
    then obtain h' where u: "u = Inr h'" "err = None" by blast
    with assms(1) r1 have c: "run_state (converge_topology (traced E) r h' prior p rs) s1 = (x, t)"
      by (simp add: report_and_converge_def)
    from relates_run [OF put_free_converge c] obtain post where
      post: "trace t = trace s1 @ post" "list_all no_put post" by (auto simp: logs_def)
    from converge_topology_result [OF c] h pre post u show ?thesis
      by (intro exI [of _ pre] exI [of _ h] exI [of _ u] exI [of _ post]) auto
  qed
qed

section \<open>Properties\<close>

text \<open>C11. A reconcile never panics, whatever the API servers, Secrets and databases answer and fail with, as long as
  the HACluster that a patch returns has as many replicas as the one the reconcile read.\<close>

theorem Reconcile_never_panics:
  assumes "patch_keeps_replicas E" and "run_state (Reconcile E r req) s = (x, t)"
  shows "x \<noteq> Panic m"
  using assms by (rule Reconcile_no_panic)

text \<open>A server whose only HACluster is the sample with a promote annotation.\<close>

definition steady_env :: "(rworld, nat) env" where
  "steady_env = ref_env\<lparr>get_ha := (\<lambda>c k w. (Inr demo_manual, w)),
     patch_ha := (\<lambda>c h p w. (Inr (h\<lparr>ha_Annotations := []\<rparr>), w)),
     status_update_ha := (\<lambda>c h w. (Inr h, w))\<rparr>"

theorem Reconcile_never_panics_witness:
  "\<forall>m. fst (run_state (Reconcile steady_env demo_rec (nn ''ha'' ''c'')) (demo_rmem 1)) \<noteq> Panic m"
proof -
  have k: "patch_keeps_replicas steady_env" by (simp add: patch_keeps_replicas_def steady_env_def)
  obtain x t where r: "run_state (Reconcile steady_env demo_rec (nn ''ha'' ''c'')) (demo_rmem 1) = (x, t)" by fastforce
  from Reconcile_never_panics [OF k r] r show ?thesis by simp
qed

text \<open>C8. The status is written once, before the topology is touched: a reconcile of an existing, schema-valid HACluster
  that does not panic makes exactly one status update. It reports one entry per site, the generation it has seen, and
  as current primary the single healthy primary of the very observations it lists, or the previous one when there is
  none. When that update fails the reconcile ends there with the wrapped error; otherwise it ends with an error, or
  asks to run again after the health interval (Automatic mode) or 30 s, at least one second.\<close>

theorem Reconcile_reports_once:
  assumes "r_PostgresProber r = None" and "get_ha E (r_Client r) req (fst (world s)) = (Inr ha, w)"
    and "crd_valid (ha_Spec ha)" and "run_state (Reconcile (traced E) r req) s = (x, t)" and "\<forall>m. x \<noteq> Panic m"
  shows "\<exists>pre h u post p rs. trace t = trace s @ pre @ PutHAStatus (r_Client r) h u # post \<and>
    list_all (\<lambda>e. \<not> status_put e) (pre @ post) \<and>
    o_name p # map o_name rs = site_names (ha_Spec ha) \<and> status_of E (CurrentPrimarySite (ha_Status ha)) p rs h \<and>
    (case u of Inl e \<Rightarrow> x = Err (Wrapf ''update status'' e) \<and> post = []
     | Inr h' \<Rightarrow> (x = Ok (requeue_after h') \<and> 10 ^ 9 \<le> sint (requeue_after h')) \<or> (\<exists>e. x = Err e))"
  using assms(4)
proof (cases rule: Reconcile_cases)
  case (missing e)
  with assms(2) show ?thesis by (auto simp: tr_def split: prod.splits)
next
  case (found hb s1 p s2 rs s3 ha' y s4)
  have hb: "hb = ha" using found(1) assms(2) by (auto simp: tr_def split: prod.splits)
  from assms(5) found(5) obtain eff err where y: "y = Inr (eff, err)" by (cases y) auto
  obtain p' rs' where ap: "applyPromotionEffect eff (p, rs) = (p', rs')" by fastforce
  have names: "o_name p' # map o_name rs' = site_names (ha_Spec ha)"
    using effect_names [OF ap] observed_names [OF assms(1) found(2,3)] hb by simp
  have "list_all (\<lambda>ob. o_name ob \<noteq> []) (p' # rs')"
    using crd_valid_names_nonempty [OF assms(3), folded names] by (auto simp: list_all_iff)
  moreover have "run_state (report_and_converge (traced E) r ha' (CurrentPrimarySite (ha_Status ha)) err p' rs') s4 = (x, t)"
    using found(5) y ap hb by simp
  ultimately obtain pre h u post where
    tr: "trace t = trace s4 @ pre @ PutHAStatus (r_Client r) h u # post" "list_all no_put (pre @ post)"
    "status_of E (CurrentPrimarySite (ha_Status ha)) p' rs' h"
    "case u of Inl e \<Rightarrow> x = Err (Wrapf ''update status'' e) \<and> post = []
     | Inr h' \<Rightarrow> (case err of Some e \<Rightarrow> x = Err e \<and> post = []
         | None \<Rightarrow> x = Ok (requeue_after h') \<or> (\<exists>e. x = Err e))"
    using report_and_converge_trace by blast
  have "logs no_put s s1" by (rule relates_run [OF _ found(1)]) (simp only: traced_env, rule logs_call, simp)
  moreover note relates_run [OF logs_no_put_observe(1) [OF assms(1)] found(2)]
    relates_run [OF logs_no_put_observe(2) [OF assms(1)] found(3)] relates_run [OF put_free_handlers found(4)]
  ultimately have "logs no_put s s4" by (blast intro: log.seq)
  then obtain pre0 where pre0: "trace s4 = trace s @ pre0" "list_all no_put pre0" by (auto simp: logs_def)
  have "case u of Inl e \<Rightarrow> x = Err (Wrapf ''update status'' e) \<and> post = []
     | Inr h' \<Rightarrow> (x = Ok (requeue_after h') \<and> 10 ^ 9 \<le> sint (requeue_after h')) \<or> (\<exists>e. x = Err e)"
    using tr(4) requeue_positive by (auto split: sum.splits option.splits)
  with tr pre0 names show ?thesis
    by (intro exI [of _ "pre0 @ pre"] exI [of _ h] exI [of _ u] exI [of _ post] exI [of _ p'] exI [of _ rs']) auto
qed

lemma traced_keeps: "patch_keeps_replicas E \<Longrightarrow> patch_keeps_replicas (traced E)"
  unfolding patch_keeps_replicas_def traced_env tr_def by (auto split: prod.splits) (metis fst_conv)

lemma demo_manual_valid: "crd_valid (ha_Spec demo_manual)"
  by code_simp

theorem Reconcile_reports_once_witness:
  "\<exists>h u. PutHAStatus 0 h u \<in> set (trace (snd (run_state (Reconcile (traced steady_env) demo_rec (nn ''ha'' ''c'')) (demo_tmem 1)))) \<and>
     length (Sites (ha_Status h)) = 3"
proof -
  have k: "patch_keeps_replicas (traced steady_env)"
    by (rule traced_keeps) (simp add: patch_keeps_replicas_def steady_env_def)
  obtain x t where r: "run_state (Reconcile (traced steady_env) demo_rec (nn ''ha'' ''c'')) (demo_tmem 1) = (x, t)" by fastforce
  have g: "get_ha steady_env (r_Client demo_rec) (nn ''ha'' ''c'') (fst (world (demo_tmem 1))) = (Inr demo_manual, demo_world 1)"
    by (simp add: steady_env_def demo_tmem_def)
  have c: "r_Client demo_rec = 0" "r_PostgresProber demo_rec = None" by (simp_all add: demo_rec_def)
  obtain pre h u post p rs where o: "trace t = trace (demo_tmem 1) @ pre @ PutHAStatus 0 h u # post"
    "o_name p # map o_name rs = site_names (ha_Spec demo_manual)" "status_of steady_env (CurrentPrimarySite (ha_Status demo_manual)) p rs h"
    using Reconcile_reports_once [OF c(2) g demo_manual_valid r] Reconcile_no_panic [OF k r] unfolding c(1) by blast
  have "length (p # rs) = 3" using arg_cong [OF o(2), of length] by (simp add: site_names_def demo_ha_def)
  with o(3) have "length (Sites (ha_Status h)) = 3" by (auto simp: status_of_def buildSiteStatuses_def)
  with o(1) r show ?thesis by auto
qed


definition torn_p :: siteObservation where "torn_p = demo_obs ''a'' True True True 1"
definition torn_rs :: "siteObservation list" where
  "torn_rs = [demo_obs ''b'' True True True 1, demo_obs ''c'' True False True 1]"


text \<open>C3. The whole life of the operator, over any sequence of reconciles of any HAClusters, restarts, and changes made by
  others in between, with API servers free to answer and fail as they like: as long as no HACluster asks for
  \<open>AutoReplica\<close>, every Cluster update the operator makes is the fencing write or follows a read of that Cluster
  in replica mode. A site that has only been seen in primary mode never has its data discarded.\<close>

theorem lifetime_never_rebuilds_primary:
  assumes "(lifetime_step E r)\<^sup>*\<^sup>* s t" and "never_AutoReplica E" and "r_PostgresProber r = None"
  shows "\<exists>es. trace t = trace s @ es \<and>
    (\<forall>pre c k u a post. es = pre @ PutCluster c k u a # post \<longrightarrow>
       fencing E u \<or> (\<exists>v. GotCluster c k (Inr v) \<in> set pre \<and> \<not> in_primary_mode E v))"
  using lifetime_rejoin [OF assms] unfolding rejoin_safe_def rebuild_gated_def .

definition calm_env :: "(rworld, nat) env" where
  "calm_env = ref_env\<lparr>get_ha := (\<lambda>c k w. (Inr demo_manual, w)),
     patch_ha := (\<lambda>c h p w. (Inr demo_manual, w)), status_update_ha := (\<lambda>c h w. (Inr demo_manual, w))\<rparr>"

theorem lifetime_never_rebuilds_primary_witness:
  "rebuild_gated calm_env (trace (snd (run_state (Reconcile (traced calm_env) demo_rec (nn ''ha'' ''c''))
     (snd (run_state (Reconcile (traced calm_env) demo_rec (nn ''ha'' ''c'')) (demo_tmem 1))\<lparr>clients := NewCache, failCount := None\<rparr>))))"
proof -
  let ?run = "\<lambda>s. snd (run_state (Reconcile (traced calm_env) demo_rec (nn ''ha'' ''c'')) s)"
  have step: "lifetime_step calm_env demo_rec s (?run s)" for s
    by (rule lifetime_step.reconcile) (rule prod.collapse [symmetric])
  let ?s = "?run (demo_tmem 1)\<lparr>clients := NewCache, failCount := None\<rparr>"
  have path: "(lifetime_step calm_env demo_rec)\<^sup>*\<^sup>* (demo_tmem 1) (?run ?s)"
    by (rule rtranclp.rtrancl_into_rtrancl [OF rtranclp.rtrancl_into_rtrancl [OF r_into_rtranclp]])
       (rule step, rule lifetime_step.restart, rule step)
  have "never_AutoReplica calm_env" "r_PostgresProber demo_rec = None"
    by (simp_all add: never_AutoReplica_def calm_env_def demo_ha_def demo_rec_def)
  from lifetime_never_rebuilds_primary [OF path this] show ?thesis
    by (auto simp: rebuild_gated_def demo_tmem_def trace_def)
qed

section \<open>When the replica list changes under the reconcile\<close>

definition growing_env :: "(rworld, nat) env" where
  "growing_env = ref_env\<lparr>patch_ha := (\<lambda>c h p w. (Inr (h\<lparr>ha_Annotations := [],
     ha_Spec := (ha_Spec h)\<lparr>Replicas := Replicas (ha_Spec h) @ [demo_replica ''d'' ''site-d'' ''d'']\<rparr>\<rparr>), w))\<rparr>"

definition counted_rmem :: "(rworld, nat) rmem" where
  "counted_rmem = \<lparr>world = rw_empty, clients = NewCache,
     failCount = Some ((\<lambda>_. None)(nn ''ha'' ''c'' \<mapsto> 1))\<rparr>"


end
