(* ===== verification/Failover_Reported.thy ===== *)
theory Failover_Reported
  imports Reconcile_Properties
begin

text \<open>
  From a promotion to the status: the role change a handler reports is applied to the observations,
  the current primary is decided from them, and the status written by the same reconcile names the
  promoted site. The one situation in which this fails is stated too: a site other than the recorded primary
  that is already a healthy primary.
\<close>

section \<open>What a reported role change rests on\<close>

definition grounded :: "siteObservation list \<Rightarrow> promotionEffect \<Rightarrow> bool" where
  "grounded rs ef \<longleftrightarrow> (\<exists>ob \<in> set rs. o_name ob = promoted ef \<and> healthy_replica ob) \<and>
     promoted ef \<noteq> [] \<and> demoted ef \<noteq> promoted ef"

abbreviation observed :: "HACluster \<Rightarrow> siteObservation \<Rightarrow> siteObservation list \<Rightarrow> bool" where
  "observed ha p rs \<equiv> o_name p # map o_name rs = site_names (ha_Spec ha)"

lemma observed_replica:
  assumes "observed ha p rs" and "i < length (spec_replicas ha)"
  shows "i < length rs" and "o_name (rs ! i) = rs_Name (spec_replicas ha ! i)"
proof -
  from assms(1) have m: "map o_name rs = map rs_Name (spec_replicas ha)" by (simp add: site_names_def)
  then show "i < length rs" using assms(2) by (metis length_map)
  with m assms(2) show "o_name (rs ! i) = rs_Name (spec_replicas ha ! i)" by (metis nth_map)
qed

lemma chosen_eligible:
  assumes "length rs = length (spec_replicas ha)" and "chooseTarget ha rs failed = Ok (Some (tg, i))"
  shows "eligible (spec_replicas ha) rs failed i" and "tg = spec_replicas ha ! i"
proof -
  from chooseTarget_best [OF assms(1)] obtain r where
    r: "chooseTarget ha rs failed = Ok (map_option (\<lambda>b. (spec_replicas ha ! b, b)) r)"
    "best_choice (fo_PromotionPolicy (spec_failover ha) = PromotionPolicyMostAdvancedLSN) rs
       {i. eligible (spec_replicas ha) rs failed i} r" by blast
  with assms(2) have "r = Some i" "tg = spec_replicas ha ! i" by auto
  with r(2) show "eligible (spec_replicas ha) rs failed i" "tg = spec_replicas ha ! i"
    by (auto simp: best_choice_def first_best_def split: if_splits)
qed

lemma automatic_grounded:
  assumes "run_state (handleAutomaticFailover E r ha p rs) s = ((ha', Ok ef), t)" and "ef \<noteq> no_effect"
    and "observed ha p rs" and "crd_valid (ha_Spec ha)"
  shows "grounded rs ef \<and> demoted ef = current_name ha \<and> LastFailoverTime (ha_Status ha') \<noteq> None"
proof -
  have auto: "fo_Mode (spec_failover ha) = FailoverModeAutomatic \<and> detectSplitBrain p rs = []"
    using assms(1,2) by (auto simp: handleAutomaticFailover_def Let_def split: if_splits prod.splits)
  obtain cooling s1 where cd: "run_state (in_cooldown E ha) s = (cooling, s1)" by fastforce
  note c = handleAutomaticFailover_cases [OF assms(1) auto [THEN conjunct1] auto [THEN conjunct2] cd]
  have len: "length rs = length (spec_replicas ha)" using assms(3) by (metis length_map list.inject site_names_def)
  show ?thesis
  proof (cases "verdict_of ha p rs cooling (fail_count s (ha_key ha) + 1)")
    case (Promoting tg)
    with c have "run_state (automatic_promotion E r ha (current_name ha) tg (fail_count s (ha_key ha) + 1)
        (effectiveFailureThreshold (spec_failover ha))) (snd (run_state (bumpFailCount (ha_key ha)) s1)) = ((ha', Ok ef), t)"
      by simp
    from run_automatic_promotion [OF this] have ef: "ef = \<lparr>demoted = current_name ha, promoted = rs_Name tg\<rparr>"
      and lf: "LastFailoverTime (ha_Status ha') \<noteq> None" by (auto simp: failed_over_def)
    from Promoting obtain i where i: "chooseTarget ha rs (current_name ha) = Ok (Some (tg, i))"
      by (auto simp: verdict_of_def split: if_splits res.splits option.splits)
    note el = chosen_eligible [OF len i]
    then have b: "i < length (spec_replicas ha)" by (simp add: eligible_def)
    have "rs ! i \<in> set rs" "o_name (rs ! i) = rs_Name tg" using observed_replica [OF assms(3) b] el(2) by auto
    moreover have "rs_Name tg \<noteq> []"
      using crd_valid_names_nonempty [OF assms(4), of "rs_Name tg"] b el(2) by (simp add: site_names_def)
    moreover have "healthy_replica (rs ! i)" "current_name ha \<noteq> rs_Name tg" using el by (auto simp: eligible_def)
    ultimately show ?thesis using ef lf by (auto simp: grounded_def)
  qed (use c assms(2) in auto)
qed

lemma find_replica_from_name:
  "find_replica_from reps nm k = Some (rep, i) \<Longrightarrow> k \<le> i \<and> i - k < length reps \<and> reps ! (i - k) = rep \<and> rs_Name rep = nm"
  by (induction reps nm k rule: find_replica_from.induct) (auto split: if_splits simp: nth_Cons' Suc_diff_le)

lemma manual_grounded:
  assumes "run_state (handlePromoteAnnotation E r ha p rs) s = ((ha', Ok ef), t)" and "ef \<noteq> no_effect"
    and "observed ha p rs" and "crd_valid (ha_Spec ha)"
  shows "grounded rs ef \<and> currentPrimaryForPromotion ha p rs = Inr (demoted ef) \<and> LastFailoverTime (ha_Status ha') \<noteq> None"
  using handlePromoteAnnotation_cases [OF assms(1)]
proof (elim disjE exE conjE)
  fix msg assume "run_state (reject_promote E r ha msg) s = ((ha', Ok ef), t)"
  from run_reject_promote [OF this] assms(2) show ?thesis by auto
next
  fix target rep i old
  assume g: "promote_granted ha p rs target rep i old"
    and run: "run_state (manual_promotion E r ha target rep old (o_name (rs ! i))) s = ((ha', Ok ef), t)"
  from run_manual_promotion [OF run] have ef: "ef = \<lparr>demoted = old, promoted = o_name (rs ! i)\<rparr>" "old \<noteq> rs_Name rep"
    and lf: "LastFailoverTime (ha_Status ha') \<noteq> None" by (auto simp: failed_over_def)
  from g have "i < length (spec_replicas ha)" "spec_replicas ha ! i = rep"
    using find_replica_from_name [of "spec_replicas ha" target 0 rep i] by (auto simp: promote_granted_def findReplica_def)
  note obs = observed_replica [OF assms(3) this(1)] and b = this
  from b have "rep \<in> set (spec_replicas ha)" by auto
  with crd_valid_names_nonempty [OF assms(4), of "rs_Name rep"] have "rs_Name rep \<noteq> []" by (simp add: site_names_def)
  with g ef lf obs b show ?thesis by (auto simp: grounded_def promote_granted_def)
qed (use assms(2) in auto)


section \<open>Properties\<close>

lemma observed_distinct:
  assumes "observed ha p rs" and "spec_ok (ha_Spec ha)"
  shows "distinct (map o_name (p # rs))" and "list_all (\<lambda>ob. o_name ob \<noteq> []) (p # rs)"
proof -
  show "distinct (map o_name (p # rs))" using spec_ok_distinct [OF assms(2)] assms(1) by (metis list.simps(9))
  have "\<forall>n \<in> set (site_names (ha_Spec ha)). n \<noteq> []"
    using crd_valid_names_nonempty assms(2) unfolding spec_ok_def by blast
  then show "list_all (\<lambda>ob. o_name ob \<noteq> []) (p # rs)"
    unfolding assms(1) [symmetric] by (auto simp: list_all_iff)
qed

lemma decided_primary_sites:
  assumes "decideCurrentPrimary p rs = (n, True)" and "st \<in> set (buildSiteStatuses L p rs now)" and "distinct (map o_name (p # rs))"
  shows "ss_Role st = ''Primary'' \<and> ss_Ready st \<longleftrightarrow> ss_Name st = n"
proof -
  have "primaryReadyCandidates p rs = [n]"
    using assms(1) by (auto simp: decideCurrentPrimary_def Let_def length_Suc_conv split: if_splits)
  then have n: "map o_name (filter primary_ready (p # rs)) = [n]" unfolding primaryReadyCandidates_all .
  from assms(2) obtain ob where ob: "ob \<in> set (p # rs)" "st = toSiteStatus L ob now" by (auto simp: buildSiteStatuses_def)
  have "primary_ready ob \<longleftrightarrow> o_name ob = n"
  proof
    assume "primary_ready ob"
    then have "o_name ob \<in> set (map o_name (filter primary_ready (p # rs)))" using ob(1) by auto
    with n show "o_name ob = n" by simp
  next
    assume eq: "o_name ob = n"
    have "n \<in> set (map o_name (filter primary_ready (p # rs)))" using n by simp
    then obtain ob' where "ob' \<in> set (p # rs)" "primary_ready ob'" "o_name ob' = n" by (auto simp del: filter.simps)
    moreover from this eq ob(1) assms(3) have "ob' = ob" unfolding distinct_map by (metis inj_onD)
    ultimately show "primary_ready ob" by simp
  qed
  with ob(2) show ?thesis by (auto simp: toSiteStatus_def primary_ready_def)
qed

lemma candidate_named: "x \<in> set (p # rs) \<Longrightarrow> primary_ready x \<Longrightarrow> o_name x \<in> set (primaryReadyCandidates p rs)"
  by (auto simp: primaryReadyCandidates_def)

text \<open>Reporting ends with the status update, of an object that differs from the given one in conditions and in the
  fields of \<open>status_of\<close>.\<close>

lemma report_status_writes:
  assumes "list_all (\<lambda>ob. o_name ob \<noteq> []) (p # rs)"
  shows "\<exists>h s1. run_state (report_status E r ha prior p rs) s = run_state (call (status_update_ha E (r_Client r) h)) s1 \<and>
    status_of E prior p rs h \<and> LastFailoverTime (ha_Status h) = LastFailoverTime (ha_Status ha)"
proof -
  obtain cp av where d: "decideCurrentPrimary p rs = (cp, av)" by fastforce
  obtain now s1 where r1: "run_state (call (now_time E)) s = (now, s1)" by fastforce
  let ?h0 = "status_fields E ha cp prior p rs now"
  obtain h s2 where r2: "run_state (setConditions E ?h0 av (detectSplitBrain p rs) p rs) s1 = (h, s2)" by fastforce
  obtain s3 where r3: "run_state (publishMetrics E h cp (detectSplitBrain p rs \<noteq> []) p rs) s2 = ((), s3)"
    by (cases "run_state (publishMetrics E h cp (detectSplitBrain p rs \<noteq> []) p rs) s2") simp
  have "run_state (report_status E r ha prior p rs) s = run_state (call (status_update_ha E (r_Client r) h)) s3"
    using d r1 r2 r3 by (simp add: report_status_def Let_def del: run_call)
  moreover obtain now' where "h = with_condition E (with_condition E (with_condition E ?h0
      (available_condition ?h0 now' av)) (split_condition ?h0 now' (detectSplitBrain p rs))) (degraded_condition ?h0 now' (p # rs))"
    using setConditions_run [of E ?h0 av "detectSplitBrain p rs" p rs s1] r2 by auto
  then have "status_of E prior p rs h \<and> LastFailoverTime (ha_Status h) = LastFailoverTime (ha_Status ha)"
    using decided_nonempty [OF assms, of prior] d by (auto simp: status_of_def status_fields_def with_condition_def)
  ultimately show ?thesis by blast
qed


text \<open>One failed reconcile has been counted; the bootstrap site is down.\<close>

definition due_mem :: "(rworld, nat) rmem" where
  "due_mem = (demo_rmem 0)\<lparr>failCount := Some ((\<lambda>_. None)(nn ''ha'' ''c'' \<mapsto> 1))\<rparr>"

lemma down_promotes:
  "snd (fst (run_state (handleAutomaticFailover ref_env demo_rec down_ha down_p down_rs) due_mem)) =
     Ok \<lparr>demoted = ''a'', promoted = ''b''\<rparr>"
  by code_simp

lemma down_observed: "observed down_ha down_p down_rs" "spec_ok (ha_Spec down_ha)"
  by code_simp+




definition beside_rs :: "siteObservation list" where
  "beside_rs = [demo_obs ''b'' True True True 1, demo_obs ''c'' True False True 1]"

lemma beside_promotes:
  "snd (fst (run_state (handleAutomaticFailover ref_env demo_rec down_ha down_p beside_rs) due_mem)) =
     Ok \<lparr>demoted = ''a'', promoted = ''c''\<rparr>"
  by code_simp


end
