(* ===== verification/Topology_Convergence.thy ===== *)
theory Topology_Convergence
  imports Controller_Topology
begin

text \<open>
  The topology loop as a whole. Each pass moves every site it can reach towards the primary, and no later
  step of the pass undoes what an earlier one achieved, even when two sites of the spec name the same
  Cluster: fencing keeps the replication source and repointing keeps the fence.
\<close>

section \<open>Laws\<close>

text \<open>Two clients of one server read the same; reading Secrets and building clients changes no Cluster.\<close>

definition shared_reads :: "('w, 'c) env \<Rightarrow> ('c \<Rightarrow> 's) \<Rightarrow> bool" where
  "shared_reads E srv \<longleftrightarrow> (\<forall>c c' k w. srv c = srv c' \<longrightarrow> fst (get_cluster E c k w) = fst (get_cluster E c' k w))"

definition clients_separate :: "('w, 'c) env \<Rightarrow> bool" where
  "clients_separate E \<longleftrightarrow>
     (\<forall>d j w c k. fst (get_cluster E c k (snd (get_secret E d j w))) = fst (get_cluster E c k w)) \<and>
     (\<forall>cfg w c k. fst (get_cluster E c k (snd (new_client E cfg w))) = fst (get_cluster E c k w))"

lemma shared_reads_ref: "shared_reads ref_env id"
  by (simp add: shared_reads_def)

lemma clients_separate_ref: "clients_separate ref_env"
  by (auto simp: clients_separate_def ref_env_def split: option.splits)

section \<open>What every step keeps\<close>

definition same_clusters :: "('w, 'c) env \<Rightarrow> ('w, 'x) mem_scheme \<Rightarrow> ('w, 'x) mem_scheme \<Rightarrow> bool" where
  "same_clusters E s t \<longleftrightarrow> (\<forall>c k. fst (get_cluster E c k (world t)) = fst (get_cluster E c k (world s)))"

interpretation unchanged: run_relation "same_clusters E" for E
  by unfold_locales (simp_all add: same_clusters_def)

lemma same_clusters_siteClientAndRef:
  assumes "clients_separate E"
  shows "relates (same_clusters E) (siteClientAndRef E r ha nm)"
proof -
  have c: "relates (same_clusters E) (call (get_secret E d j))" "relates (same_clusters E) (call (new_client E cfg))" for d j cfg
    using assms by (auto simp: relates_def wp_iff_run same_clusters_def clients_separate_def split: prod.splits) (metis snd_conv)+
  have k: "relates (same_clusters E) (cache_read key)" "relates (same_clusters E) (cache_write key en)" for key en
    by (simp_all add: relates_def wp_iff_run same_clusters_def cache_read_def cache_write_def)
  show ?thesis
    unfolding siteClientAndRef_def GetOrCreate_def loadKubeconfig_def clientFromKubeconfig_def
    by (intro unchanged.relates_rules c k)
qed

text \<open>Every Cluster with property \<open>Q\<close> still has it.\<close>

definition keeps ::
  "('w, 'c) env \<Rightarrow> (json \<Rightarrow> bool) \<Rightarrow> ('w, 'x) mem_scheme \<Rightarrow> ('w, 'x) mem_scheme \<Rightarrow> bool" where
  "keeps E Q s t \<longleftrightarrow> (\<forall>c k u. fst (get_cluster E c k (world s)) = Inr u \<longrightarrow> Q u \<longrightarrow>
     (\<exists>v. fst (get_cluster E c k (world t)) = Inr v \<and> Q v))"

lemma keeps_refl: "keeps E Q s s"
  by (simp add: keeps_def)

lemma keeps_trans: "keeps E Q s t \<Longrightarrow> keeps E Q t u \<Longrightarrow> keeps E Q s u"
  unfolding keeps_def by meson

lemma keeps_same: "same_clusters E s t \<Longrightarrow> keeps E Q s t"
  by (simp add: keeps_def same_clusters_def)

text \<open>A step that writes one Cluster, and keeps \<open>Q\<close> there.\<close>

lemma keeps_one:
  assumes "store_laws E srv" and "shared_reads E srv"
    and "\<And>c' k'. (srv c', k') \<noteq> (srv c, k) \<Longrightarrow> fst (get_cluster E c' k' (world t)) = fst (get_cluster E c' k' (world s))"
    and "\<And>u. fst (get_cluster E c k (world s)) = Inr u \<Longrightarrow> Q u \<Longrightarrow> \<exists>v. fst (get_cluster E c k (world t)) = Inr v \<and> Q v"
  shows "keeps E Q s t"
  unfolding keeps_def
proof (intro allI impI)
  fix c' k' u assume u: "fst (get_cluster E c' k' (world s)) = Inr u" "Q u"
  show "\<exists>v. fst (get_cluster E c' k' (world t)) = Inr v \<and> Q v"
  proof (cases "srv c' = srv c \<and> k' = k")
    case True
    then have eq: "fst (get_cluster E c' k' w) = fst (get_cluster E c k w)" for w
      using assms(2) unfolding shared_reads_def by blast
    from assms(4) [OF u(1) [unfolded eq] u(2)] show ?thesis unfolding eq .
  next
    case False
    then have "(srv c', k') \<noteq> (srv c, k)" by auto
    from assms(3) [OF this] u show ?thesis by simp
  qed
qed

lemma streams_from_same_reads: "(\<And>p. same_reads L v u (''spec'' # p)) \<Longrightarrow> streams_from L host u \<Longrightarrow> streams_from L host v"
  by (simp add: streams_from_def same_reads_def replica_enabled_path_def)

lemma Fence_keeps:
  assumes "store_laws E srv" and "unstructured_laws E" and "shared_reads E srv" and "run_state (Fence E c ref) s = (Ok (), t)"
  shows "keeps E (all_fenced E) s t" and "keeps E (streams_from E host) s t"
proof -
  note one = keeps_one [OF assms(1,3) cluster_step_frame(1) [OF assms(1) disjI1 [OF assms(4)]]]
  show "keeps E (all_fenced E) s t" by (rule one) (use Fence_spec [OF assms(1,2,4)] in blast)+
  show "keeps E (streams_from E host) s t"
    by (rule one) (use Fence_spec [OF assms(1,2,4)] streams_from_same_reads in blast)+
qed

lemma Reconfigure_frame:
  assumes "store_laws E srv" and "run_state (Reconfigure E c ref host) s = (Ok (), t)"
    and "(srv c', k') \<noteq> (srv c, ref_key ref)"
  shows "fst (get_cluster E c' k' (world t)) = fst (get_cluster E c' k' (world s))"
proof -
  have h: "host \<noteq> []" using reconfigure_step.blocked [of host E c ref s] assms(2) by auto
  have "\<exists>w r. world t = world s \<or> update_cluster E c (ref_key ref) w (world s) = (r, world t)"
    using assms(2) store_lawsD(1) [OF assms(1), of c "ref_key ref" "world s"]
    unfolding reconfigure_step.step [OF h] by (auto split: prod.splits sum.splits option.splits)
  with store_lawsD(3) [OF assms(1)] assms(3) show ?thesis by metis
qed

lemma Reconfigure_annotations:
  assumes "store_laws E srv" and "unstructured_laws E" and "run_state (Reconfigure E c ref host) s = (Ok (), t)"
    and "fst (get_cluster E c (ref_key ref) (world s)) = Inr u"
  shows "\<exists>v. fst (get_cluster E c (ref_key ref) (world t)) = Inr v \<and> same_annotations E v u"
proof -
  from reconfigure_step.success_agrees [OF store_faithful(1) [OF assms(1)] assms(3)] assms(4) obtain v where
    v: "fst (get_cluster E c (ref_key ref) (world t)) = Inr v"
    "(reconfigure_plan host E ref u = Inr None \<and> v = u) \<or> (\<exists>u'. reconfigure_plan host E ref u = Inr (Some u') \<and> same_intent E v u')"
    by (metis sum.inject(2))
  with reconfigure_plan_annotations [OF assms(2)] show ?thesis
    by (auto simp: same_intent_def same_annotations_def)
qed

lemma Reconfigure_keeps:
  assumes "store_laws E srv" and "unstructured_laws E" and "shared_reads E srv"
    and "run_state (Reconfigure E c ref host) s = (Ok (), t)"
  shows "keeps E (all_fenced E) s t" and "keeps E (streams_from E host) s t"
proof -
  note one = keeps_one [OF assms(1,3) Reconfigure_frame [OF assms(1,4)]]
  show "keeps E (all_fenced E) s t"
    by (rule one) (use Reconfigure_annotations [OF assms(1,2,4)] in \<open>fastforce simp: all_fenced_def same_annotations_def\<close>)+
  show "keeps E (streams_from E host) s t"
    by (rule one) (use Reconfigure_follows [OF assms(1,2,4)] in blast)+
qed


lemma keeps_reads:
  "keeps E Q s u \<Longrightarrow> \<forall>d k. fst (get_cluster E d k (world t)) = fst (get_cluster E d k (world u)) \<Longrightarrow> keeps E Q s t"
  by (simp add: keeps_def)

lemma converge_site_keeps:
  assumes "store_laws E srv" and "unstructured_laws E" and "events_separate E" and "shared_reads E srv"
    and "run_state (converge_site E r ha eff endpoint rejoin nm c ref) s = (Ok (), t)"
  shows "keeps E (all_fenced E) s t \<and> keeps E (streams_from E endpoint) s t"
proof (cases "fst (get_cluster E c (ref_key ref) (world s))")
  case (Inl e)
  then show ?thesis using assms(5) keeps_refl unfolding converge_site_run [OF assms(1)] by auto
next
  case (Inr u)
  note run = assms(5) [unfolded converge_site_run [OF assms(1)] Inr sum.case]
  note fence = Fence_keeps [OF assms(1,2,4)] and reconf = Reconfigure_keeps [OF assms(1,2,4)]
  show ?thesis
  proof (cases "in_primary_mode E u")
    case False
    with run have "run_state (repoint_replica E eff endpoint nm c ref) s = (Ok (), t)" by simp
    from reconf [OF repoint_replica_Ok [OF this]] show ?thesis by simp
  next
    case True
    show ?thesis
    proof (cases "rejoin = RejoinPolicyAutoReplica")
      case True
      with run \<open>in_primary_mode E u\<close> have "run_state (rejoin_as_replica E r ha eff endpoint nm c ref) s = (Ok (), t)" by simp
      from rejoin_as_replica_Ok [OF assms(3) this] show ?thesis using reconf keeps_reads by blast
    next
      case False
      with run \<open>in_primary_mode E u\<close> have "run_state (fence_returning E r ha nm c ref) s = (Ok (), t)" by simp
      from fence_returning_Ok [OF assms(3) this] show ?thesis using fence keeps_reads by blast
    qed
  qed
qed

section \<open>The loop\<close>

text \<open>What became, at \<open>t\<close>, of the site \<open>nm\<close> whose turn came at \<open>s\<close>: nothing is said when it has no client
  or its Cluster does not read; a Cluster then in primary mode is fenced, unless it was to be rebuilt; any
  other is a replica of the endpoint.\<close>

definition site_settled ::
  "('w, 'c) env \<Rightarrow> ('w, 'c) HAClusterReconciler \<Rightarrow> HACluster \<Rightarrow> string \<Rightarrow> string \<Rightarrow> string \<Rightarrow>
   ('w, 'c, 'x) cmem_scheme \<Rightarrow> ('w, 'c, 'x) cmem_scheme \<Rightarrow> bool" where
  "site_settled E r ha endpoint rejoin nm s t = (case run_state (siteClientAndRef E r ha nm) s of
     (None, _) \<Rightarrow> True
   | (Some (c, ref), s1) \<Rightarrow> (case fst (get_cluster E c (ref_key ref) (world s1)) of
       Inl _ \<Rightarrow> True
     | Inr u \<Rightarrow> (\<exists>v. fst (get_cluster E c (ref_key ref) (world t)) = Inr v \<and>
         (if in_primary_mode E u \<and> rejoin \<noteq> ''AutoReplica'' then all_fenced E v else streams_from E endpoint v))))"

lemma site_settled_later:
  assumes "site_settled E r ha endpoint rejoin nm s t" and "keeps E (all_fenced E) t t'" and "keeps E (streams_from E endpoint) t t'"
  shows "site_settled E r ha endpoint rejoin nm s t'"
  using assms unfolding site_settled_def keeps_def
  by (auto split: option.splits sum.splits prod.splits if_splits) metis+

lemma topology_loop_settles:
  assumes "store_laws E srv" and "unstructured_laws E" and "events_separate E" and "shared_reads E srv" and "clients_separate E"
  shows "run_state (topology_loop E r ha eff endpoint rejoin obs) s = (Ok (), t) \<Longrightarrow>
    keeps E (all_fenced E) s t \<and> keeps E (streams_from E endpoint) s t \<and>
    (\<forall>i < length obs. o_name (obs ! i) \<noteq> eff \<longrightarrow> (\<exists>s1.
       run_state (topology_loop E r ha eff endpoint rejoin (take i obs)) s = (Ok (), s1) \<and>
       site_settled E r ha endpoint rejoin (o_name (obs ! i)) s1 t))"
proof (induction obs arbitrary: s)
  case Nil
  then show ?case by (simp add: keeps_refl)
next
  case (Cons ob obs)
  let ?loop = "topology_loop E r ha eff endpoint rejoin"
  have step: ?case if "\<And>obs'. run_state (?loop (ob # obs')) s = run_state (?loop obs') u"
    and "keeps E (all_fenced E) s u" and "keeps E (streams_from E endpoint) s u"
    and first: "o_name ob \<noteq> eff \<Longrightarrow> site_settled E r ha endpoint rejoin (o_name ob) s u" for u
  proof -
    from Cons.prems that(1) have "run_state (?loop obs) u = (Ok (), t)" by simp
    note IH = Cons.IH [OF this]
    have "\<exists>s1. run_state (?loop (take i (ob # obs))) s = (Ok (), s1) \<and>
        site_settled E r ha endpoint rejoin (o_name ((ob # obs) ! i)) s1 t"
      if i: "i < length (ob # obs)" "o_name ((ob # obs) ! i) \<noteq> eff" for i
    proof (cases i)
      case 0
      with i first IH show ?thesis by (auto intro: site_settled_later)
    next
      case (Suc j)
      with i IH that(1) \<open>\<And>obs'. run_state (?loop (ob # obs')) s = run_state (?loop obs') u\<close> show ?thesis by simp
    qed
    with IH that show ?thesis by (blast intro: keeps_trans)
  qed
  show ?case
  proof (cases "o_name ob = eff")
    case True
    then show ?thesis by (intro step [of s]) (simp_all add: keeps_refl)
  next
    case False
    obtain x s1 where x: "run_state (siteClientAndRef E r ha (o_name ob)) s = (x, s1)" by fastforce
    have same: "same_clusters E s s1" by (rule relates_run [OF same_clusters_siteClientAndRef [OF assms(5)] x])
    show ?thesis
    proof (cases x)
      case None
      with x False same show ?thesis by (intro step [of s1]) (simp_all add: keeps_same site_settled_def)
    next
      case (Some y)
      obtain c ref where y: "y = (c, ref)" by fastforce
      obtain z s2 where z: "run_state (converge_site E r ha eff endpoint rejoin (o_name ob) c ref) s1 = (z, s2)" by fastforce
      from Cons.prems False x Some y z have ok: "z = Ok ()" by (cases z) auto
      have k: "keeps E (all_fenced E) s s2" "keeps E (streams_from E endpoint) s s2"
        using converge_site_keeps [OF assms(1-4) z [unfolded ok]] keeps_same [OF same] by (blast intro: keeps_trans)+
      have "site_settled E r ha endpoint rejoin (o_name ob) s s2"
        using converge_site_result [OF assms(1-3) z [unfolded ok]] x Some y
        by (auto simp: site_settled_def split: sum.splits if_splits)
      then show ?thesis
        using False x Some y z ok k by (intro step [of s2]) simp_all
    qed
  qed
qed


section \<open>Properties\<close>

text \<open>C10. A topology pass that reports success has settled every site (Kubernetes store without concurrent writers, Events,
  Secrets and client construction kept apart from Clusters): take any observed site other than the primary, and the moment its
  turn comes in the loop. If it has a client and its Cluster reads, then at the end of the whole pass that Cluster is fenced (it
  was in primary mode and the policy is not \<open>AutoReplica\<close>), or it is in replica mode and streams from the primary's
  endpoint. Later sites do not undo it, even when the spec lists the same Cluster twice.\<close>

theorem topology_converges:
  assumes "store_laws E srv" and "unstructured_laws E" and "events_separate E" and "shared_reads E srv" and "clients_separate E"
    and "eff \<noteq> []" and "replicationEndpointFor ha eff \<noteq> []"
    and "run_state (reconcileReplicaTopology E r ha eff p rs) s = (Ok (), t)"
    and "ob \<in> set (p # rs)" and "o_name ob \<noteq> eff"
  shows "\<exists>before after s1. p # rs = before @ ob # after \<and>
    (let endpoint = replicationEndpointFor ha eff;
         rejoin = (if fo_RejoinPolicy (spec_failover ha) = [] then ''Manual'' else fo_RejoinPolicy (spec_failover ha)) in
     run_state (topology_loop E r ha eff endpoint rejoin before) s = (Ok (), s1) \<and>
     site_settled E r ha endpoint rejoin (o_name ob) s1 t)"
proof -
  let ?rj = "if fo_RejoinPolicy (spec_failover ha) = [] then ''Manual'' else fo_RejoinPolicy (spec_failover ha)"
  let ?ep = "replicationEndpointFor ha eff"
  have run: "run_state (topology_loop E r ha eff ?ep ?rj (p # rs)) s = (Ok (), t)"
    using assms(6-8) unfolding reconcileReplicaTopology_def Let_def RejoinPolicyManual_def
    by (simp only: if_False)
  from assms(9) obtain i where i: "i < length (p # rs)" "ob = (p # rs) ! i" by (metis in_set_conv_nth)
  with topology_loop_settles [OF assms(1-5) run] assms(10) obtain s1 where
    "run_state (topology_loop E r ha eff ?ep ?rj (take i (p # rs))) s = (Ok (), s1)"
    "site_settled E r ha ?ep ?rj (o_name ob) s1 t" by blast
  moreover have "p # rs = take i (p # rs) @ ob # drop (Suc i) (p # rs)" using i by (simp only: id_take_nth_drop)
  ultimately show ?thesis by (metis (no_types, lifting))
qed

abbreviation demo_pass :: "unit res \<times> (rworld, nat) rmem" where
  "demo_pass \<equiv> run_state (reconcileReplicaTopology ref_env demo_rec (demo_ha ''Manual'' ''Ordered'' [] ''b'') ''b''
     manual_p [demo_obs ''b'' True False True 1]) (demo_rmem 1)"

lemma demo_pass_runs: "fst demo_pass = Ok ()"
  by code_simp

lemma demo_site_a:
  "run_state (siteClientAndRef ref_env demo_rec (demo_ha ''Manual'' ''Ordered'' [] ''b'') ''a'') s = (Some (0, demo_ref), s)"
  by (simp add: siteClientAndRef_def demo_ha_def demo_rec_def demo_ref_def cluster_ref_def)

lemma demo_cluster_a:
  "fst (get_cluster ref_env 0 (ref_key demo_ref) (world (demo_rmem 1))) = Inr (demo_cluster False ''old'' 1)"
  "in_primary_mode ref_env (demo_cluster False ''old'' 1)"
  by code_simp+

text \<open>Site \<open>a\<close>, still in primary mode while \<open>b\<close> is the primary, ends up fenced.\<close>

theorem topology_converges_witness:
  "\<exists>v. fst (get_cluster ref_env 0 (ref_key demo_ref) (world (snd demo_pass))) = Inr v \<and> all_fenced ref_env v"
proof -
  let ?ha = "demo_ha ''Manual'' ''Ordered'' [] ''b''"
  obtain t where r: "demo_pass = (Ok (), t)" using demo_pass_runs by (metis prod.collapse)
  have ep: "replicationEndpointFor ?ha ''b'' = ''b''" "fo_RejoinPolicy (spec_failover ?ha) = ''Manual''"
    by (simp_all add: replicationEndpointFor_def demo_ha_def demo_replica_def)
  have p: "o_name manual_p = ''a''" by (simp add: manual_p_def demo_obs_def)
  from topology_converges [OF store_laws_ref unstructured_laws_ref events_separate_ref shared_reads_ref clients_separate_ref
      _ _ r, of manual_p] obtain before after s1 where
    b: "[manual_p, demo_obs ''b'' True False True 1] = before @ manual_p # after"
    "run_state (topology_loop ref_env demo_rec ?ha ''b'' ''b'' ''Manual'' before) (demo_rmem 1) = (Ok (), s1)"
    "site_settled ref_env demo_rec ?ha ''b'' ''Manual'' ''a'' s1 t"
    by (auto simp: ep p Let_def)
  have "o_name (demo_obs ''b'' True False True 1) \<noteq> ''a''" by (simp add: demo_obs_def)
  with b(1) p have "before = []" by (auto simp: Cons_eq_append_conv)
  with b(2,3) r demo_cluster_a show ?thesis by (auto simp: site_settled_def demo_site_a)
qed

end
