(* ===== verification/Go_Flag.thy ===== *)
theory Go_Flag
  imports Go_Std
begin

text \<open>
  The command-line parser of Go's package \<open>flag\<close>, as far as \<open>cmd/main.go\<close> uses it: declaring
  boolean and string flags, \<open>parseOne\<close> with its syntax errors, and the loop of \<open>Parse\<close>. A flag is a
  setter on the state \<open>'s\<close> of all flag variables. Texts printed on the way out are left out.
\<close>

section \<open>strconv.ParseBool\<close>

definition ParseBool :: "string \<Rightarrow> goerror + bool" where
  "ParseBool s =
     (if s \<in> {''1'', ''t'', ''T'', ''true'', ''TRUE'', ''True''} then Inr True
      else if s \<in> {''0'', ''f'', ''F'', ''false'', ''FALSE'', ''False''} then Inr False
      else Inl (Errorf (''strconv.ParseBool: parsing '' @ fmt_q s @ '': invalid syntax'')))"

lemma ParseBool_fmt_bool [simp]: "ParseBool (fmt_bool b) = Inr b"
  by (simp add: ParseBool_def fmt_bool_def)

section \<open>Flags\<close>

record 's Flag =
  isBoolFlag :: bool
  setFlag :: "string \<Rightarrow> 's \<Rightarrow> goerror option \<times> 's"

type_synonym 's FlagSet = "(string \<times> 's Flag) list"

definition StringVar :: "((string \<Rightarrow> string) \<Rightarrow> 's \<Rightarrow> 's) \<Rightarrow> 's Flag" where
  "StringVar upd = \<lparr>isBoolFlag = False, setFlag = (\<lambda>v s. (None, upd (\<lambda>_. v) s))\<rparr>"

text \<open>A value that does not parse is reported, and the variable set to false.\<close>

definition BoolVar :: "((bool \<Rightarrow> bool) \<Rightarrow> 's \<Rightarrow> 's) \<Rightarrow> 's Flag" where
  "BoolVar upd = \<lparr>isBoolFlag = True, setFlag = (\<lambda>v s. case ParseBool v of
     Inr b \<Rightarrow> (None, upd (\<lambda>_. b) s) | Inl _ \<Rightarrow> (Some (Errorf ''parse error''), upd (\<lambda>_. False) s))\<rparr>"

text \<open>Declaring a flag (\<open>FlagSet.Var\<close>).\<close>

definition declare_flag :: "string \<Rightarrow> 's Flag \<Rightarrow> 's FlagSet \<Rightarrow> 's FlagSet res" where
  "declare_flag n f fs =
     (if n \<noteq> [] \<and> hd n = CHR ''-'' then Panic (''flag '' @ fmt_q n @ '' begins with -'')
      else if CHR ''='' \<in> set n then Panic (''flag '' @ fmt_q n @ '' contains ='')
      else if map_of fs n \<noteq> None then Panic (''flag redefined: '' @ n)
      else Ok ((n, f) # fs))"

fun declare_flags :: "(string \<times> 's Flag) list \<Rightarrow> 's FlagSet \<Rightarrow> 's FlagSet res" where
  "declare_flags [] fs = Ok fs"
| "declare_flags ((n, f) # nfs) fs = (case declare_flag n f fs of
     Ok fs' \<Rightarrow> declare_flags nfs fs' | Err e \<Rightarrow> Err e | Panic m \<Rightarrow> Panic m)"

section \<open>Parsing\<close>

datatype 's parsed_one = NoMore "string list" 's | Seen "string list" 's | BadFlag goerror | HelpFlag

definition set_value :: "'s Flag \<Rightarrow> string \<Rightarrow> string \<Rightarrow> string list \<Rightarrow> 's \<Rightarrow> 's parsed_one" where
  "set_value f n v args s = (case setFlag f v s of
     (Some e, _) \<Rightarrow> BadFlag (Errorf ((if isBoolFlag f then ''invalid boolean value '' @ fmt_q v @ '' for -''
       else ''invalid value '' @ fmt_q v @ '' for flag -'') @ n @ '': '' @ err_text e))
   | (None, s') \<Rightarrow> Seen args s')"

definition parse_named :: "'s FlagSet \<Rightarrow> string \<Rightarrow> string list \<Rightarrow> 's \<Rightarrow> 's parsed_one" where
  "parse_named fs nv args s = (case cut (CHR ''='') nv of (n, v, hasValue) \<Rightarrow>
     (case map_of fs n of
        None \<Rightarrow> if n = ''help'' \<or> n = ''h'' then HelpFlag
                else BadFlag (Errorf (''flag provided but not defined: -'' @ n))
      | Some f \<Rightarrow>
          if isBoolFlag f then set_value f n (if hasValue then v else ''true'') args s
          else if hasValue then set_value f n v args s
          else (case args of
              [] \<Rightarrow> BadFlag (Errorf (''flag needs an argument: -'' @ n))
            | w # args' \<Rightarrow> set_value f n w args' s)))"

definition parseOne :: "'s FlagSet \<Rightarrow> string list \<Rightarrow> 's \<Rightarrow> 's parsed_one" where
  "parseOne fs args s = (case args of
     [] \<Rightarrow> NoMore [] s
   | a # rest \<Rightarrow> (case a of
       c # d # cs \<Rightarrow>
         if c \<noteq> CHR ''-'' then NoMore args s
         else if d = CHR ''-'' \<and> cs = [] then NoMore rest s
         else let nv = (if d = CHR ''-'' then cs else d # cs) in
           if nv = [] \<or> hd nv = CHR ''-'' \<or> hd nv = CHR ''='' then BadFlag (Errorf (''bad flag syntax: '' @ a))
           else parse_named fs nv rest s
     | _ \<Rightarrow> NoMore args s))"

text \<open>Every argument consumed shortens the list, so the loop of \<open>Parse\<close> ends.\<close>

lemma set_value_Seen: "set_value f n v args s = Seen args' s' \<Longrightarrow> args' = args"
  by (auto simp: set_value_def split: prod.splits option.splits)

lemma parseOne_Seen: "parseOne fs args s = Seen args' s' \<Longrightarrow> length args' < length args"
  by (auto simp: parseOne_def parse_named_def Let_def dest!: set_value_Seen
      split: list.splits prod.splits option.splits if_splits)

datatype 's parse_result = Parsed "string list" 's | ParseFailed goerror | HelpWanted

function Parse :: "'s FlagSet \<Rightarrow> string list \<Rightarrow> 's \<Rightarrow> 's parse_result" where
  "Parse fs args s = (case parseOne fs args s of
     NoMore rest s' \<Rightarrow> Parsed rest s'
   | Seen args' s' \<Rightarrow> Parse fs args' s'
   | BadFlag e \<Rightarrow> ParseFailed e
   | HelpFlag \<Rightarrow> HelpWanted)"
  by pat_completeness auto
termination
  by (relation "measure (\<lambda>(fs, args, s). length args)") (auto dest: parseOne_Seen)

declare Parse.simps [simp del]

section \<open>Laws\<close>

lemma Parse_Nil [simp]: "Parse fs [] s = Parsed [] s"
  by (simp add: Parse.simps [of fs "[]"] parseOne_def)

definition plain_name :: "string \<Rightarrow> bool" where
  "plain_name n \<longleftrightarrow> n \<noteq> [] \<and> hd n \<noteq> CHR ''-'' \<and> CHR ''='' \<notin> set n"

definition flag_arg :: "string \<Rightarrow> string \<Rightarrow> string" where
  "flag_arg n v = ''--'' @ n @ ''='' @ v"

text \<open>An argument \<open>--name=value\<close> of a declared flag.\<close>

lemma Parse_flag_arg:
  assumes "plain_name n" and "map_of fs n = Some f"
  shows "Parse fs (flag_arg n v # args) s =
    (case set_value f n v args s of Seen args' s' \<Rightarrow> Parse fs args' s' | BadFlag e \<Rightarrow> ParseFailed e
     | NoMore rest s' \<Rightarrow> Parsed rest s' | HelpFlag \<Rightarrow> HelpWanted)"
proof -
  have "hd (n @ CHR ''='' # v) \<noteq> CHR ''-''" "hd (n @ CHR ''='' # v) \<noteq> CHR ''=''"
    using assms(1) by (cases n; auto simp: plain_name_def)+
  then have "parseOne fs (flag_arg n v # args) s = set_value f n v args s"
    using assms by (auto simp: parseOne_def parse_named_def flag_arg_def plain_name_def Let_def)
  then show ?thesis by (subst Parse.simps) (simp split: parsed_one.splits)
qed

text \<open>A flag written out only when its value is not the default.\<close>

definition opt_arg :: "string \<Rightarrow> string \<Rightarrow> string \<Rightarrow> string list" where
  "opt_arg n d v = (if v = d then [] else [flag_arg n v])"

lemma Parse_opt_string:
  assumes "plain_name n" and "map_of fs n = Some (StringVar upd)" and "upd (\<lambda>_. d) s = s"
  shows "Parse fs (opt_arg n d v @ args) s = Parse fs args (upd (\<lambda>_. v) s)"
  using assms by (simp add: opt_arg_def Parse_flag_arg set_value_def StringVar_def)

lemma Parse_opt_bool:
  assumes "plain_name n" and "map_of fs n = Some (BoolVar upd)" and "upd (\<lambda>_. d) s = s"
  shows "Parse fs (opt_arg n (fmt_bool d) (fmt_bool b) @ args) s = Parse fs args (upd (\<lambda>_. b) s)"
proof -
  have "fmt_bool b = fmt_bool d \<Longrightarrow> b = d" by (simp add: fmt_bool_def split: if_splits)
  with assms show ?thesis by (auto simp: opt_arg_def Parse_flag_arg set_value_def BoolVar_def)
qed

lemma declare_flags_keeps:
  "declare_flags nfs fs = Ok gs \<Longrightarrow> map_of fs n = Some f \<Longrightarrow> map_of gs n = Some f"
proof (induction nfs fs rule: declare_flags.induct)
  case (2 m g nfs fs)
  from "2.prems" have "map_of fs m = None" "declare_flag m g fs = Ok ((m, g) # fs)"
    by (auto simp: declare_flag_def split: if_splits)
  with 2 show ?case by (cases "n = m") auto
qed simp

lemma declare_flags_lookup:
  "declare_flags nfs fs = Ok gs \<Longrightarrow> (n, f) \<in> set nfs \<Longrightarrow> map_of gs n = Some f"
proof (induction nfs fs rule: declare_flags.induct)
  case (2 m g nfs fs)
  then show ?case
    using declare_flags_keeps [of nfs "(m, g) # fs" gs m g]
    by (auto simp: declare_flag_def split: if_splits)
qed simp

lemma declare_flags_append:
  "declare_flags (xs @ ys) fs = Ok gs \<longleftrightarrow> (\<exists>hs. declare_flags xs fs = Ok hs \<and> declare_flags ys hs = Ok gs)"
  by (induction xs fs rule: declare_flags.induct) (auto split: res.splits)

end
