(* ===== verification/Main_Setup.thy ===== *)
theory Main_Setup
  imports Remote_Client Metrics Go_Flag
begin

text \<open>
  \<open>cmd/main.go\<close>, \<open>SetupWithManager\<close> and the scheme registration of
  \<open>api/v1alpha1/groupversion_info.go\<close>: from the command line to a running manager. The
  options handed to controller-runtime are records of the fields the program sets; a TLS option is a
  function on the TLS configuration, as in the source. The scheme registrations, the manager and its
  methods are parameters (\<open>runtime\<close>), and so are the flags that libraries declare
  (\<open>flaglib\<close>); the calls of a start-up are written down by \<open>boot_traced\<close>.
\<close>

section \<open>Flags and options\<close>

record Flags =
  metricsAddr :: string
  probeAddr :: string
  enableLeaderElection :: bool
  secureMetrics :: bool
  webhookCertPath :: string
  webhookCertName :: string
  webhookCertKey :: string
  metricsCertPath :: string
  metricsCertName :: string
  metricsCertKey :: string
  enableHTTP2 :: bool

text \<open>The values of the flags that are not given on the command line.\<close>

definition default_flags :: Flags where
  "default_flags = \<lparr>metricsAddr = ''0'', probeAddr = '':8081'', enableLeaderElection = False, secureMetrics = True,
     webhookCertPath = [], webhookCertName = ''tls.crt'', webhookCertKey = ''tls.key'',
     metricsCertPath = [], metricsCertName = ''tls.crt'', metricsCertKey = ''tls.key'', enableHTTP2 = False\<rparr>"

record TLSConfig =
  NextProtos :: "string list"
  MinVersion :: "16 word"

type_synonym tls_opt = "TLSConfig \<Rightarrow> TLSConfig"

record WebhookOptions =
  wh_TLSOpts :: "tls_opt list"
  wh_CertDir :: string
  wh_CertName :: string
  wh_KeyName :: string

record MetricsOptions =
  ms_BindAddress :: string
  ms_SecureServing :: bool
  ms_TLSOpts :: "tls_opt list"
  ms_WithAuthenticationAndAuthorization :: bool
  ms_CertDir :: string
  ms_CertName :: string
  ms_KeyName :: string

record ManagerOptions =
  mo_Metrics :: MetricsOptions
  mo_Webhook :: WebhookOptions
  mo_HealthProbeBindAddress :: string
  mo_LeaderElection :: bool
  mo_LeaderElectionID :: string

definition disableHTTP2 :: tls_opt where
  "disableHTTP2 c = c\<lparr>NextProtos := [''http/1.1'']\<rparr>"

definition tlsOpts :: "Flags \<Rightarrow> tls_opt list" where
  "tlsOpts fl = (if \<not> enableHTTP2 fl then [disableHTTP2] else [])"

definition webhookServerOptions :: "Flags \<Rightarrow> WebhookOptions" where
  "webhookServerOptions fl =
     (let opts = \<lparr>wh_TLSOpts = tlsOpts fl, wh_CertDir = [], wh_CertName = [], wh_KeyName = []\<rparr> in
      if webhookCertPath fl \<noteq> [] then opts\<lparr>wh_CertDir := webhookCertPath fl,
        wh_CertName := webhookCertName fl, wh_KeyName := webhookCertKey fl\<rparr>
      else opts)"

definition metricsServerOptions :: "Flags \<Rightarrow> MetricsOptions" where
  "metricsServerOptions fl =
     (let opts = \<lparr>ms_BindAddress = metricsAddr fl, ms_SecureServing = secureMetrics fl, ms_TLSOpts = tlsOpts fl,
            ms_WithAuthenticationAndAuthorization = False, ms_CertDir = [], ms_CertName = [], ms_KeyName = []\<rparr>;
          opts = (if secureMetrics fl then opts\<lparr>ms_WithAuthenticationAndAuthorization := True\<rparr> else opts)
      in if metricsCertPath fl \<noteq> [] then opts\<lparr>ms_CertDir := metricsCertPath fl,
           ms_CertName := metricsCertName fl, ms_KeyName := metricsCertKey fl\<rparr>
         else opts)"

definition manager_options :: "Flags \<Rightarrow> ManagerOptions" where
  "manager_options fl = \<lparr>mo_Metrics = metricsServerOptions fl, mo_Webhook = webhookServerOptions fl,
     mo_HealthProbeBindAddress = probeAddr fl, mo_LeaderElection = enableLeaderElection fl,
     mo_LeaderElectionID = ''245db9a3.ha.cnpg.io''\<rparr>"

section \<open>The command line\<close>

text \<open>The flags of linked libraries: those declared when packages are initialised, those of
  \<open>zap.Options.BindFlags\<close>, and the initial contents of their variables.\<close>

record 'z flaglib =
  initFlags :: "'z FlagSet"
  zapFlags :: "'z FlagSet"
  libInit :: 'z

record 'z vars = Flags +
  libvars :: 'z

definition lib_flag :: "string \<times> 'z Flag \<Rightarrow> string \<times> 'z vars Flag" where
  "lib_flag nf = (fst nf, \<lparr>isBoolFlag = isBoolFlag (snd nf),
     setFlag = (\<lambda>v s. case setFlag (snd nf) v (libvars s) of (e, z) \<Rightarrow> (e, s\<lparr>libvars := z\<rparr>))\<rparr>)"

definition main_flags :: "(string \<times> 'z vars Flag) list" where
  "main_flags = [
     (''metrics-bind-address'', StringVar metricsAddr_update),
     (''health-probe-bind-address'', StringVar probeAddr_update),
     (''leader-elect'', BoolVar enableLeaderElection_update),
     (''metrics-secure'', BoolVar secureMetrics_update),
     (''webhook-cert-path'', StringVar webhookCertPath_update),
     (''webhook-cert-name'', StringVar webhookCertName_update),
     (''webhook-cert-key'', StringVar webhookCertKey_update),
     (''metrics-cert-path'', StringVar metricsCertPath_update),
     (''metrics-cert-name'', StringVar metricsCertName_update),
     (''metrics-cert-key'', StringVar metricsCertKey_update),
     (''enable-http2'', BoolVar enableHTTP2_update)]"

definition command_flags :: "'z flaglib \<Rightarrow> 'z vars FlagSet res" where
  "command_flags L = declare_flags (map lib_flag (initFlags L) @ main_flags @ map lib_flag (zapFlags L)) []"

text \<open>How the process ends: by returning from \<open>main\<close>, by \<open>os.Exit\<close>, or by a panic.\<close>

datatype ending = Returned | Exited nat | Panicked string

text \<open>\<open>flag.Parse()\<close> on the process's flag set, which exits with 2 on an error and with 0 after a request for
  help. Positional arguments are not looked at.\<close>

definition parse_command_line :: "'z flaglib \<Rightarrow> string list \<Rightarrow> ending + Flags" where
  "parse_command_line L args = (case command_flags L of
     Ok fs \<Rightarrow> (case Parse fs args (Flags.extend default_flags \<lparr>libvars = libInit L\<rparr>) of
         Parsed _ s \<Rightarrow> Inr (Flags.truncate s)
       | ParseFailed _ \<Rightarrow> Inl (Exited 2)
       | HelpWanted \<Rightarrow> Inl (Exited 0))
   | Err e \<Rightarrow> Inl (Panicked (err_text e))
   | Panic m \<Rightarrow> Inl (Panicked m))"

section \<open>Start-up\<close>

record schema_GroupVersion =
  gv_Group :: string
  gv_Version :: string

definition SchemeGroupVersion :: schema_GroupVersion where
  "SchemeGroupVersion = \<lparr>gv_Group = ''ha.cnpg.io'', gv_Version = ''v1alpha1''\<rparr>"

definition registered_types :: "string list" where
  "registered_types = [''HACluster'', ''HAClusterList'']"

text \<open>\<open>registerTypes\<close> is \<open>SchemeBuilder.Register\<close>, for a builder of a group and version.\<close>

record 'w runtime =
  registerTypes :: "schema_GroupVersion \<Rightarrow> string list \<Rightarrow> 'w \<Rightarrow> unit \<times> 'w"
  addClientGoScheme :: "'w \<Rightarrow> goerror option \<times> 'w"
  addHAScheme :: "'w \<Rightarrow> goerror option \<times> 'w"
  getConfig :: "'w \<Rightarrow> goerror option \<times> 'w"
  newManager :: "ManagerOptions \<Rightarrow> 'w \<Rightarrow> goerror option \<times> 'w"
  completeController :: "'w \<Rightarrow> goerror option \<times> 'w"
  addHealthzCheck :: "'w \<Rightarrow> goerror option \<times> 'w"
  addReadyzCheck :: "'w \<Rightarrow> goerror option \<times> 'w"
  startManager :: "'w \<Rightarrow> goerror option \<times> 'w"

text \<open>The process: its metrics registry, and the reconciler's cache (\<open>None\<close> is nil).\<close>

record ('w, 'c) proc = "'w mem" +
  registry :: "Vec list"
  remoteClients :: "(string \<Rightarrow> 'c cachedClient option) option"

type_synonym ('w, 'c, 'a) boot = "(('w, 'c) proc, 'a) state"

text \<open>A call whose error ends the process: by a panic (\<open>utilruntime.Must\<close>), or by \<open>os.Exit(1)\<close>.\<close>

definition must :: "('w \<Rightarrow> goerror option \<times> 'w) \<Rightarrow> ('w, 'c, ending) boot \<Rightarrow> ('w, 'c, ending) boot" where
  "must step rest = do {
     e \<leftarrow> call step;
     case e of Some err \<Rightarrow> State_Monad.return (Panicked (err_text err)) | None \<Rightarrow> rest
   }"

definition or_exit :: "('w \<Rightarrow> goerror option \<times> 'w) \<Rightarrow> ('w, 'c, ending) boot \<Rightarrow> ('w, 'c, ending) boot" where
  "or_exit step rest = do {
     e \<leftarrow> call step;
     case e of Some _ \<Rightarrow> State_Monad.return (Exited 1) | None \<Rightarrow> rest
   }"

definition register_metrics :: "('w, 'c, ending) boot \<Rightarrow> ('w, 'c, ending) boot" where
  "register_metrics rest = do {
     s \<leftarrow> State_Monad.get;
     case MustRegister (registry s) of
       Ok reg \<Rightarrow> do { _ \<leftarrow> State_Monad.set (s\<lparr>registry := reg\<rparr>); rest }
     | Err e \<Rightarrow> State_Monad.return (Panicked (err_text e))
     | Panic m \<Rightarrow> State_Monad.return (Panicked m)
   }"

definition SetupWithManager :: "'w runtime \<Rightarrow> ('w, 'c, goerror option) boot" where
  "SetupWithManager B = do {
     s \<leftarrow> State_Monad.get;
     _ \<leftarrow> State_Monad.set (s\<lparr>remoteClients := (case remoteClients s of None \<Rightarrow> Some NewCache | Some c \<Rightarrow> Some c)\<rparr>);
     call (completeController B)
   }"

text \<open>The \<open>init\<close> functions of the API package and of \<open>main\<close>.\<close>

definition api_init :: "'w runtime \<Rightarrow> ('w, 'c, ending) boot \<Rightarrow> ('w, 'c, ending) boot" where
  "api_init B rest = do { _ \<leftarrow> call (registerTypes B SchemeGroupVersion registered_types); rest }"

definition main_init :: "'w runtime \<Rightarrow> ('w, 'c, ending) boot \<Rightarrow> ('w, 'c, ending) boot" where
  "main_init B rest = must (addClientGoScheme B) (must (addHAScheme B) rest)"

text \<open>\<open>main\<close> after the flags are parsed.\<close>

definition serve :: "'w runtime \<Rightarrow> Flags \<Rightarrow> ('w, 'c, ending) boot" where
  "serve B fl =
     or_exit (getConfig B)
       (or_exit (newManager B (manager_options fl))
         (register_metrics (do {
            e \<leftarrow> SetupWithManager B;
            case e of
              Some _ \<Rightarrow> State_Monad.return (Exited 1)
            | None \<Rightarrow>
                or_exit (addHealthzCheck B)
                  (or_exit (addReadyzCheck B)
                    (or_exit (startManager B) (State_Monad.return Returned)))
          })))"

definition main :: "'w runtime \<Rightarrow> 'z flaglib \<Rightarrow> string list \<Rightarrow> ('w, 'c, ending) boot" where
  "main B L args = api_init B (main_init B
     (case parse_command_line L args of Inl fin \<Rightarrow> State_Monad.return fin | Inr fl \<Rightarrow> serve B fl))"

section \<open>Traced start-up\<close>

datatype boot_event =
    RegisteredTypes schema_GroupVersion "string list"
  | AddedClientGo "goerror option"
  | AddedHA "goerror option"
  | GotConfig "goerror option"
  | MadeManager ManagerOptions "goerror option"
  | Completed "goerror option"
  | AddedHealthz "goerror option"
  | AddedReadyz "goerror option"
  | RanManager "goerror option"

definition boot_traced :: "'w runtime \<Rightarrow> ('w \<times> boot_event list) runtime" where
  "boot_traced B = \<lparr>registerTypes = (\<lambda>gv ts. tr (\<lambda>_. RegisteredTypes gv ts) (registerTypes B gv ts)),
     addClientGoScheme = tr AddedClientGo (addClientGoScheme B), addHAScheme = tr AddedHA (addHAScheme B),
     getConfig = tr GotConfig (getConfig B), newManager = (\<lambda>opts. tr (MadeManager opts) (newManager B opts)),
     completeController = tr Completed (completeController B), addHealthzCheck = tr AddedHealthz (addHealthzCheck B),
     addReadyzCheck = tr AddedReadyz (addReadyzCheck B), startManager = tr RanManager (startManager B)\<rparr>"

lemma boot_traced_simps [simp]:
  "registerTypes (boot_traced B) gv ts = tr (\<lambda>_. RegisteredTypes gv ts) (registerTypes B gv ts)"
  "addClientGoScheme (boot_traced B) = tr AddedClientGo (addClientGoScheme B)"
  "addHAScheme (boot_traced B) = tr AddedHA (addHAScheme B)"
  "getConfig (boot_traced B) = tr GotConfig (getConfig B)"
  "newManager (boot_traced B) o' = tr (MadeManager o') (newManager B o')"
  "completeController (boot_traced B) = tr Completed (completeController B)"
  "addHealthzCheck (boot_traced B) = tr AddedHealthz (addHealthzCheck B)"
  "addReadyzCheck (boot_traced B) = tr AddedReadyz (addReadyzCheck B)"
  "startManager (boot_traced B) = tr RanManager (startManager B)"
  by (simp_all add: boot_traced_def)

lemma run_tr: "tr ev f (world s) = (let r = f (fst (world s)) in (fst r, snd r, trace s @ [ev (fst r)]))"
  by (simp add: tr_def trace_def Let_def split: prod.splits)

lemma run_traced:
  "run_state (call (tr ev f)) s = (fst (f (fst (world s))),
     s\<lparr>world := (snd (f (fst (world s))), trace s @ [ev (fst (f (fst (world s))))])\<rparr>)"
  by (simp add: run_tr Let_def)

lemma MustRegister_empty: "\<exists>reg. MustRegister [] = Ok reg \<and> set reg = set collectors"
  by (simp add: MustRegister_def collectors_def vec_defs)

section \<open>The sequence of calls\<close>

text \<open>The calls that can end a start-up, in order.\<close>

definition boot_call :: "Flags \<Rightarrow> nat \<Rightarrow> goerror option \<Rightarrow> boot_event" where
  "boot_call fl i = [AddedClientGo, AddedHA, GotConfig, MadeManager (manager_options fl), Completed, AddedHealthz,
     AddedReadyz, RanManager] ! i"

definition boot_ending :: "nat \<Rightarrow> goerror option \<Rightarrow> ending" where
  "boot_ending n e = (case e of None \<Rightarrow> Returned | Some err \<Rightarrow> if n < 2 then Panicked (err_text err) else Exited 1)"

definition equipped :: "('w, 'c) proc \<Rightarrow> bool" where
  "equipped s \<longleftrightarrow> set (registry s) = set collectors \<and> remoteClients s \<noteq> None"

lemma equipped_world [simp]: "equipped (s\<lparr>world := w\<rparr>) = equipped s"
  by (simp add: equipped_def)

text \<open>From call \<open>i\<close> on, call \<open>n\<close> was the last one, with outcome \<open>e\<close>.\<close>

definition boots_from ::
  "Flags \<Rightarrow> nat \<Rightarrow> ('w \<times> boot_event list, 'c) proc \<Rightarrow> ending \<Rightarrow> ('w \<times> boot_event list, 'c) proc \<Rightarrow> bool" where
  "boots_from fl i s fin t \<longleftrightarrow> (\<exists>n e. i \<le> n \<and> n < 8 \<and>
     trace t = trace s @ map (\<lambda>j. boot_call fl j None) [i..<n] @ [boot_call fl n e] \<and>
     fin = boot_ending n e \<and> (e = None \<longrightarrow> n = 7) \<and> (4 \<le> n \<longrightarrow> equipped t))"

lemma boots_from_next:
  assumes "boots_from fl (Suc i) s' fin t" and "trace s' = trace s @ [boot_call fl i None]"
  shows "boots_from fl i s fin t"
proof -
  from assms(1) obtain n e where n: "Suc i \<le> n" "n < 8"
    "trace t = trace s' @ map (\<lambda>j. boot_call fl j None) [Suc i..<n] @ [boot_call fl n e]"
    "fin = boot_ending n e" "e = None \<longrightarrow> n = 7" "4 \<le> n \<longrightarrow> equipped t" by (auto simp: boots_from_def)
  have "[i..<n] = i # [Suc i..<n]" using n(1) by (simp add: upt_conv_Cons)
  with n assms(2) show ?thesis unfolding boots_from_def by (intro exI [of _ n] exI [of _ e]) auto
qed

lemma boots_from_stop:
  assumes "i < 8" and "trace t = trace s @ [boot_call fl i e]" and "fin = boot_ending i e"
    and "e = None \<longrightarrow> i = 7" and "4 \<le> i \<longrightarrow> equipped t"
  shows "boots_from fl i s fin t"
  unfolding boots_from_def using assms by (intro exI [of _ i] exI [of _ e]) simp

lemma trace_world [simp]: "trace (s\<lparr>world := (w, es)\<rparr>) = es"
  by (simp add: trace_def)

text \<open>One guarded call, and the last one. Calls leave registry and cache alone.\<close>

definition called :: "Flags \<Rightarrow> nat \<Rightarrow> ('w \<times> boot_event list, 'c) proc \<Rightarrow> ('w \<times> boot_event list, 'c) proc \<Rightarrow> bool" where
  "called fl i s s' \<longleftrightarrow> trace s' = trace s @ [boot_call fl i None] \<and> registry s' = registry s \<and> remoteClients s' = remoteClients s"

lemma guarded_step:
  assumes "run_state (do { e \<leftarrow> call (tr (boot_call fl i) f);
      case e of Some err \<Rightarrow> State_Monad.return (boot_ending i (Some err)) | None \<Rightarrow> rest }) s = (fin, t)"
    and "i < 8" and "4 \<le> i \<longrightarrow> equipped s"
    and "\<And>s'. called fl i s s' \<Longrightarrow> run_state rest s' = (fin, t) \<Longrightarrow> boots_from fl (Suc i) s' fin t"
  shows "boots_from fl i s fin t"
proof -
  obtain e w where f: "f (fst (world s)) = (e, w)" by fastforce
  show ?thesis
  proof (cases e)
    case None
    let ?s = "s\<lparr>world := (w, trace s @ [boot_call fl i None])\<rparr>"
    have "called fl i s ?s" by (simp add: called_def)
    moreover have "run_state rest ?s = (fin, t)" using assms(1) f None by (simp add: run_tr Let_def)
    ultimately have "boots_from fl (Suc i) ?s fin t" by (rule assms(4))
    then show ?thesis by (rule boots_from_next) simp
  next
    case (Some err)
    with assms(1) f have "fin = boot_ending i e" "t = s\<lparr>world := (w, trace s @ [boot_call fl i e])\<rparr>"
      by (simp_all add: run_tr Let_def)
    with assms(2,3) Some show ?thesis by (intro boots_from_stop [where e = e]) simp_all
  qed
qed

lemma or_exit_step:
  assumes "run_state (or_exit (tr (boot_call fl i) f) rest) s = (fin, t)" and "2 \<le> i" and "i < 8" and "4 \<le> i \<longrightarrow> equipped s"
    and "\<And>s'. called fl i s s' \<Longrightarrow> run_state rest s' = (fin, t) \<Longrightarrow> boots_from fl (Suc i) s' fin t"
  shows "boots_from fl i s fin t"
proof -
  have "or_exit (tr (boot_call fl i) f) rest = do { e \<leftarrow> call (tr (boot_call fl i) f);
      case e of Some err \<Rightarrow> State_Monad.return (boot_ending i (Some err)) | None \<Rightarrow> rest }"
    using assms(2) by (simp add: or_exit_def boot_ending_def cong: option.case_cong)
  from guarded_step [OF assms(1) [unfolded this] assms(3-5)] show ?thesis by blast
qed

lemma must_step:
  assumes "run_state (must (tr (boot_call fl i) f) rest) s = (fin, t)" and "i < 2"
    and "\<And>s'. called fl i s s' \<Longrightarrow> run_state rest s' = (fin, t) \<Longrightarrow> boots_from fl (Suc i) s' fin t"
  shows "boots_from fl i s fin t"
proof -
  have "must (tr (boot_call fl i) f) rest = do { e \<leftarrow> call (tr (boot_call fl i) f);
      case e of Some err \<Rightarrow> State_Monad.return (boot_ending i (Some err)) | None \<Rightarrow> rest }"
    using assms(2) by (simp add: must_def boot_ending_def cong: option.case_cong)
  from guarded_step [OF assms(1) [unfolded this]] assms(2,3) show ?thesis by simp
qed

lemma boot_last:
  assumes "run_state (or_exit (tr (boot_call fl 7) f) (State_Monad.return Returned)) s = (fin, t)" and "equipped s"
  shows "boots_from fl 7 s fin t"
proof -
  obtain e w where f: "f (fst (world s)) = (e, w)" by fastforce
  with assms have "fin = boot_ending 7 e" "t = s\<lparr>world := (w, trace s @ [boot_call fl 7 e])\<rparr>"
    by (auto simp: or_exit_def run_tr Let_def boot_ending_def split: option.splits)
  with assms(2) show ?thesis by (intro boots_from_stop [where e = e]) simp_all
qed

lemma called_equipped: "called fl i s s' \<Longrightarrow> equipped s \<Longrightarrow> equipped s'"
  by (simp add: called_def equipped_def)

lemma boot_checks:
  assumes "run_state (or_exit (tr (boot_call fl 5) f) (or_exit (tr (boot_call fl 6) g)
      (or_exit (tr (boot_call fl 7) k) (State_Monad.return Returned)))) s = (fin, t)" and "equipped s"
  shows "boots_from fl 5 s fin t"
proof (rule or_exit_step [OF assms(1)])
  fix s' assume "called fl 5 s s'"
    and run: "run_state (or_exit (tr (boot_call fl 6) g) (or_exit (tr (boot_call fl 7) k) (State_Monad.return Returned))) s' = (fin, t)"
  then have e: "equipped s'" using called_equipped assms(2) by blast
  have "boots_from fl 6 s' fin t"
    by (rule or_exit_step [OF run]) (use e called_equipped boot_last in \<open>fastforce+\<close>)
  then show "boots_from fl (Suc 5) s' fin t" by simp
qed (use assms(2) in simp_all)

lemma boot_calls:
  "AddedClientGo = boot_call fl 0" "AddedHA = boot_call fl 1" "GotConfig = boot_call fl 2"
  "MadeManager (manager_options fl) = boot_call fl 3" "Completed = boot_call fl 4" "AddedHealthz = boot_call fl 5"
  "AddedReadyz = boot_call fl 6" "RanManager = boot_call fl 7"
  by (simp_all add: boot_call_def)

lemma boot_setup:
  assumes "run_state (register_metrics (do {
      e \<leftarrow> SetupWithManager (boot_traced B);
      case e of Some _ \<Rightarrow> State_Monad.return (Exited 1)
      | None \<Rightarrow> or_exit (tr (boot_call fl 5) f) (or_exit (tr (boot_call fl 6) g)
          (or_exit (tr (boot_call fl 7) k) (State_Monad.return Returned))) })) s = (fin, t)"
    and "registry s = []"
  shows "boots_from fl 4 s fin t"
proof -
  obtain reg where reg: "MustRegister [] = Ok reg" "set reg = set collectors" using MustRegister_empty by blast
  let ?s = "s\<lparr>registry := reg, remoteClients := (case remoteClients s of None \<Rightarrow> Some NewCache | Some c \<Rightarrow> Some c)\<rparr>"
  have eq: "equipped ?s" using reg(2) by (simp add: equipped_def split: option.splits)
  have run: "run_state (or_exit (tr (boot_call fl 4) (completeController B)) (or_exit (tr (boot_call fl 5) f)
      (or_exit (tr (boot_call fl 6) g) (or_exit (tr (boot_call fl 7) k) (State_Monad.return Returned))))) ?s = (fin, t)"
    using assms reg(1) unfolding register_metrics_def SetupWithManager_def or_exit_def [of "tr (boot_call fl 4) _"]
      boot_traced_simps boot_calls(5) [of fl]
    by simp
  have "boots_from fl 4 ?s fin t"
  proof (rule or_exit_step [OF run])
    fix s' assume "called fl 4 ?s s'" and run': "run_state (or_exit (tr (boot_call fl 5) f)
      (or_exit (tr (boot_call fl 6) g) (or_exit (tr (boot_call fl 7) k) (State_Monad.return Returned)))) s' = (fin, t)"
    then have "equipped s'" using called_equipped eq by blast
    from boot_checks [OF run' this] show "boots_from fl (Suc 4) s' fin t" by simp
  qed (simp_all add: eq)
  then show ?thesis by (simp add: boots_from_def trace_def)
qed

lemma boot_serve:
  assumes "run_state (serve (boot_traced B) fl) s = (fin, t)" and "registry s = []"
  shows "boots_from fl 2 s fin t"
proof (rule or_exit_step [OF assms(1) [unfolded serve_def boot_traced_simps boot_calls [of fl]]])
  fix s' assume c: "called fl 2 s s'" and run: "run_state (or_exit (tr (boot_call fl 3) (newManager B (manager_options fl)))
    (register_metrics (do {
      e \<leftarrow> SetupWithManager (boot_traced B);
      case e of Some _ \<Rightarrow> State_Monad.return (Exited 1)
      | None \<Rightarrow> or_exit (tr (boot_call fl 5) (addHealthzCheck B)) (or_exit (tr (boot_call fl 6) (addReadyzCheck B))
          (or_exit (tr (boot_call fl 7) (startManager B)) (State_Monad.return Returned))) }))) s' = (fin, t)"
  have "boots_from fl 3 s' fin t"
    by (rule or_exit_step [OF run]) (use boot_setup c assms(2) in \<open>fastforce simp: called_def\<close>)+
  then show "boots_from fl (Suc 2) s' fin t" by simp
qed simp_all

lemma boot_main:
  assumes "parse_command_line L args = Inr fl" and "registry s = []"
    and "run_state (main (boot_traced B) L args) s = (fin, t)"
  shows "\<exists>s'. trace s' = trace s @ [RegisteredTypes SchemeGroupVersion registered_types] \<and> boots_from fl 0 s' fin t"
proof -
  obtain w where w: "registerTypes B SchemeGroupVersion registered_types (fst (world s)) = ((), w)"
    by (cases "registerTypes B SchemeGroupVersion registered_types (fst (world s))") simp
  let ?s = "s\<lparr>world := (w, trace s @ [RegisteredTypes SchemeGroupVersion registered_types])\<rparr>"
  have run: "run_state (must (tr (boot_call fl 0) (addClientGoScheme B)) (must (tr (boot_call fl 1) (addHAScheme B))
      (serve (boot_traced B) fl))) ?s = (fin, t)"
    using assms(1,3) w unfolding main_def api_init_def main_init_def boot_traced_simps boot_calls(1,2) [of fl]
    by (simp add: run_tr Let_def)
  have "boots_from fl 0 ?s fin t"
  proof (rule must_step [OF run])
    fix s' assume c: "called fl 0 ?s s'"
      and run': "run_state (must (tr (boot_call fl 1) (addHAScheme B)) (serve (boot_traced B) fl)) s' = (fin, t)"
    have "boots_from fl 1 s' fin t"
      by (rule must_step [OF run']) (use boot_serve c assms(2) in \<open>fastforce simp: called_def numeral_2_eq_2\<close>)+
    then show "boots_from fl (Suc 0) s' fin t" by simp
  qed simp
  then show ?thesis by (intro exI [of _ ?s]) simp
qed

section \<open>Properties\<close>



definition demo_runtime :: "unit runtime" where
  "demo_runtime = \<lparr>registerTypes = (\<lambda>_ _ w. ((), w)), addClientGoScheme = (\<lambda>w. (None, w)), addHAScheme = (\<lambda>w. (None, w)),
     getConfig = (\<lambda>w. (None, w)), newManager = (\<lambda>_ w. (None, w)),
     completeController = (\<lambda>w. (Some (Errorf ''no scheme''), w)),
     addHealthzCheck = (\<lambda>w. (None, w)), addReadyzCheck = (\<lambda>w. (None, w)), startManager = (\<lambda>w. (None, w))\<rparr>"

definition demo_proc :: "(unit \<times> boot_event list, nat) proc" where
  "demo_proc = \<lparr>world = ((), []), registry = [], remoteClients = None\<rparr>"

text \<open>Library flags as controller-runtime declares them: \<open>kubeconfig\<close>, and a boolean of zap.\<close>

definition demo_flaglib :: "(string \<times> bool) flaglib" where
  "demo_flaglib = \<lparr>initFlags = [(''kubeconfig'', StringVar apfst)], zapFlags = [(''zap-devel'', BoolVar apsnd)],
     libInit = ([], True)\<rparr>"

lemma demo_command_flags: "\<exists>fs. command_flags demo_flaglib = Ok fs \<and> map_of fs ''leader-election'' = None"
  by (simp add: command_flags_def demo_flaglib_def main_flags_def lib_flag_def declare_flag_def)

lemma demo_command_line: "parse_command_line demo_flaglib [''--leader-elect'', ''--kubeconfig'', ''/k''] =
    Inr (default_flags\<lparr>enableLeaderElection := True\<rparr>)"
  by code_simp


text \<open>The command line that sets the flags: only those that differ from their defaults.\<close>

definition flag_args :: "Flags \<Rightarrow> string list" where
  "flag_args fl =
     opt_arg ''metrics-bind-address'' ''0'' (metricsAddr fl) @
     opt_arg ''health-probe-bind-address'' '':8081'' (probeAddr fl) @
     opt_arg ''leader-elect'' (fmt_bool False) (fmt_bool (enableLeaderElection fl)) @
     opt_arg ''metrics-secure'' (fmt_bool True) (fmt_bool (secureMetrics fl)) @
     opt_arg ''webhook-cert-path'' [] (webhookCertPath fl) @
     opt_arg ''webhook-cert-name'' ''tls.crt'' (webhookCertName fl) @
     opt_arg ''webhook-cert-key'' ''tls.key'' (webhookCertKey fl) @
     opt_arg ''metrics-cert-path'' [] (metricsCertPath fl) @
     opt_arg ''metrics-cert-name'' ''tls.crt'' (metricsCertName fl) @
     opt_arg ''metrics-cert-key'' ''tls.key'' (metricsCertKey fl) @
     opt_arg ''enable-http2'' (fmt_bool False) (fmt_bool (enableHTTP2 fl))"

lemma command_flags_lookup:
  "command_flags L = Ok fs \<Longrightarrow> (n, f) \<in> set main_flags \<Longrightarrow> map_of fs n = Some f"
  unfolding command_flags_def by (erule declare_flags_lookup) simp

lemma command_flags_own:
  assumes "command_flags L = Ok fs"
  shows "map_of fs ''metrics-bind-address'' = Some (StringVar metricsAddr_update)"
    "map_of fs ''health-probe-bind-address'' = Some (StringVar probeAddr_update)"
    "map_of fs ''leader-elect'' = Some (BoolVar enableLeaderElection_update)"
    "map_of fs ''metrics-secure'' = Some (BoolVar secureMetrics_update)"
    "map_of fs ''webhook-cert-path'' = Some (StringVar webhookCertPath_update)"
    "map_of fs ''webhook-cert-name'' = Some (StringVar webhookCertName_update)"
    "map_of fs ''webhook-cert-key'' = Some (StringVar webhookCertKey_update)"
    "map_of fs ''metrics-cert-path'' = Some (StringVar metricsCertPath_update)"
    "map_of fs ''metrics-cert-name'' = Some (StringVar metricsCertName_update)"
    "map_of fs ''metrics-cert-key'' = Some (StringVar metricsCertKey_update)"
    "map_of fs ''enable-http2'' = Some (BoolVar enableHTTP2_update)"
  by (rule command_flags_lookup [OF assms]; simp add: main_flags_def)+

lemma plain_names [simp]:
  "plain_name ''metrics-bind-address''" "plain_name ''health-probe-bind-address''" "plain_name ''leader-elect''"
  "plain_name ''metrics-secure''" "plain_name ''webhook-cert-path''" "plain_name ''webhook-cert-name''"
  "plain_name ''webhook-cert-key''" "plain_name ''metrics-cert-path''" "plain_name ''metrics-cert-name''"
  "plain_name ''metrics-cert-key''" "plain_name ''enable-http2''"
  by (simp_all add: plain_name_def)

lemma Parse_flag_args:
  assumes "command_flags L = Ok fs"
  shows "Parse fs (flag_args fl @ args) (Flags.extend default_flags z) = Parse fs args (Flags.extend fl z)"
  unfolding flag_args_def append_assoc
  by (simp add: Parse_opt_string Parse_opt_bool command_flags_own [OF assms] Flags.defs default_flags_def)


lemma parse_command_line_Ok:
  assumes "command_flags L = Ok fs"
  shows "parse_command_line L (flag_args fl @ args) = (case Parse fs args (Flags.extend fl \<lparr>libvars = libInit L\<rparr>) of
      Parsed _ s \<Rightarrow> Inr (Flags.truncate s) | ParseFailed _ \<Rightarrow> Inl (Exited 2) | HelpWanted \<Rightarrow> Inl (Exited 0))"
  by (simp add: parse_command_line_def assms Parse_flag_args [OF assms])

text \<open>C31. Command lines round-trip: for any values of the flags, parsing the arguments that set those different from the
  defaults gives exactly these values back, whatever other flags the linked libraries declare, as long as all
  declarations are accepted; in particular the empty command line gives the defaults.\<close>

theorem command_line_roundtrip:
  assumes "command_flags L = Ok fs"
  shows "parse_command_line L (flag_args fl) = Inr fl"
  using parse_command_line_Ok [OF assms, of fl "[]"] by (simp add: Flags.defs)

theorem command_line_roundtrip_witness:
  "parse_command_line demo_flaglib (flag_args (default_flags\<lparr>metricsAddr := '':8443'', secureMetrics := False\<rparr>)) =
     Inr (default_flags\<lparr>metricsAddr := '':8443'', secureMetrics := False\<rparr>) \<and>
   flag_args (default_flags\<lparr>metricsAddr := '':8443'', secureMetrics := False\<rparr>) =
     [''--metrics-bind-address=:8443'', ''--metrics-secure=false'']"
proof -
  obtain fs where "command_flags demo_flaglib = Ok fs" using demo_command_flags by blast
  note rt = command_line_roundtrip [OF this]
  show ?thesis
    by (rule conjI [OF rt]) (simp add: flag_args_def default_flags_def opt_arg_def flag_arg_def fmt_bool_def)
qed

text \<open>A mistyped flag starts nothing: an undeclared flag anywhere among the flags ends the process with code 2, or with
  code 0 when it asks for help, after the scheme registrations and before the cluster configuration is read or a
  manager made.\<close>

lemma undeclared_flag_refused:
  assumes "command_flags L = Ok fs" and "plain_name n" and "map_of fs n = None"
    and "\<And>w. fst (addClientGoScheme B w) = None" and "\<And>w. fst (addHAScheme B w) = None" and "trace s = []"
    and "run_state (main (boot_traced B) L (flag_args fl @ flag_arg n v # rest)) s = (fin, t)"
  shows "fin = Exited (if n = ''help'' \<or> n = ''h'' then 0 else 2) \<and>
    trace t = [RegisteredTypes SchemeGroupVersion registered_types, AddedClientGo None, AddedHA None] \<and>
    registry t = registry s"
proof -
  have "hd (n @ CHR ''='' # v) \<noteq> CHR ''-''" "hd (n @ CHR ''='' # v) \<noteq> CHR ''=''"
    using assms(2) by (cases n; auto simp: plain_name_def)+
  then have "parseOne fs (flag_arg n v # rest) z = (if n = ''help'' \<or> n = ''h'' then HelpFlag
      else BadFlag (Errorf (''flag provided but not defined: -'' @ n)))" for z
    using assms(2,3) by (auto simp: parseOne_def parse_named_def flag_arg_def plain_name_def Let_def)
  then have "Parse fs (flag_arg n v # rest) z = (if n = ''help'' \<or> n = ''h'' then HelpWanted
      else ParseFailed (Errorf (''flag provided but not defined: -'' @ n)))" for z
    by (subst Parse.simps) simp
  then have "parse_command_line L (flag_args fl @ flag_arg n v # rest) = Inl (Exited (if n = ''help'' \<or> n = ''h'' then 0 else 2))"
    by (simp add: parse_command_line_Ok [OF assms(1)])
  note run = assms(7) [unfolded main_def this sum.case api_init_def main_init_def must_def boot_traced_simps]
  show ?thesis using run assms(4-6) by (auto simp: run_traced simp del: run_call)
qed

end
