(* ===== verification/Deep_Copy.thy ===== *)
theory Deep_Copy
  imports Api_Types
begin

text \<open>
  The deep copies of \<open>api/v1alpha1/zz_generated.deepcopy.go\<close>, over an explicit memory. The rest
  of the development treats an \<open>HACluster\<close> as a value; the program holds it behind pointers, and
  controller-runtime hands the reconcile a deep copy of an object that its informer cache goes on
  using. This theory gives every struct of the API package its memory layout, with nil or addresses for
  pointers, slices and maps, and translates the generated functions. The copy functions of Kubernetes
  types are parameters (\<open>copylib\<close>).
\<close>

section \<open>Memory\<close>

type_synonym addr = nat

text \<open>A slice is nil, or an array in memory with an offset and a length.\<close>

datatype slice = NilSlice | Slice addr nat nat

record SelectorMem =
  hsel_Name :: string
  hsel_Key :: string
  hsel_Optional :: "addr option"

record PostgresProbeMem =
  hpp_Endpoint :: string
  hpp_Port :: i32
  hpp_Database :: string
  hpp_SSLMode :: string
  hpp_UserSecretRef :: SelectorMem
  hpp_PasswordSecretRef :: SelectorMem

record PrimarySiteMem =
  hps_Name :: string
  hps_ClusterRef :: ClusterRef
  hps_ReplicationEndpoint :: string
  hps_PostgresProbe :: "addr option"

record ReplicaSiteMem =
  hrs_Name :: string
  hrs_KubeconfigSecretRef :: SelectorMem
  hrs_ClusterRef :: ClusterRef
  hrs_ReplicationEndpoint :: string
  hrs_PostgresProbe :: "addr option"

record HAClusterSpecMem =
  hs_Primary :: PrimarySiteMem
  hs_Replicas :: slice
  hs_Failover :: FailoverSpec

record SiteStatusMem =
  hss_Name :: string
  hss_Role :: string
  hss_Reachable :: bool
  hss_Ready :: bool
  hss_Phase :: string
  hss_Message :: string
  hss_LastObservedTime :: "addr option"
  hss_CurrentLSN :: string
  hss_ReplicationLagMilliseconds :: "addr option"

record HAClusterStatusMem =
  hst_CurrentPrimarySite :: string
  hst_LastFailoverTime :: "addr option"
  hst_ObservedGeneration :: i64
  hst_Sites :: slice
  hst_Conditions :: slice

text \<open>Object metadata reduced, as in \<^typ>\<open>HACluster\<close>, to what the operator uses; its
  annotations are a map in memory.\<close>

record TypeMeta =
  tm_Kind :: string
  tm_APIVersion :: string

record ObjectMetaMem =
  hom_Name :: string
  hom_Namespace :: string
  hom_ResourceVersion :: string
  hom_Generation :: i64
  hom_Annotations :: "addr option"

record ListMetaMem =
  hlm_ResourceVersion :: string
  hlm_Continue :: string
  hlm_RemainingItemCount :: "addr option"

record HAClusterMem =
  hha_TypeMeta :: TypeMeta
  hha_ObjectMeta :: ObjectMetaMem
  hha_Spec :: HAClusterSpecMem
  hha_Status :: HAClusterStatusMem

record HAClusterListMem =
  hl_TypeMeta :: TypeMeta
  hl_ListMeta :: ListMetaMem
  hl_Items :: slice

text \<open>One variable of the memory: the target of a pointer, the array of a slice, or a map.\<close>

datatype cell =
    CBool (as_bool: bool)
  | CInt64 (as_int64: i64)
  | CTime (as_time: time)
  | CMap (as_map: strmap)
  | CClusterRef (as_clusterref: ClusterRef)
  | CFailoverSpec (as_failover: FailoverSpec)
  | CPostgresProbe (as_probe: PostgresProbeMem)
  | CPrimarySite (as_primary: PrimarySiteMem)
  | CReplicaSite (as_replica: ReplicaSiteMem)
  | CSpec (as_spec: HAClusterSpecMem)
  | CSiteStatus (as_site: SiteStatusMem)
  | CStatus (as_status: HAClusterStatusMem)
  | CHACluster (as_ha: HAClusterMem)
  | CHAClusterList (as_halist: HAClusterListMem)
  | CReplicas (as_replicas: "ReplicaSiteMem list")
  | CSites (as_sites: "SiteStatusMem list")
  | CConditions (as_conditions: "Condition list")
  | CItems (as_items: "HAClusterMem list")

record heap =
  cells :: "addr \<Rightarrow> cell option"
  lim :: addr

definition heap_ok :: "heap \<Rightarrow> bool" where
  "heap_ok h \<longleftrightarrow> (\<forall>a \<ge> lim h. cells h a = None)"

definition alloc :: "cell \<Rightarrow> (heap, addr) state" where
  "alloc c = State (\<lambda>h. (lim h, h\<lparr>cells := (cells h)(lim h \<mapsto> c), lim := Suc (lim h)\<rparr>))"

definition store :: "addr \<Rightarrow> cell \<Rightarrow> (heap, unit) state" where
  "store a c = State (\<lambda>h. ((), h\<lparr>cells := (cells h)(a \<mapsto> c)\<rparr>))"

text \<open>A kind of variable: how its contents are put into a cell, and read back from one.\<close>

type_synonym 'a kind = "('a \<Rightarrow> cell) \<times> (cell \<Rightarrow> bool) \<times> (cell \<Rightarrow> 'a)"

definition peek :: "'a kind \<Rightarrow> heap \<Rightarrow> addr \<Rightarrow> 'a option" where
  "peek k h a = (case k of (put, tst, get) \<Rightarrow>
     (case cells h a of None \<Rightarrow> None | Some c \<Rightarrow> if tst c then Some (get c) else None))"

text \<open>
  Dereferencing. Go is memory safe, so an address of a type holds a variable of that type; the zero
  value returned otherwise is never used below a defined view.
\<close>

definition deref :: "'a kind \<Rightarrow> 'a \<Rightarrow> addr \<Rightarrow> (heap, 'a) state" where
  "deref k zero a = State (\<lambda>h. (case peek k h a of Some x \<Rightarrow> x | None \<Rightarrow> zero, h))"

definition good_kind :: "'a kind \<Rightarrow> bool" where
  "good_kind k = (case k of (put, tst, get) \<Rightarrow> \<forall>x. tst (put x) \<and> get (put x) = x)"

definition k_bool :: "bool kind" where [simp]: "k_bool = (CBool, is_CBool, as_bool)"
definition k_int64 :: "i64 kind" where [simp]: "k_int64 = (CInt64, is_CInt64, as_int64)"
definition k_time :: "time kind" where [simp]: "k_time = (CTime, is_CTime, as_time)"
definition k_map :: "strmap kind" where [simp]: "k_map = (CMap, is_CMap, as_map)"
definition k_clusterref :: "ClusterRef kind" where [simp]: "k_clusterref = (CClusterRef, is_CClusterRef, as_clusterref)"
definition k_failover :: "FailoverSpec kind" where [simp]: "k_failover = (CFailoverSpec, is_CFailoverSpec, as_failover)"
definition k_probe :: "PostgresProbeMem kind" where [simp]: "k_probe = (CPostgresProbe, is_CPostgresProbe, as_probe)"
definition k_primary :: "PrimarySiteMem kind" where [simp]: "k_primary = (CPrimarySite, is_CPrimarySite, as_primary)"
definition k_replica :: "ReplicaSiteMem kind" where [simp]: "k_replica = (CReplicaSite, is_CReplicaSite, as_replica)"
definition k_spec :: "HAClusterSpecMem kind" where [simp]: "k_spec = (CSpec, is_CSpec, as_spec)"
definition k_site :: "SiteStatusMem kind" where [simp]: "k_site = (CSiteStatus, is_CSiteStatus, as_site)"
definition k_status :: "HAClusterStatusMem kind" where [simp]: "k_status = (CStatus, is_CStatus, as_status)"
definition k_ha :: "HAClusterMem kind" where [simp]: "k_ha = (CHACluster, is_CHACluster, as_ha)"
definition k_halist :: "HAClusterListMem kind" where [simp]: "k_halist = (CHAClusterList, is_CHAClusterList, as_halist)"
definition k_replicas :: "ReplicaSiteMem list kind" where [simp]: "k_replicas = (CReplicas, is_CReplicas, as_replicas)"
definition k_sites :: "SiteStatusMem list kind" where [simp]: "k_sites = (CSites, is_CSites, as_sites)"
definition k_conditions :: "Condition list kind" where [simp]: "k_conditions = (CConditions, is_CConditions, as_conditions)"
definition k_items :: "HAClusterMem list kind" where [simp]: "k_items = (CItems, is_CItems, as_items)"

lemma good_kinds:
  "good_kind k_bool" "good_kind k_int64" "good_kind k_time" "good_kind k_map" "good_kind k_clusterref"
  "good_kind k_failover" "good_kind k_probe" "good_kind k_primary" "good_kind k_replica" "good_kind k_spec"
  "good_kind k_site" "good_kind k_status" "good_kind k_ha" "good_kind k_halist" "good_kind k_replicas"
  "good_kind k_sites" "good_kind k_conditions" "good_kind k_items"
  by (simp_all add: good_kind_def)

section \<open>Pointers and slices\<close>

text \<open>\<open>new(T)\<close> followed by \<open>DeepCopyInto\<close>: \<open>into\<close> computes the contents of \<open>*out\<close>
  from those of \<open>*in\<close>.\<close>

definition new_copy :: "'a kind \<Rightarrow> 'a \<Rightarrow> ('a \<Rightarrow> (heap, 'a) state) \<Rightarrow> addr \<Rightarrow> (heap, addr) state" where
  "new_copy k zero into a = do {
     b \<leftarrow> alloc (fst k zero);
     x \<leftarrow> deref k zero a;
     y \<leftarrow> into x;
     _ \<leftarrow> store b (fst k y);
     State_Monad.return b
   }"

text \<open>A pointer field, and a \<open>DeepCopy\<close> method: nil stays nil.\<close>

definition ptr_copy :: "'a kind \<Rightarrow> 'a \<Rightarrow> ('a \<Rightarrow> (heap, 'a) state) \<Rightarrow> addr option \<Rightarrow> (heap, addr option) state" where
  "ptr_copy k zero into p = (case p of
     None \<Rightarrow> State_Monad.return None
   | Some a \<Rightarrow> do { b \<leftarrow> new_copy k zero into a; State_Monad.return (Some b) })"

text \<open>The loop \<open>for i := range *in { (*in)[i].DeepCopyInto(&(*out)[i]) }\<close>.\<close>

fun copy_elems ::
  "'a list kind \<Rightarrow> ('a \<Rightarrow> (heap, 'a) state) \<Rightarrow> addr \<Rightarrow> nat \<Rightarrow> addr \<Rightarrow> nat list \<Rightarrow> (heap, unit) state" where
  "copy_elems k into a off b [] = State_Monad.return ()"
| "copy_elems k into a off b (i # is) = do {
     xs \<leftarrow> deref k [] a;
     y \<leftarrow> into (xs ! (off + i));
     ys \<leftarrow> deref k [] b;
     _ \<leftarrow> store b (fst k (ys[i := y]));
     copy_elems k into a off b is
   }"

definition slice_copy :: "'a list kind \<Rightarrow> 'a \<Rightarrow> ('a \<Rightarrow> (heap, 'a) state) \<Rightarrow> slice \<Rightarrow> (heap, slice) state" where
  "slice_copy k zero into sl = (case sl of
     NilSlice \<Rightarrow> State_Monad.return NilSlice
   | Slice a off n \<Rightarrow> do {
       b \<leftarrow> alloc (fst k (replicate n zero));
       _ \<leftarrow> copy_elems k into a off b [0..<n];
       State_Monad.return (Slice b 0 n)
     })"


section \<open>The generated functions\<close>

text \<open>The copy functions of the Kubernetes types the structs embed.\<close>

record copylib =
  selectorInto :: "SelectorMem \<Rightarrow> (heap, SelectorMem) state"
  objectMetaInto :: "ObjectMetaMem \<Rightarrow> (heap, ObjectMetaMem) state"
  listMetaInto :: "ListMetaMem \<Rightarrow> (heap, ListMetaMem) state"
  conditionInto :: "Condition \<Rightarrow> (heap, Condition) state"
  timeDeepCopy :: "addr option \<Rightarrow> (heap, addr option) state"

text \<open>The zero values \<open>new\<close> and \<open>make\<close> fill fresh variables with.\<close>

definition zero_ClusterRef :: ClusterRef where "zero_ClusterRef = \<lparr>cr_Name = [], cr_Namespace = []\<rparr>"

definition zero_FailoverSpec :: FailoverSpec where
  "zero_FailoverSpec = \<lparr>fo_Mode = [], fo_HealthCheckIntervalSeconds = 0, fo_FailureThreshold = 0,
     fo_PromotionPolicy = [], fo_RejoinPolicy = []\<rparr>"

definition zero_selector :: SelectorMem where
  "zero_selector = \<lparr>hsel_Name = [], hsel_Key = [], hsel_Optional = None\<rparr>"

definition zero_PostgresProbe :: PostgresProbeMem where
  "zero_PostgresProbe = \<lparr>hpp_Endpoint = [], hpp_Port = 0, hpp_Database = [], hpp_SSLMode = [],
     hpp_UserSecretRef = zero_selector, hpp_PasswordSecretRef = zero_selector\<rparr>"

definition zero_PrimarySite :: PrimarySiteMem where
  "zero_PrimarySite = \<lparr>hps_Name = [], hps_ClusterRef = zero_ClusterRef, hps_ReplicationEndpoint = [],
     hps_PostgresProbe = None\<rparr>"

definition zero_ReplicaSite :: ReplicaSiteMem where
  "zero_ReplicaSite = \<lparr>hrs_Name = [], hrs_KubeconfigSecretRef = zero_selector, hrs_ClusterRef = zero_ClusterRef,
     hrs_ReplicationEndpoint = [], hrs_PostgresProbe = None\<rparr>"

definition zero_HAClusterSpec :: HAClusterSpecMem where
  "zero_HAClusterSpec = \<lparr>hs_Primary = zero_PrimarySite, hs_Replicas = NilSlice, hs_Failover = zero_FailoverSpec\<rparr>"

definition zero_SiteStatus :: SiteStatusMem where
  "zero_SiteStatus = \<lparr>hss_Name = [], hss_Role = [], hss_Reachable = False, hss_Ready = False, hss_Phase = [],
     hss_Message = [], hss_LastObservedTime = None, hss_CurrentLSN = [], hss_ReplicationLagMilliseconds = None\<rparr>"

definition zero_Condition :: Condition where
  "zero_Condition = \<lparr>cond_Type = [], cond_Status = [], cond_ObservedGeneration = 0, cond_LastTransitionTime = 0,
     cond_Reason = [], cond_Message = []\<rparr>"

definition zero_HAClusterStatus :: HAClusterStatusMem where
  "zero_HAClusterStatus = \<lparr>hst_CurrentPrimarySite = [], hst_LastFailoverTime = None, hst_ObservedGeneration = 0,
     hst_Sites = NilSlice, hst_Conditions = NilSlice\<rparr>"

definition zero_HACluster :: HAClusterMem where
  "zero_HACluster = \<lparr>hha_TypeMeta = \<lparr>tm_Kind = [], tm_APIVersion = []\<rparr>,
     hha_ObjectMeta = \<lparr>hom_Name = [], hom_Namespace = [], hom_ResourceVersion = [], hom_Generation = 0, hom_Annotations = None\<rparr>,
     hha_Spec = zero_HAClusterSpec, hha_Status = zero_HAClusterStatus\<rparr>"

definition zero_HAClusterList :: HAClusterListMem where
  "zero_HAClusterList = \<lparr>hl_TypeMeta = \<lparr>tm_Kind = [], tm_APIVersion = []\<rparr>,
     hl_ListMeta = \<lparr>hlm_ResourceVersion = [], hlm_Continue = [], hlm_RemainingItemCount = None\<rparr>, hl_Items = NilSlice\<rparr>"

text \<open>
  \<open>in.DeepCopyInto(out)\<close> as a function from the contents of \<open>*in\<close> to the final contents
  of \<open>*out\<close>: first \<open>*out = *in\<close>, then the fields that refer to memory are replaced by copies, in
  the order of the source.
\<close>

definition ClusterRef_DeepCopyInto :: "ClusterRef \<Rightarrow> (heap, ClusterRef) state" where
  "ClusterRef_DeepCopyInto i = State_Monad.return i"

definition ClusterRef_DeepCopy :: "addr option \<Rightarrow> (heap, addr option) state" where
  "ClusterRef_DeepCopy = ptr_copy k_clusterref zero_ClusterRef ClusterRef_DeepCopyInto"

definition FailoverSpec_DeepCopyInto :: "FailoverSpec \<Rightarrow> (heap, FailoverSpec) state" where
  "FailoverSpec_DeepCopyInto i = State_Monad.return i"

definition FailoverSpec_DeepCopy :: "addr option \<Rightarrow> (heap, addr option) state" where
  "FailoverSpec_DeepCopy = ptr_copy k_failover zero_FailoverSpec FailoverSpec_DeepCopyInto"

definition PostgresProbe_DeepCopyInto :: "copylib \<Rightarrow> PostgresProbeMem \<Rightarrow> (heap, PostgresProbeMem) state" where
  "PostgresProbe_DeepCopyInto L i = do {
     user \<leftarrow> selectorInto L (hpp_UserSecretRef i);
     password \<leftarrow> selectorInto L (hpp_PasswordSecretRef i);
     State_Monad.return (i\<lparr>hpp_UserSecretRef := user, hpp_PasswordSecretRef := password\<rparr>)
   }"

definition PostgresProbe_DeepCopy :: "copylib \<Rightarrow> addr option \<Rightarrow> (heap, addr option) state" where
  "PostgresProbe_DeepCopy L = ptr_copy k_probe zero_PostgresProbe (PostgresProbe_DeepCopyInto L)"

definition PrimarySite_DeepCopyInto :: "copylib \<Rightarrow> PrimarySiteMem \<Rightarrow> (heap, PrimarySiteMem) state" where
  "PrimarySite_DeepCopyInto L i = do {
     probe \<leftarrow> ptr_copy k_probe zero_PostgresProbe (PostgresProbe_DeepCopyInto L) (hps_PostgresProbe i);
     State_Monad.return (i\<lparr>hps_PostgresProbe := probe\<rparr>)
   }"

definition PrimarySite_DeepCopy :: "copylib \<Rightarrow> addr option \<Rightarrow> (heap, addr option) state" where
  "PrimarySite_DeepCopy L = ptr_copy k_primary zero_PrimarySite (PrimarySite_DeepCopyInto L)"

definition ReplicaSite_DeepCopyInto :: "copylib \<Rightarrow> ReplicaSiteMem \<Rightarrow> (heap, ReplicaSiteMem) state" where
  "ReplicaSite_DeepCopyInto L i = do {
     sel \<leftarrow> selectorInto L (hrs_KubeconfigSecretRef i);
     probe \<leftarrow> ptr_copy k_probe zero_PostgresProbe (PostgresProbe_DeepCopyInto L) (hrs_PostgresProbe i);
     State_Monad.return (i\<lparr>hrs_KubeconfigSecretRef := sel, hrs_PostgresProbe := probe\<rparr>)
   }"

definition ReplicaSite_DeepCopy :: "copylib \<Rightarrow> addr option \<Rightarrow> (heap, addr option) state" where
  "ReplicaSite_DeepCopy L = ptr_copy k_replica zero_ReplicaSite (ReplicaSite_DeepCopyInto L)"

definition HAClusterSpec_DeepCopyInto :: "copylib \<Rightarrow> HAClusterSpecMem \<Rightarrow> (heap, HAClusterSpecMem) state" where
  "HAClusterSpec_DeepCopyInto L i = do {
     primary \<leftarrow> PrimarySite_DeepCopyInto L (hs_Primary i);
     replicas \<leftarrow> slice_copy k_replicas zero_ReplicaSite (ReplicaSite_DeepCopyInto L) (hs_Replicas i);
     State_Monad.return (i\<lparr>hs_Primary := primary, hs_Replicas := replicas\<rparr>)
   }"

definition HAClusterSpec_DeepCopy :: "copylib \<Rightarrow> addr option \<Rightarrow> (heap, addr option) state" where
  "HAClusterSpec_DeepCopy L = ptr_copy k_spec zero_HAClusterSpec (HAClusterSpec_DeepCopyInto L)"

text \<open>A time field: \<open>if in.T != nil { *out = (*in).DeepCopy() }\<close>.\<close>

definition time_field :: "copylib \<Rightarrow> addr option \<Rightarrow> (heap, addr option) state" where
  "time_field L p = (case p of None \<Rightarrow> State_Monad.return None | Some a \<Rightarrow> timeDeepCopy L (Some a))"

definition SiteStatus_DeepCopyInto :: "copylib \<Rightarrow> SiteStatusMem \<Rightarrow> (heap, SiteStatusMem) state" where
  "SiteStatus_DeepCopyInto L i = do {
     observed \<leftarrow> time_field L (hss_LastObservedTime i);
     lag \<leftarrow> ptr_copy k_int64 0 State_Monad.return (hss_ReplicationLagMilliseconds i);
     State_Monad.return (i\<lparr>hss_LastObservedTime := observed, hss_ReplicationLagMilliseconds := lag\<rparr>)
   }"

definition SiteStatus_DeepCopy :: "copylib \<Rightarrow> addr option \<Rightarrow> (heap, addr option) state" where
  "SiteStatus_DeepCopy L = ptr_copy k_site zero_SiteStatus (SiteStatus_DeepCopyInto L)"

definition HAClusterStatus_DeepCopyInto :: "copylib \<Rightarrow> HAClusterStatusMem \<Rightarrow> (heap, HAClusterStatusMem) state" where
  "HAClusterStatus_DeepCopyInto L i = do {
     failover \<leftarrow> time_field L (hst_LastFailoverTime i);
     sites \<leftarrow> slice_copy k_sites zero_SiteStatus (SiteStatus_DeepCopyInto L) (hst_Sites i);
     conditions \<leftarrow> slice_copy k_conditions zero_Condition (conditionInto L) (hst_Conditions i);
     State_Monad.return (i\<lparr>hst_LastFailoverTime := failover, hst_Sites := sites, hst_Conditions := conditions\<rparr>)
   }"

definition HAClusterStatus_DeepCopy :: "copylib \<Rightarrow> addr option \<Rightarrow> (heap, addr option) state" where
  "HAClusterStatus_DeepCopy L = ptr_copy k_status zero_HAClusterStatus (HAClusterStatus_DeepCopyInto L)"

definition HACluster_DeepCopyInto :: "copylib \<Rightarrow> HAClusterMem \<Rightarrow> (heap, HAClusterMem) state" where
  "HACluster_DeepCopyInto L i = do {
     om \<leftarrow> objectMetaInto L (hha_ObjectMeta i);
     spec \<leftarrow> HAClusterSpec_DeepCopyInto L (hha_Spec i);
     status \<leftarrow> HAClusterStatus_DeepCopyInto L (hha_Status i);
     State_Monad.return (i\<lparr>hha_ObjectMeta := om, hha_Spec := spec, hha_Status := status\<rparr>)
   }"

definition HACluster_DeepCopy :: "copylib \<Rightarrow> addr option \<Rightarrow> (heap, addr option) state" where
  "HACluster_DeepCopy L = ptr_copy k_ha zero_HACluster (HACluster_DeepCopyInto L)"

definition HAClusterList_DeepCopyInto :: "copylib \<Rightarrow> HAClusterListMem \<Rightarrow> (heap, HAClusterListMem) state" where
  "HAClusterList_DeepCopyInto L i = do {
     lm \<leftarrow> listMetaInto L (hl_ListMeta i);
     items \<leftarrow> slice_copy k_items zero_HACluster (HACluster_DeepCopyInto L) (hl_Items i);
     State_Monad.return (i\<lparr>hl_ListMeta := lm, hl_Items := items\<rparr>)
   }"

definition HAClusterList_DeepCopy :: "copylib \<Rightarrow> addr option \<Rightarrow> (heap, addr option) state" where
  "HAClusterList_DeepCopy L = ptr_copy k_halist zero_HAClusterList (HAClusterList_DeepCopyInto L)"

text \<open>An interface value \<open>runtime.Object\<close>: nil, or a dynamic type with a pointer that may itself be nil.\<close>

datatype runtime_Object = NilObject | HAClusterObject "addr option" | HAClusterListObject "addr option"

definition HACluster_DeepCopyObject :: "copylib \<Rightarrow> addr option \<Rightarrow> (heap, runtime_Object) state" where
  "HACluster_DeepCopyObject L p = do {
     c \<leftarrow> HACluster_DeepCopy L p;
     State_Monad.return (if c \<noteq> None then HAClusterObject c else NilObject)
   }"

definition HAClusterList_DeepCopyObject :: "copylib \<Rightarrow> addr option \<Rightarrow> (heap, runtime_Object) state" where
  "HAClusterList_DeepCopyObject L p = do {
     c \<leftarrow> HAClusterList_DeepCopy L p;
     State_Monad.return (if c \<noteq> None then HAClusterListObject c else NilObject)
   }"

end
