(* ===== verification/Deep_Copy_Properties.thy ===== *)
theory Deep_Copy_Properties
  imports Deep_Copy
begin

text \<open>
  A generated copy denotes the same value as the original and shares no memory with it. The locale
  \<open>deep_copier\<close> is the contract of one copy function; pointers, slices and structs are composed from
  it. The locale \<open>copy_library\<close> assumes it of the copy functions of the Kubernetes types and
  derives it for every generated one.
\<close>

section \<open>The contract of a deep copy\<close>

definition extends :: "heap \<Rightarrow> heap \<Rightarrow> bool" where
  "extends h h' \<longleftrightarrow> heap_ok h' \<and> lim h \<le> lim h' \<and> (\<forall>a < lim h. cells h' a = cells h a)"

text \<open>
  \<open>view h x\<close> is the value \<open>x\<close> denotes in memory \<open>h\<close> (undefined when something it refers
  to is missing or of another type), \<open>foot h x\<close> the addresses the value depends on. A copier
  changes no existing variable and returns something that denotes the same value on new variables only.
\<close>

locale deep_copier =
  fixes copy :: "'a \<Rightarrow> (heap, 'a) state" and view :: "heap \<Rightarrow> 'a \<Rightarrow> 'v option" and foot :: "heap \<Rightarrow> 'a \<Rightarrow> addr set"
  assumes copies: "heap_ok h \<Longrightarrow> view h x = Some v \<Longrightarrow> run_state (copy x) h = (y, h') \<Longrightarrow>
      extends h h' \<and> view h' y = Some v \<and> foot h' y \<subseteq> {lim h..<lim h'}"
    and frame: "view h x = Some v \<Longrightarrow> (\<And>a. a \<in> foot h x \<Longrightarrow> cells h' a = cells h a) \<Longrightarrow>
      view h' x = Some v \<and> foot h' x = foot h x"
    and inside: "heap_ok h \<Longrightarrow> view h x = Some v \<Longrightarrow> foot h x \<subseteq> {..<lim h}"
begin

lemma later:
  assumes "heap_ok h" and "view h x = Some v" and "extends h h'"
  shows "view h' x = Some v \<and> foot h' x = foot h x"
  using frame [OF assms(2), of h'] inside [OF assms(1,2)] assms(3) by (auto simp: extends_def)

text \<open>Writing only to what the original can reach leaves the copy alone, and the other way round.\<close>

lemma independent:
  assumes "heap_ok h" and "view h x = Some v" and "run_state (copy x) h = (y, h')"
  shows "view h' x = Some v \<and> view h' y = Some v \<and> foot h' x \<inter> foot h' y = {} \<and>
    (\<forall>g. (\<forall>a. a \<notin> foot h' x \<longrightarrow> cells g a = cells h' a) \<longrightarrow> view g y = Some v) \<and>
    (\<forall>g. (\<forall>a. a \<notin> foot h' y \<longrightarrow> cells g a = cells h' a) \<longrightarrow> view g x = Some v)"
proof -
  note c = copies [OF assms]
  note l = later [OF assms(1,2)]
  have d: "foot h' x \<inter> foot h' y = {}" using c l inside [OF assms(1,2)] by fastforce
  moreover have "view g y = Some v" if "\<forall>a. a \<notin> foot h' x \<longrightarrow> cells g a = cells h' a" for g
    using frame [of h' y v g] c d that by (metis disjoint_iff)
  moreover have "view g x = Some v" if "\<forall>a. a \<notin> foot h' y \<longrightarrow> cells g a = cells h' a" for g
    using frame [of h' x v g] c l d that by (metis disjoint_iff)
  ultimately show ?thesis using c l by blast
qed

end

lemma extends_refl: "heap_ok h \<Longrightarrow> extends h h"
  by (simp add: extends_def)

lemma extends_trans: "extends h g \<Longrightarrow> extends g k \<Longrightarrow> extends h k"
  by (auto simp: extends_def)

lemma extends_ok: "extends h g \<Longrightarrow> heap_ok g"
  by (simp add: extends_def)

text \<open>A type without pointers is copied by assignment.\<close>

lemma flat_copier: "deep_copier State_Monad.return (\<lambda>h x. Some (f x)) (\<lambda>h x. {})"
  by unfold_locales (auto simp: extends_refl)

text \<open>Two copies in a row.\<close>

definition pair_copy :: "('a \<Rightarrow> (heap, 'a) state) \<Rightarrow> ('b \<Rightarrow> (heap, 'b) state) \<Rightarrow> 'a \<times> 'b \<Rightarrow> (heap, 'a \<times> 'b) state" where
  "pair_copy c1 c2 p = do { x \<leftarrow> c1 (fst p); y \<leftarrow> c2 (snd p); State_Monad.return (x, y) }"

definition pair_view :: "(heap \<Rightarrow> 'a \<Rightarrow> 'v option) \<Rightarrow> (heap \<Rightarrow> 'b \<Rightarrow> 'w option) \<Rightarrow> heap \<Rightarrow> 'a \<times> 'b \<Rightarrow> ('v \<times> 'w) option" where
  "pair_view v1 v2 h p = (case v1 h (fst p) of None \<Rightarrow> None
     | Some v \<Rightarrow> (case v2 h (snd p) of None \<Rightarrow> None | Some w \<Rightarrow> Some (v, w)))"

lemma pair_copier:
  assumes "deep_copier c1 v1 f1" and "deep_copier c2 v2 f2"
  shows "deep_copier (pair_copy c1 c2) (pair_view v1 v2) (\<lambda>h p. f1 h (fst p) \<union> f2 h (snd p))"
proof unfold_locales
  fix h h' :: heap and p q v
  assume h: "heap_ok h" and "pair_view v1 v2 h p = Some v" and "run_state (pair_copy c1 c2 p) h = (q, h')"
  then obtain x y g a b where v: "v1 h (fst p) = Some a" "v2 h (snd p) = Some b" "v = (a, b)"
    and r: "run_state (c1 (fst p)) h = (x, g)" "run_state (c2 (snd p)) g = (y, h')" "q = (x, y)"
    by (auto simp: pair_view_def pair_copy_def split: option.splits prod.splits)
  note one = deep_copier.copies [OF assms(1) h v(1) r(1)]
  have g: "heap_ok g" using one by (auto simp: extends_def)
  have "v2 g (snd p) = Some b" using deep_copier.later [OF assms(2) h v(2)] one by blast
  note two = deep_copier.copies [OF assms(2) g this r(2)]
  have "v1 h' x = Some a \<and> f1 h' x = f1 g x" using deep_copier.later [OF assms(1) g] one two by blast
  then show "extends h h' \<and> pair_view v1 v2 h' q = Some v \<and> f1 h' (fst q) \<union> f2 h' (snd q) \<subseteq> {lim h..<lim h'}"
    using one two v(3) r(3) by (auto simp: pair_view_def extends_def)
next
  fix h h' :: heap and p v
  assume "pair_view v1 v2 h p = Some v" and s: "\<And>a. a \<in> f1 h (fst p) \<union> f2 h (snd p) \<Longrightarrow> cells h' a = cells h a"
  then show "pair_view v1 v2 h' p = Some v \<and> f1 h' (fst p) \<union> f2 h' (snd p) = f1 h (fst p) \<union> f2 h (snd p)"
    using deep_copier.frame [OF assms(1), of h "fst p" _ h'] deep_copier.frame [OF assms(2), of h "snd p" _ h']
    by (auto simp: pair_view_def split: option.splits)
next
  fix h :: heap and p v
  assume "heap_ok h" "pair_view v1 v2 h p = Some v"
  then show "f1 h (fst p) \<union> f2 h (snd p) \<subseteq> {..<lim h}"
    using deep_copier.inside [OF assms(1)] deep_copier.inside [OF assms(2)]
    by (fastforce simp: pair_view_def split: option.splits)
qed

text \<open>A struct whose referring fields are \<open>proj\<close>: assign everything, then replace these.\<close>

lemma struct_copier:
  assumes "deep_copier c v f" and "\<And>b x. proj (upd b x) = b" and "\<And>b x. mk (upd b x) = mk x"
  shows "deep_copier (\<lambda>x. do { b \<leftarrow> c (proj x); State_Monad.return (upd b x) })
    (\<lambda>h x. map_option (mk x) (v h (proj x))) (\<lambda>h x. f h (proj x))"
proof unfold_locales
  fix h h' :: heap and x y w
  assume h: "heap_ok h" and "map_option (mk x) (v h (proj x)) = Some w"
    and "run_state (do { b \<leftarrow> c (proj x); State_Monad.return (upd b x) }) h = (y, h')"
  then obtain b u where r: "run_state (c (proj x)) h = (b, h')" "y = upd b x"
    and u: "v h (proj x) = Some u" "w = mk x u"
    by (auto split: prod.splits)
  show "extends h h' \<and> map_option (mk y) (v h' (proj y)) = Some w \<and> f h' (proj y) \<subseteq> {lim h..<lim h'}"
    using deep_copier.copies [OF assms(1) h u(1) r(1)] by (simp add: assms(2,3) r(2) u(2))
next
  fix h h' :: heap and x w
  assume "map_option (mk x) (v h (proj x)) = Some w" "\<And>a. a \<in> f h (proj x) \<Longrightarrow> cells h' a = cells h a"
  then show "map_option (mk x) (v h' (proj x)) = Some w \<and> f h' (proj x) = f h (proj x)"
    using deep_copier.frame [OF assms(1), of h "proj x" _ h'] by auto
next
  fix h :: heap and x w
  assume "heap_ok h" "map_option (mk x) (v h (proj x)) = Some w"
  then show "f h (proj x) \<subseteq> {..<lim h}" using deep_copier.inside [OF assms(1), of h "proj x"] by auto
qed


lemma struct_copier2:
  assumes "deep_copier c1 v1 f1" and "deep_copier c2 v2 f2"
    and "\<And>a b x. p1 (upd a b x) = a" and "\<And>a b x. p2 (upd a b x) = b" and "\<And>a b x. mk (upd a b x) = mk x"
  shows "deep_copier (\<lambda>x. do { a \<leftarrow> c1 (p1 x); b \<leftarrow> c2 (p2 x); State_Monad.return (upd a b x) })
    (\<lambda>h x. map_option (mk x) (pair_view v1 v2 h (p1 x, p2 x))) (\<lambda>h x. f1 h (p1 x) \<union> f2 h (p2 x))"
proof -
  have "deep_copier (\<lambda>x. do { b \<leftarrow> pair_copy c1 c2 (p1 x, p2 x); State_Monad.return (upd (fst b) (snd b) x) })
      (\<lambda>h x. map_option (mk x) (pair_view v1 v2 h (p1 x, p2 x))) (\<lambda>h x. f1 h (fst (p1 x, p2 x)) \<union> f2 h (snd (p1 x, p2 x)))"
    by (rule struct_copier [OF pair_copier [OF assms(1,2)], where proj = "\<lambda>x. (p1 x, p2 x)"]) (simp_all add: assms(3-5))
  then show ?thesis by (simp add: pair_copy_def)
qed

lemma struct_copier3:
  assumes "deep_copier c1 v1 f1" and "deep_copier c2 v2 f2" and "deep_copier c3 v3 f3"
    and "\<And>a b d x. p1 (upd a b d x) = a" and "\<And>a b d x. p2 (upd a b d x) = b" and "\<And>a b d x. p3 (upd a b d x) = d"
    and "\<And>a b d x. mk (upd a b d x) = mk x"
  shows "deep_copier (\<lambda>x. do { a \<leftarrow> c1 (p1 x); b \<leftarrow> c2 (p2 x); d \<leftarrow> c3 (p3 x); State_Monad.return (upd a b d x) })
    (\<lambda>h x. map_option (mk x) (pair_view v1 (pair_view v2 v3) h (p1 x, p2 x, p3 x)))
    (\<lambda>h x. f1 h (p1 x) \<union> (f2 h (p2 x) \<union> f3 h (p3 x)))"
proof -
  have "deep_copier (\<lambda>x. do { a \<leftarrow> c1 (p1 x); b \<leftarrow> pair_copy c2 c3 (p2 x, p3 x); State_Monad.return (upd a (fst b) (snd b) x) })
      (\<lambda>h x. map_option (mk x) (pair_view v1 (pair_view v2 v3) h (p1 x, p2 x, p3 x)))
      (\<lambda>h x. f1 h (p1 x) \<union> (f2 h (fst (p2 x, p3 x)) \<union> f3 h (snd (p2 x, p3 x))))"
    by (rule struct_copier2 [OF assms(1) pair_copier [OF assms(2,3)], where ?p1.0 = p1 and ?p2.0 = "\<lambda>x. (p2 x, p3 x)"])
       (simp_all add: assms(4-7))
  then show ?thesis by (simp add: pair_copy_def)
qed

text \<open>A pointer.\<close>

definition ptr_view :: "'a kind \<Rightarrow> (heap \<Rightarrow> 'a \<Rightarrow> 'v option) \<Rightarrow> heap \<Rightarrow> addr option \<Rightarrow> 'v option option" where
  "ptr_view k v h p = (case p of None \<Rightarrow> Some None
     | Some a \<Rightarrow> (case peek k h a of None \<Rightarrow> None | Some x \<Rightarrow> map_option Some (v h x)))"

definition ptr_foot :: "'a kind \<Rightarrow> (heap \<Rightarrow> 'a \<Rightarrow> addr set) \<Rightarrow> heap \<Rightarrow> addr option \<Rightarrow> addr set" where
  "ptr_foot k f h p = (case p of None \<Rightarrow> {}
     | Some a \<Rightarrow> insert a (case peek k h a of None \<Rightarrow> {} | Some x \<Rightarrow> f h x))"

lemma peek_cong: "cells h' a = cells h a \<Longrightarrow> peek k h' a = peek k h a"
  by (simp add: peek_def)

lemma peek_inside: "heap_ok h \<Longrightarrow> peek k h a = Some x \<Longrightarrow> a < lim h"
  by (auto simp: peek_def heap_ok_def not_less [symmetric] split: prod.splits option.splits)

lemma peek_put:
  assumes "good_kind k" and "cells h a = Some (fst k x)"
  shows "peek k h a = Some x"
  using assms by (cases k) (simp add: peek_def good_kind_def)

lemma run_alloc: "run_state (alloc c) h = (lim h, h\<lparr>cells := (cells h)(lim h \<mapsto> c), lim := Suc (lim h)\<rparr>)"
  by (simp add: alloc_def)

lemma run_store: "run_state (store a c) h = ((), h\<lparr>cells := (cells h)(a \<mapsto> c)\<rparr>)"
  by (simp add: store_def)

lemma run_deref: "peek k h a = Some x \<Longrightarrow> run_state (deref k zero a) h = (x, h)"
  by (simp add: deref_def)

lemmas run_mem = run_alloc run_store run_deref

lemma extends_alloc: "heap_ok h \<Longrightarrow> extends h (h\<lparr>cells := (cells h)(lim h \<mapsto> c), lim := Suc (lim h)\<rparr>)"
  by (simp add: extends_def heap_ok_def)

text \<open>Overwriting a variable allocated since then.\<close>

lemma extends_store:
  "extends h g \<Longrightarrow> lim h \<le> b \<Longrightarrow> b < lim g \<Longrightarrow> extends h (g\<lparr>cells := (cells g)(b \<mapsto> c)\<rparr>)"
  by (auto simp: extends_def heap_ok_def)

lemma extends_peek: "extends h g \<Longrightarrow> heap_ok h \<Longrightarrow> peek k h a = Some x \<Longrightarrow> peek k g a = Some x"
  using peek_inside [of h k a x] peek_cong [of g a h k] by (simp add: extends_def)

lemma new_copy_run:
  assumes "deep_copier into v f" and "good_kind k" and "heap_ok h" and "peek k h a = Some x" and "v h x = Some w"
    and "run_state (new_copy k zero into a) h = (b, h')"
  shows "b = lim h \<and> extends h h' \<and> b < lim h' \<and>
    (\<exists>y. peek k h' b = Some y \<and> v h' y = Some w \<and> f h' y \<subseteq> {Suc b..<lim h'})"
proof -
  let ?g = "h\<lparr>cells := (cells h)(lim h \<mapsto> fst k zero), lim := Suc (lim h)\<rparr>"
  note ext = extends_alloc [OF assms(3), of "fst k zero"]
  obtain y g where y: "run_state (into x) ?g = (y, g)" by fastforce
  have b: "b = lim h" and h': "h' = g\<lparr>cells := (cells g)(lim h \<mapsto> fst k y)\<rparr>"
    using assms(6) extends_peek [OF ext assms(3,4)] y by (auto simp: new_copy_def run_mem)
  have "v ?g x = Some w" using deep_copier.later [OF assms(1,3,5) ext] by blast
  note c = deep_copier.copies [OF assms(1) extends_ok [OF ext] this y]
  then have lim: "Suc (lim h) \<le> lim g" by (simp add: extends_def)
  have "lim h \<notin> f g y" using c by auto
  then have "\<And>a. a \<in> f g y \<Longrightarrow> cells h' a = cells g a" unfolding h' by auto
  then have "v h' y = Some w \<and> f h' y = f g y" using deep_copier.frame [OF assms(1), of g y w h'] c by blast
  moreover have "extends h h'"
    unfolding h' by (rule extends_store [OF extends_trans [OF ext conjunct1 [OF c]]]) (use lim in auto)
  moreover have "peek k h' b = Some y" by (rule peek_put [OF assms(2)]) (simp add: h' b)
  ultimately show ?thesis using b c lim h' by auto
qed

lemma ptr_copier:
  assumes "deep_copier into v f" and "good_kind k"
  shows "deep_copier (ptr_copy k zero into) (ptr_view k v) (ptr_foot k f)"
proof unfold_locales
  fix h h' :: heap and p q w
  assume h: "heap_ok h" and w: "ptr_view k v h p = Some w" and r: "run_state (ptr_copy k zero into p) h = (q, h')"
  show "extends h h' \<and> ptr_view k v h' q = Some w \<and> ptr_foot k f h' q \<subseteq> {lim h..<lim h'}"
  proof (cases p)
    case None
    with w r h show ?thesis by (simp add: ptr_copy_def ptr_view_def ptr_foot_def extends_refl)
  next
    case (Some a)
    with w obtain x u where x: "peek k h a = Some x" "v h x = Some u" "w = Some u"
      by (auto simp: ptr_view_def split: option.splits)
    from r Some obtain b where b: "run_state (new_copy k zero into a) h = (b, h')" "q = Some b"
      by (auto simp: ptr_copy_def split: prod.splits)
    from new_copy_run [OF assms h x(1,2) b(1)] obtain y where
      "b = lim h" "extends h h'" "b < lim h'" "peek k h' b = Some y" "v h' y = Some u" "f h' y \<subseteq> {Suc b..<lim h'}"
      by blast
    then show ?thesis using b(2) x(3) by (auto simp: ptr_view_def ptr_foot_def)
  qed
next
  fix h h' :: heap and p w
  assume "ptr_view k v h p = Some w" and "\<And>a. a \<in> ptr_foot k f h p \<Longrightarrow> cells h' a = cells h a"
  then show "ptr_view k v h' p = Some w \<and> ptr_foot k f h' p = ptr_foot k f h p"
    using deep_copier.frame [OF assms(1), of h _ _ h'] peek_cong [of h' _ h k]
    by (fastforce simp: ptr_view_def ptr_foot_def split: option.splits)
next
  fix h :: heap and p w
  assume "heap_ok h" "ptr_view k v h p = Some w"
  then show "ptr_foot k f h p \<subseteq> {..<lim h}"
    using deep_copier.inside [OF assms(1), of h] peek_inside [of h k]
    by (fastforce simp: ptr_view_def ptr_foot_def split: option.splits)
qed

text \<open>A slice.\<close>

definition slice_view :: "'a list kind \<Rightarrow> (heap \<Rightarrow> 'a \<Rightarrow> 'v option) \<Rightarrow> heap \<Rightarrow> slice \<Rightarrow> 'v list option option" where
  "slice_view k v h sl = (case sl of NilSlice \<Rightarrow> Some None
     | Slice a off n \<Rightarrow> (case peek k h a of None \<Rightarrow> None
         | Some xs \<Rightarrow> if off + n \<le> length xs then map_option Some (those (map (v h) (take n (drop off xs)))) else None))"

definition slice_foot :: "'a list kind \<Rightarrow> (heap \<Rightarrow> 'a \<Rightarrow> addr set) \<Rightarrow> heap \<Rightarrow> slice \<Rightarrow> addr set" where
  "slice_foot k f h sl = (case sl of NilSlice \<Rightarrow> {}
     | Slice a off n \<Rightarrow> insert a (case peek k h a of None \<Rightarrow> {}
         | Some xs \<Rightarrow> (\<Union>x \<in> set (take n (drop off xs)). f h x)))"

lemma those_Some_iff:
  "those xs = Some ys \<longleftrightarrow> length xs = length ys \<and> (\<forall>i < length ys. xs ! i = Some (ys ! i))"
proof (induction xs arbitrary: ys)
  case Nil
  show ?case by auto
next
  case (Cons x xs)
  show ?case
  proof (cases ys)
    case Nil
    then show ?thesis by (auto split: option.splits)
  next
    case (Cons y zs)
    then show ?thesis using Cons.IH [of zs]
      by (auto simp: nth_Cons less_Suc_eq_0_disj split: option.splits nat.splits)
  qed
qed


text \<open>The loop has copied the elements below \<open>i\<close>: they denote the first \<open>i\<close> values, on variables newer
  than the array \<open>b\<close>.\<close>

definition copied ::
  "'a list kind \<Rightarrow> (heap \<Rightarrow> 'a \<Rightarrow> 'v option) \<Rightarrow> (heap \<Rightarrow> 'a \<Rightarrow> addr set) \<Rightarrow> heap \<Rightarrow> addr \<Rightarrow> 'v list \<Rightarrow> nat \<Rightarrow> heap \<Rightarrow> bool" where
  "copied k v f h0 b vs i h \<longleftrightarrow> extends h0 h \<and> b < lim h \<and>
     (\<exists>ys. peek k h b = Some ys \<and> length ys = length vs \<and>
       (\<forall>j < i. v h (ys ! j) = Some (vs ! j) \<and> f h (ys ! j) \<subseteq> {Suc b..<lim h}))"

lemma copied_step:
  assumes "deep_copier into v f" and "good_kind k" and "heap_ok h0" and "b = lim h0"
    and "v h0 x = Some (vs ! i)" and "i < length vs" and "copied k v f h0 b vs i h"
    and "run_state (into x) h = (y, g)"
  shows "\<exists>ys. peek k g b = Some ys \<and> copied k v f h0 b vs (Suc i) (g\<lparr>cells := (cells g)(b \<mapsto> fst k (ys[i := y]))\<rparr>)"
proof -
  from assms(7) obtain ys where e: "extends h0 h" "b < lim h" and ys: "peek k h b = Some ys" "length ys = length vs"
    and done': "\<And>j. j < i \<Longrightarrow> v h (ys ! j) = Some (vs ! j) \<and> f h (ys ! j) \<subseteq> {Suc b..<lim h}"
    by (auto simp: copied_def)
  note h = extends_ok [OF e(1)]
  have "v h x = Some (vs ! i)" using deep_copier.later [OF assms(1,3,5) e(1)] by blast
  note c = deep_copier.copies [OF assms(1) h this assms(8)]
  let ?g = "g\<lparr>cells := (cells g)(b \<mapsto> fst k (ys[i := y]))\<rparr>"
  have keep: "v ?g z = Some u \<and> f ?g z \<subseteq> {Suc b..<lim g}" if "v g z = Some u" "f g z \<subseteq> {Suc b..<lim g}" for z u
    using deep_copier.frame [OF assms(1) that(1), of ?g] that(2) by fastforce
  have lim: "lim h \<le> lim g" using c by (simp add: extends_def)
  have "v ?g (ys[i := y] ! j) = Some (vs ! j) \<and> f ?g (ys[i := y] ! j) \<subseteq> {Suc b..<lim g}" if "j < Suc i" for j
  proof (cases "j = i")
    case True
    then show ?thesis using keep [of y] c e(2) ys(2) assms(6) by force
  next
    case False
    with that have j: "j < i" by simp
    have "v g (ys ! j) = Some (vs ! j) \<and> f g (ys ! j) = f h (ys ! j)"
      using deep_copier.later [OF assms(1) h, of "ys ! j" "vs ! j" g] done' [OF j] c by blast
    then show ?thesis using keep [of "ys ! j"] done' [OF j] lim j by force
  qed
  moreover have "extends h0 ?g"
    by (rule extends_store [OF extends_trans [OF e(1) conjunct1 [OF c]]]) (use e assms(4) lim in auto)
  moreover have "peek k ?g b = Some (ys[i := y])" by (rule peek_put [OF assms(2)]) simp
  moreover have "peek k g b = Some ys" by (rule extends_peek [OF conjunct1 [OF c] h ys(1)])
  ultimately show ?thesis using ys(2) e(2) lim by (auto simp: copied_def)
qed

lemma copy_elems_run:
  assumes "deep_copier into v f" and "good_kind k" and "heap_ok h0" and "b = lim h0"
    and "peek k h0 a = Some xs" and "\<And>j. j < length vs \<Longrightarrow> v h0 (xs ! (off + j)) = Some (vs ! j)"
  shows "i \<le> length vs \<Longrightarrow> copied k v f h0 b vs i h \<Longrightarrow>
    run_state (copy_elems k into a off b [i..<length vs]) h = ((), h') \<Longrightarrow> copied k v f h0 b vs (length vs) h'"
proof (induction "length vs - i" arbitrary: i h)
  case 0
  then show ?case by simp
next
  case (Suc n)
  then have i: "i < length vs" by simp
  obtain y g where y: "run_state (into (xs ! (off + i))) h = (y, g)" by fastforce
  have a: "peek k h a = Some xs"
    using extends_peek [OF _ assms(3,5)] Suc.prems(2) by (simp add: copied_def)
  from copied_step [OF assms(1-4) assms(6) [OF i] i Suc.prems(2) y] obtain ys where
    ys: "peek k g b = Some ys" "copied k v f h0 b vs (Suc i) (g\<lparr>cells := (cells g)(b \<mapsto> fst k (ys[i := y]))\<rparr>)" by blast
  have "run_state (copy_elems k into a off b [Suc i..<length vs]) (g\<lparr>cells := (cells g)(b \<mapsto> fst k (ys[i := y]))\<rparr>) = ((), h')"
    using Suc.prems(3) a y ys(1) by (simp add: upt_conv_Cons [OF i] run_mem)
  from Suc.hyps(1) [OF _ _ ys(2) this] Suc.hyps(2) i show ?case by simp
qed

lemma slice_copy_run:
  assumes "deep_copier into v f" and "good_kind k" and "heap_ok h" and "peek k h a = Some xs"
    and "\<And>j. j < length vs \<Longrightarrow> v h (xs ! (off + j)) = Some (vs ! j)"
    and "run_state (slice_copy k zero into (Slice a off (length vs))) h = (q, h')"
  shows "q = Slice (lim h) 0 (length vs) \<and> copied k v f h (lim h) vs (length vs) h'"
proof -
  let ?g = "h\<lparr>cells := (cells h)(lim h \<mapsto> fst k (replicate (length vs) zero)), lim := Suc (lim h)\<rparr>"
  have r: "q = Slice (lim h) 0 (length vs)" "run_state (copy_elems k into a off (lim h) [0..<length vs]) ?g = ((), h')"
    using assms(6) by (auto simp: slice_copy_def run_mem split: prod.splits)
  have "peek k ?g (lim h) = Some (replicate (length vs) zero)" by (rule peek_put [OF assms(2)]) simp
  then have "copied k v f h (lim h) vs 0 ?g"
    using extends_alloc [OF assms(3), of "fst k (replicate (length vs) zero)"] by (simp add: copied_def)
  from copy_elems_run [OF assms(1-3) refl assms(4,5) _ this r(2)] r(1) show ?thesis by simp
qed

lemma slice_copier:
  assumes "deep_copier into v f" and "good_kind k"
  shows "deep_copier (slice_copy k zero into) (slice_view k v) (slice_foot k f)"
proof unfold_locales
  fix h h' :: heap and p q w
  assume h: "heap_ok h" and w: "slice_view k v h p = Some w" and r: "run_state (slice_copy k zero into p) h = (q, h')"
  show "extends h h' \<and> slice_view k v h' q = Some w \<and> slice_foot k f h' q \<subseteq> {lim h..<lim h'}"
  proof (cases p)
    case NilSlice
    with w r h show ?thesis by (simp add: slice_copy_def slice_view_def slice_foot_def extends_refl)
  next
    case (Slice a off n)
    with w obtain xs vs where xs: "peek k h a = Some xs" "off + n \<le> length xs" "w = Some vs"
      "those (map (v h) (take n (drop off xs))) = Some vs"
      by (auto simp: slice_view_def split: option.splits if_splits)
    then have n: "n = length vs" and vs: "\<And>j. j < length vs \<Longrightarrow> v h (xs ! (off + j)) = Some (vs ! j)"
      by (auto simp: those_Some_iff)
    from slice_copy_run [OF assms h xs(1) vs r [unfolded Slice n]]
    have q: "q = Slice (lim h) 0 (length vs)" and c: "copied k v f h (lim h) vs (length vs) h'" by auto
    from c obtain ys where ys: "peek k h' (lim h) = Some ys" "length ys = length vs"
      "\<And>j. j < length vs \<Longrightarrow> v h' (ys ! j) = Some (vs ! j) \<and> f h' (ys ! j) \<subseteq> {Suc (lim h)..<lim h'}"
      by (auto simp: copied_def)
    have "those (map (v h') ys) = Some vs" using ys by (simp add: those_Some_iff)
    moreover have "(\<Union>y \<in> set ys. f h' y) \<subseteq> {lim h..<lim h'}"
    proof
      fix c assume "c \<in> (\<Union>y \<in> set ys. f h' y)"
      then obtain j where "j < length vs" "c \<in> f h' (ys ! j)" using ys(2) by (auto simp: in_set_conv_nth)
      with ys(3) show "c \<in> {lim h..<lim h'}" by fastforce
    qed
    ultimately show ?thesis using q c ys xs(3) by (auto simp: slice_view_def slice_foot_def copied_def)
  qed
next
  fix h h' :: heap and p w
  assume w: "slice_view k v h p = Some w" and s: "\<And>a. a \<in> slice_foot k f h p \<Longrightarrow> cells h' a = cells h a"
  show "slice_view k v h' p = Some w \<and> slice_foot k f h' p = slice_foot k f h p"
  proof (cases p)
    case (Slice a off n)
    with w obtain xs vs where xs: "peek k h a = Some xs" "off + n \<le> length xs" "w = Some vs"
      "those (map (v h) (take n (drop off xs))) = Some vs"
      by (auto simp: slice_view_def split: option.splits if_splits)
    have "v h' x = v h x \<and> f h' x = f h x" if x: "x \<in> set (take n (drop off xs))" for x
    proof -
      have "\<exists>u. v h x = Some u" using x xs(4) by (auto simp: those_Some_iff in_set_conv_nth)
      moreover have "\<And>b. b \<in> f h x \<Longrightarrow> cells h' b = cells h b" using s x Slice xs(1) by (auto simp: slice_foot_def)
      ultimately show ?thesis using deep_copier.frame [OF assms(1)] by metis
    qed
    moreover have "peek k h' a = Some xs" using s [of a] Slice xs(1) peek_cong [of h' a h k] by (simp add: slice_foot_def)
    ultimately show ?thesis using Slice xs by (simp add: slice_view_def slice_foot_def cong: map_cong)
  qed (use w in \<open>simp add: slice_view_def slice_foot_def\<close>)
next
  fix h :: heap and p w
  assume h: "heap_ok h" and w: "slice_view k v h p = Some w"
  show "slice_foot k f h p \<subseteq> {..<lim h}"
  proof (cases p)
    case (Slice a off n)
    with w obtain xs vs where xs: "peek k h a = Some xs" "those (map (v h) (take n (drop off xs))) = Some vs"
      by (auto simp: slice_view_def split: option.splits if_splits)
    have "f h x \<subseteq> {..<lim h}" if "x \<in> set (take n (drop off xs))" for x
    proof -
      have "\<exists>u. v h x = Some u" using that xs(2) by (auto simp: those_Some_iff in_set_conv_nth)
      then show ?thesis using deep_copier.inside [OF assms(1) h] by blast
    qed
    then show ?thesis using Slice xs(1) peek_inside [OF h xs(1)] by (auto simp: slice_foot_def)
  qed (simp add: slice_foot_def)
qed


section \<open>What the memory denotes\<close>

record ObjectMeta =
  om_Name :: string
  om_Namespace :: string
  om_ResourceVersion :: string
  om_Generation :: i64
  om_Annotations :: "strmap option"

record ListMeta =
  lm_ResourceVersion :: string
  lm_Continue :: string
  lm_RemainingItemCount :: "i64 option"

abbreviation flat_view :: "heap \<Rightarrow> 'a \<Rightarrow> 'a option" where "flat_view \<equiv> \<lambda>h x. Some x"
abbreviation flat_foot :: "heap \<Rightarrow> 'a \<Rightarrow> addr set" where "flat_foot \<equiv> \<lambda>h x. {}"

abbreviation elems :: "'a list option \<Rightarrow> 'a list" where "elems xs \<equiv> case_option [] (\<lambda>x. x) xs"

definition view_selector :: "heap \<Rightarrow> SelectorMem \<Rightarrow> SecretKeySelector option" where
  "view_selector h x = map_option (\<lambda>_. \<lparr>sel_Name = hsel_Name x, sel_Key = hsel_Key x\<rparr>)
     (ptr_view k_bool flat_view h (hsel_Optional x))"

definition foot_selector :: "heap \<Rightarrow> SelectorMem \<Rightarrow> addr set" where
  "foot_selector h x = ptr_foot k_bool flat_foot h (hsel_Optional x)"

definition view_om :: "heap \<Rightarrow> ObjectMetaMem \<Rightarrow> ObjectMeta option" where
  "view_om h x = map_option (\<lambda>an. \<lparr>om_Name = hom_Name x, om_Namespace = hom_Namespace x,
       om_ResourceVersion = hom_ResourceVersion x, om_Generation = hom_Generation x, om_Annotations = an\<rparr>)
     (ptr_view k_map flat_view h (hom_Annotations x))"

definition foot_om :: "heap \<Rightarrow> ObjectMetaMem \<Rightarrow> addr set" where
  "foot_om h x = ptr_foot k_map flat_foot h (hom_Annotations x)"

definition view_lm :: "heap \<Rightarrow> ListMetaMem \<Rightarrow> ListMeta option" where
  "view_lm h x = map_option (\<lambda>n. \<lparr>lm_ResourceVersion = hlm_ResourceVersion x, lm_Continue = hlm_Continue x,
       lm_RemainingItemCount = n\<rparr>) (ptr_view k_int64 flat_view h (hlm_RemainingItemCount x))"

definition foot_lm :: "heap \<Rightarrow> ListMetaMem \<Rightarrow> addr set" where
  "foot_lm h x = ptr_foot k_int64 flat_foot h (hlm_RemainingItemCount x)"

definition view_probe :: "heap \<Rightarrow> PostgresProbeMem \<Rightarrow> PostgresProbe option" where
  "view_probe h x = map_option (\<lambda>(u, p). \<lparr>pp_Endpoint = hpp_Endpoint x, pp_Port = hpp_Port x,
       pp_Database = hpp_Database x, pp_SSLMode = hpp_SSLMode x, pp_UserSecretRef = u, pp_PasswordSecretRef = p\<rparr>)
     (pair_view view_selector view_selector h (hpp_UserSecretRef x, hpp_PasswordSecretRef x))"

definition foot_probe :: "heap \<Rightarrow> PostgresProbeMem \<Rightarrow> addr set" where
  "foot_probe h x = foot_selector h (hpp_UserSecretRef x) \<union> foot_selector h (hpp_PasswordSecretRef x)"

definition view_primary :: "heap \<Rightarrow> PrimarySiteMem \<Rightarrow> PrimarySite option" where
  "view_primary h x = map_option (\<lambda>p. \<lparr>ps_Name = hps_Name x, ps_ClusterRef = hps_ClusterRef x,
       ps_ReplicationEndpoint = hps_ReplicationEndpoint x, ps_PostgresProbe = p\<rparr>)
     (ptr_view k_probe view_probe h (hps_PostgresProbe x))"

definition foot_primary :: "heap \<Rightarrow> PrimarySiteMem \<Rightarrow> addr set" where
  "foot_primary h x = ptr_foot k_probe foot_probe h (hps_PostgresProbe x)"

definition view_replica :: "heap \<Rightarrow> ReplicaSiteMem \<Rightarrow> ReplicaSite option" where
  "view_replica h x = map_option (\<lambda>(sel, p). \<lparr>rs_Name = hrs_Name x, rs_KubeconfigSecretRef = sel,
       rs_ClusterRef = hrs_ClusterRef x, rs_ReplicationEndpoint = hrs_ReplicationEndpoint x, rs_PostgresProbe = p\<rparr>)
     (pair_view view_selector (ptr_view k_probe view_probe) h (hrs_KubeconfigSecretRef x, hrs_PostgresProbe x))"

definition foot_replica :: "heap \<Rightarrow> ReplicaSiteMem \<Rightarrow> addr set" where
  "foot_replica h x = foot_selector h (hrs_KubeconfigSecretRef x) \<union> ptr_foot k_probe foot_probe h (hrs_PostgresProbe x)"

definition view_spec :: "heap \<Rightarrow> HAClusterSpecMem \<Rightarrow> HAClusterSpec option" where
  "view_spec h x = map_option (\<lambda>(p, rs). \<lparr>Primary = p, Replicas = elems rs, Failover = hs_Failover x\<rparr>)
     (pair_view view_primary (slice_view k_replicas view_replica) h (hs_Primary x, hs_Replicas x))"

definition foot_spec :: "heap \<Rightarrow> HAClusterSpecMem \<Rightarrow> addr set" where
  "foot_spec h x = foot_primary h (hs_Primary x) \<union> slice_foot k_replicas foot_replica h (hs_Replicas x)"

definition view_site :: "heap \<Rightarrow> SiteStatusMem \<Rightarrow> SiteStatus option" where
  "view_site h x = map_option (\<lambda>(t, lag). \<lparr>ss_Name = hss_Name x, ss_Role = hss_Role x, ss_Reachable = hss_Reachable x,
       ss_Ready = hss_Ready x, ss_Phase = hss_Phase x, ss_Message = hss_Message x, ss_LastObservedTime = t,
       ss_CurrentLSN = hss_CurrentLSN x, ss_ReplicationLagMilliseconds = lag\<rparr>)
     (pair_view (ptr_view k_time flat_view) (ptr_view k_int64 flat_view) h
       (hss_LastObservedTime x, hss_ReplicationLagMilliseconds x))"

definition foot_site :: "heap \<Rightarrow> SiteStatusMem \<Rightarrow> addr set" where
  "foot_site h x = ptr_foot k_time flat_foot h (hss_LastObservedTime x) \<union>
     ptr_foot k_int64 flat_foot h (hss_ReplicationLagMilliseconds x)"

definition view_status :: "heap \<Rightarrow> HAClusterStatusMem \<Rightarrow> HAClusterStatus option" where
  "view_status h x = map_option (\<lambda>(t, ss, cs). \<lparr>CurrentPrimarySite = hst_CurrentPrimarySite x, LastFailoverTime = t,
       ObservedGeneration = hst_ObservedGeneration x, Sites = elems ss, Conditions = elems cs\<rparr>)
     (pair_view (ptr_view k_time flat_view) (pair_view (slice_view k_sites view_site) (slice_view k_conditions flat_view)) h
       (hst_LastFailoverTime x, hst_Sites x, hst_Conditions x))"

definition foot_status :: "heap \<Rightarrow> HAClusterStatusMem \<Rightarrow> addr set" where
  "foot_status h x = ptr_foot k_time flat_foot h (hst_LastFailoverTime x) \<union>
     (slice_foot k_sites foot_site h (hst_Sites x) \<union> slice_foot k_conditions flat_foot h (hst_Conditions x))"

definition view_ha :: "heap \<Rightarrow> HAClusterMem \<Rightarrow> (TypeMeta \<times> HACluster) option" where
  "view_ha h x = map_option (\<lambda>(om, sp, st). (hha_TypeMeta x, \<lparr>ha_Name = om_Name om, ha_Namespace = om_Namespace om,
       ha_ResourceVersion = om_ResourceVersion om, ha_Generation = om_Generation om,
       ha_Annotations = elems (om_Annotations om), ha_Spec = sp, ha_Status = st\<rparr>))
     (pair_view view_om (pair_view view_spec view_status) h (hha_ObjectMeta x, hha_Spec x, hha_Status x))"

definition foot_ha :: "heap \<Rightarrow> HAClusterMem \<Rightarrow> addr set" where
  "foot_ha h x = foot_om h (hha_ObjectMeta x) \<union> (foot_spec h (hha_Spec x) \<union> foot_status h (hha_Status x))"

definition view_halist :: "heap \<Rightarrow> HAClusterListMem \<Rightarrow> (TypeMeta \<times> ListMeta \<times> (TypeMeta \<times> HACluster) list option) option" where
  "view_halist h x = map_option (\<lambda>(lm, items). (hl_TypeMeta x, lm, items))
     (pair_view view_lm (slice_view k_items view_ha) h (hl_ListMeta x, hl_Items x))"

definition foot_halist :: "heap \<Rightarrow> HAClusterListMem \<Rightarrow> addr set" where
  "foot_halist h x = foot_lm h (hl_ListMeta x) \<union> slice_foot k_items foot_ha h (hl_Items x)"

text \<open>The object behind a pointer, and the memory it can reach.\<close>

definition object_at :: "heap \<Rightarrow> addr \<Rightarrow> (TypeMeta \<times> HACluster) option" where
  "object_at h a = (case peek k_ha h a of None \<Rightarrow> None | Some x \<Rightarrow> view_ha h x)"

definition reach :: "heap \<Rightarrow> addr \<Rightarrow> addr set" where
  "reach h a = ptr_foot k_ha foot_ha h (Some a)"

section \<open>The generated functions are deep\<close>

text \<open>What the documentation of the Kubernetes types promises: their generated functions copy deeply.\<close>

locale copy_library =
  fixes L :: copylib
  assumes selector_deep: "deep_copier (selectorInto L) view_selector foot_selector"
    and om_deep: "deep_copier (objectMetaInto L) view_om foot_om"
    and lm_deep: "deep_copier (listMetaInto L) view_lm foot_lm"
    and condition_deep: "deep_copier (conditionInto L) flat_view flat_foot"
    and time_deep: "deep_copier (timeDeepCopy L) (ptr_view k_time flat_view) (ptr_foot k_time flat_foot)"
begin

lemma time_field_deep: "deep_copier (time_field L) (ptr_view k_time flat_view) (ptr_foot k_time flat_foot)"
proof unfold_locales
  fix h h' p q w
  assume a: "heap_ok h" "ptr_view k_time flat_view h p = Some w" "run_state (time_field L p) h = (q, h')"
  then show "extends h h' \<and> ptr_view k_time flat_view h' q = Some w \<and> ptr_foot k_time flat_foot h' q \<subseteq> {lim h..<lim h'}"
    using deep_copier.copies [OF time_deep a(1,2)]
    by (cases p) (auto simp: time_field_def ptr_view_def ptr_foot_def extends_refl)
qed (use deep_copier.frame [OF time_deep] deep_copier.inside [OF time_deep] in blast)+

lemma probe_deep: "deep_copier (PostgresProbe_DeepCopyInto L) view_probe foot_probe"
  unfolding PostgresProbe_DeepCopyInto_def [abs_def] view_probe_def [abs_def] foot_probe_def [abs_def]
  by (rule struct_copier2 [OF selector_deep selector_deep]) simp_all

lemmas probe_ptr_deep = ptr_copier [OF probe_deep good_kinds(7), where zero = zero_PostgresProbe]

lemma primary_deep: "deep_copier (PrimarySite_DeepCopyInto L) view_primary foot_primary"
  unfolding PrimarySite_DeepCopyInto_def [abs_def] view_primary_def [abs_def] foot_primary_def [abs_def]
  by (rule struct_copier [OF probe_ptr_deep]) simp_all

lemma replica_deep: "deep_copier (ReplicaSite_DeepCopyInto L) view_replica foot_replica"
  unfolding ReplicaSite_DeepCopyInto_def [abs_def] view_replica_def [abs_def] foot_replica_def [abs_def]
  by (rule struct_copier2 [OF selector_deep probe_ptr_deep]) simp_all

lemma spec_deep: "deep_copier (HAClusterSpec_DeepCopyInto L) view_spec foot_spec"
  unfolding HAClusterSpec_DeepCopyInto_def [abs_def] view_spec_def [abs_def] foot_spec_def [abs_def]
  by (rule struct_copier2 [OF primary_deep slice_copier [OF replica_deep good_kinds(15)]]) simp_all

lemma site_deep: "deep_copier (SiteStatus_DeepCopyInto L) view_site foot_site"
  unfolding SiteStatus_DeepCopyInto_def [abs_def] view_site_def [abs_def] foot_site_def [abs_def]
  by (rule struct_copier2 [OF time_field_deep ptr_copier [OF flat_copier good_kinds(2)]]) simp_all

lemma status_deep: "deep_copier (HAClusterStatus_DeepCopyInto L) view_status foot_status"
  unfolding HAClusterStatus_DeepCopyInto_def [abs_def] view_status_def [abs_def] foot_status_def [abs_def]
  by (rule struct_copier3 [OF time_field_deep slice_copier [OF site_deep good_kinds(16)]
        slice_copier [OF condition_deep good_kinds(17)]]) simp_all

lemma ha_deep: "deep_copier (HACluster_DeepCopyInto L) view_ha foot_ha"
  unfolding HACluster_DeepCopyInto_def [abs_def] view_ha_def [abs_def] foot_ha_def [abs_def]
  by (rule struct_copier3 [OF om_deep spec_deep status_deep]) simp_all

lemma halist_deep: "deep_copier (HAClusterList_DeepCopyInto L) view_halist foot_halist"
  unfolding HAClusterList_DeepCopyInto_def [abs_def] view_halist_def [abs_def] foot_halist_def [abs_def]
  by (rule struct_copier2 [OF lm_deep slice_copier [OF ha_deep good_kinds(18)]]) simp_all

end


text \<open>Every \<open>DeepCopy\<close> method, on pointers.\<close>

sublocale copy_library \<subseteq> probe: deep_copier "PostgresProbe_DeepCopy L" "ptr_view k_probe view_probe" "ptr_foot k_probe foot_probe"
  unfolding PostgresProbe_DeepCopy_def by (rule ptr_copier [OF probe_deep good_kinds(7)])

sublocale copy_library \<subseteq> primary: deep_copier "PrimarySite_DeepCopy L" "ptr_view k_primary view_primary" "ptr_foot k_primary foot_primary"
  unfolding PrimarySite_DeepCopy_def by (rule ptr_copier [OF primary_deep good_kinds(8)])

sublocale copy_library \<subseteq> replica: deep_copier "ReplicaSite_DeepCopy L" "ptr_view k_replica view_replica" "ptr_foot k_replica foot_replica"
  unfolding ReplicaSite_DeepCopy_def by (rule ptr_copier [OF replica_deep good_kinds(9)])

sublocale copy_library \<subseteq> spec: deep_copier "HAClusterSpec_DeepCopy L" "ptr_view k_spec view_spec" "ptr_foot k_spec foot_spec"
  unfolding HAClusterSpec_DeepCopy_def by (rule ptr_copier [OF spec_deep good_kinds(10)])

sublocale copy_library \<subseteq> site: deep_copier "SiteStatus_DeepCopy L" "ptr_view k_site view_site" "ptr_foot k_site foot_site"
  unfolding SiteStatus_DeepCopy_def by (rule ptr_copier [OF site_deep good_kinds(11)])

sublocale copy_library \<subseteq> status: deep_copier "HAClusterStatus_DeepCopy L" "ptr_view k_status view_status" "ptr_foot k_status foot_status"
  unfolding HAClusterStatus_DeepCopy_def by (rule ptr_copier [OF status_deep good_kinds(12)])

sublocale copy_library \<subseteq> ha: deep_copier "HACluster_DeepCopy L" "ptr_view k_ha view_ha" "ptr_foot k_ha foot_ha"
  unfolding HACluster_DeepCopy_def by (rule ptr_copier [OF ha_deep good_kinds(13)])

sublocale copy_library \<subseteq> halist: deep_copier "HAClusterList_DeepCopy L" "ptr_view k_halist view_halist" "ptr_foot k_halist foot_halist"
  unfolding HAClusterList_DeepCopy_def by (rule ptr_copier [OF halist_deep good_kinds(14)])

interpretation clusterref: deep_copier ClusterRef_DeepCopy "ptr_view k_clusterref flat_view" "ptr_foot k_clusterref flat_foot"
  unfolding ClusterRef_DeepCopy_def ClusterRef_DeepCopyInto_def [abs_def] by (rule ptr_copier [OF flat_copier good_kinds(5)])

interpretation failover: deep_copier FailoverSpec_DeepCopy "ptr_view k_failover flat_view" "ptr_foot k_failover flat_foot"
  unfolding FailoverSpec_DeepCopy_def FailoverSpec_DeepCopyInto_def [abs_def] by (rule ptr_copier [OF flat_copier good_kinds(6)])

text \<open>A copy function library with the documented behaviour.\<close>

definition ref_copylib :: copylib where
  "ref_copylib = \<lparr>
     selectorInto = (\<lambda>i. do { p \<leftarrow> ptr_copy k_bool False State_Monad.return (hsel_Optional i);
       State_Monad.return (i\<lparr>hsel_Optional := p\<rparr>) }),
     objectMetaInto = (\<lambda>i. do { p \<leftarrow> ptr_copy k_map [] State_Monad.return (hom_Annotations i);
       State_Monad.return (i\<lparr>hom_Annotations := p\<rparr>) }),
     listMetaInto = (\<lambda>i. do { p \<leftarrow> ptr_copy k_int64 0 State_Monad.return (hlm_RemainingItemCount i);
       State_Monad.return (i\<lparr>hlm_RemainingItemCount := p\<rparr>) }),
     conditionInto = State_Monad.return,
     timeDeepCopy = ptr_copy k_time 0 State_Monad.return\<rparr>"

interpretation ref_copylib: copy_library ref_copylib
proof (rule copy_library.intro)
  show "deep_copier (selectorInto ref_copylib) view_selector foot_selector"
    unfolding ref_copylib_def copylib.simps view_selector_def [abs_def] foot_selector_def [abs_def]
    by (rule struct_copier [OF ptr_copier [OF flat_copier good_kinds(1)]]) simp_all
  show "deep_copier (objectMetaInto ref_copylib) view_om foot_om"
    unfolding ref_copylib_def copylib.simps view_om_def [abs_def] foot_om_def [abs_def]
    by (rule struct_copier [OF ptr_copier [OF flat_copier good_kinds(4)]]) simp_all
  show "deep_copier (listMetaInto ref_copylib) view_lm foot_lm"
    unfolding ref_copylib_def copylib.simps view_lm_def [abs_def] foot_lm_def [abs_def]
    by (rule struct_copier [OF ptr_copier [OF flat_copier good_kinds(2)]]) simp_all
  show "deep_copier (conditionInto ref_copylib) flat_view flat_foot"
    unfolding ref_copylib_def copylib.simps by (rule flat_copier)
  show "deep_copier (timeDeepCopy ref_copylib) (ptr_view k_time flat_view) (ptr_foot k_time flat_foot)"
    unfolding ref_copylib_def copylib.simps by (rule ptr_copier [OF flat_copier good_kinds(3)])
qed

lemma object_at_view: "object_at h a = Some v \<longleftrightarrow> ptr_view k_ha view_ha h (Some a) = Some (Some v)"
  by (cases v) (auto simp: object_at_def ptr_view_def split: option.splits)

lemma ptr_copy_target: "run_state (ptr_copy k zero into (Some a)) h = (q, h') \<Longrightarrow> \<exists>b. q = Some b"
  by (auto simp: ptr_copy_def split: prod.splits)

lemma ptr_copy_nil: "run_state (ptr_copy k zero into None) h = (None, h)"
  by (simp add: ptr_copy_def)

context copy_library
begin

lemma ha_separate:
  assumes "heap_ok h" and "object_at h a = Some v" and "run_state (HACluster_DeepCopy L (Some a)) h = (q, h')"
  shows "\<exists>b. q = Some b \<and> b \<noteq> a \<and> (\<forall>c < lim h. cells h' c = cells h c) \<and>
    object_at h' a = Some v \<and> object_at h' b = Some v \<and> reach h' a \<inter> reach h' b = {} \<and>
    (\<forall>g. (\<forall>c. c \<notin> reach h' a \<longrightarrow> cells g c = cells h' c) \<longrightarrow> object_at g b = Some v) \<and>
    (\<forall>g. (\<forall>c. c \<notin> reach h' b \<longrightarrow> cells g c = cells h' c) \<longrightarrow> object_at g a = Some v)"
proof -
  obtain b where b: "q = Some b" using ptr_copy_target [OF assms(3) [unfolded HACluster_DeepCopy_def]] by blast
  note v = assms(2) [unfolded object_at_view]
  note ind = ha.independent [OF assms(1) v assms(3), unfolded b, folded reach_def object_at_view]
  have "a \<in> reach h' a" "b \<in> reach h' b" by (simp_all add: reach_def ptr_foot_def)
  with ind have "b \<noteq> a" by blast
  moreover have "\<forall>c < lim h. cells h' c = cells h c"
    using ha.copies [OF assms(1) v assms(3)] by (simp add: extends_def)
  ultimately show ?thesis using b ind by simp
qed

lemma halist_separate:
  assumes "heap_ok h" and "ptr_view k_halist view_halist h (Some a) = Some (Some v)"
    and "run_state (HAClusterList_DeepCopy L (Some a)) h = (q, h')"
  shows "\<exists>b. q = Some b \<and> ptr_view k_halist view_halist h' (Some b) = Some (Some v) \<and>
    ptr_foot k_halist foot_halist h' (Some a) \<inter> ptr_foot k_halist foot_halist h' (Some b) = {}"
proof -
  obtain b where b: "q = Some b" using ptr_copy_target [OF assms(3) [unfolded HAClusterList_DeepCopy_def]] by blast
  with halist.independent [OF assms] show ?thesis by simp
qed

end

section \<open>Properties\<close>

text \<open>C17. Copies are deep: where an address holds an HACluster object (with everything it refers to present), \<open>DeepCopy\<close>
  returns another address, changes no existing variable, and both addresses then hold the same object. The two share no
  memory: whatever is written to variables reachable from the original leaves the copy as it is, and whatever is written to
  variables reachable from the copy (a reconcile editing status and annotations) leaves the original as it is.\<close>

theorem HACluster_DeepCopy_independent:
  assumes "copy_library L" and "heap_ok h" and "object_at h a = Some v"
    and "run_state (HACluster_DeepCopy L (Some a)) h = (q, h')"
  shows "\<exists>b. q = Some b \<and> b \<noteq> a \<and> (\<forall>c < lim h. cells h' c = cells h c) \<and>
    object_at h' a = Some v \<and> object_at h' b = Some v \<and> reach h' a \<inter> reach h' b = {} \<and>
    (\<forall>g. (\<forall>c. c \<notin> reach h' a \<longrightarrow> cells g c = cells h' c) \<longrightarrow> object_at g b = Some v) \<and>
    (\<forall>g. (\<forall>c. c \<notin> reach h' b \<longrightarrow> cells g c = cells h' c) \<longrightarrow> object_at g a = Some v)"
  by (rule copy_library.ha_separate [OF assms])

text \<open>A memory with an HACluster at address 3: its annotations at 0, its replica array at 1, its time of failover at 2.\<close>

definition demo_object :: HAClusterMem where
  "demo_object = zero_HACluster\<lparr>hha_ObjectMeta := \<lparr>hom_Name = ''pg'', hom_Namespace = ''db'', hom_ResourceVersion = ''1'',
       hom_Generation = 1, hom_Annotations = Some 0\<rparr>,
     hha_Spec := zero_HAClusterSpec\<lparr>hs_Replicas := Slice 1 1 1\<rparr>,
     hha_Status := zero_HAClusterStatus\<lparr>hst_LastFailoverTime := Some 2\<rparr>\<rparr>"

definition demo_heap :: heap where
  "demo_heap = \<lparr>cells = (\<lambda>_. None)(0 \<mapsto> CMap [(''ha.cnpg.io/promote'', ''b'')],
     1 \<mapsto> CReplicas [zero_ReplicaSite, zero_ReplicaSite\<lparr>hrs_Name := ''b''\<rparr>], 2 \<mapsto> CTime 5, 3 \<mapsto> CHACluster demo_object,
     4 \<mapsto> CHAClusterList (zero_HAClusterList\<lparr>hl_Items := Slice 5 0 1\<rparr>), 5 \<mapsto> CItems [demo_object]), lim = 6\<rparr>"

lemma demo_heap_ok: "heap_ok demo_heap"
  by (simp add: heap_ok_def demo_heap_def)

lemma demo_object_value:
  "map_option (\<lambda>v. (ha_Annotations (snd v), map rs_Name (spec_replicas (snd v)), LastFailoverTime (ha_Status (snd v))))
     (object_at demo_heap 3) = Some ([(''ha.cnpg.io/promote'', ''b'')], [''b''], Some 5)"
  by code_simp

abbreviation demo_copied :: heap where
  "demo_copied \<equiv> snd (run_state (HACluster_DeepCopy ref_copylib (Some 3)) demo_heap)"

lemma demo_copy_map:
  "fst (run_state (HACluster_DeepCopy ref_copylib (Some 3)) demo_heap) = Some 6"
  "map_option (\<lambda>x. hom_Annotations (hha_ObjectMeta x)) (peek k_ha demo_copied 6) = Some (Some 7)"
  by code_simp+

text \<open>The reconcile's copy, at address 6, has its annotations at 7; deleting them there keeps the original's.\<close>

theorem HACluster_DeepCopy_independent_witness:
  "hom_Annotations (hha_ObjectMeta (the (peek k_ha demo_copied 6))) = Some 7 \<and>
   map_option (\<lambda>v. ha_Annotations (snd v)) (object_at (demo_copied\<lparr>cells := (cells demo_copied)(7 \<mapsto> CMap [])\<rparr>) 3) =
     Some [(''ha.cnpg.io/promote'', ''b'')]"
proof -
  obtain h' where r: "run_state (HACluster_DeepCopy ref_copylib (Some 3)) demo_heap = (Some 6, h')"
    using demo_copy_map(1) by (metis prod.collapse)
  obtain v where v: "object_at demo_heap 3 = Some v" "ha_Annotations (snd v) = [(''ha.cnpg.io/promote'', ''b'')]"
    using demo_object_value by auto
  from HACluster_DeepCopy_independent [OF ref_copylib.copy_library_axioms demo_heap_ok v(1) r] have
    w: "\<And>g. (\<forall>c. c \<notin> reach h' 6 \<longrightarrow> cells g c = cells h' c) \<Longrightarrow> object_at g 3 = Some v" by blast
  have "7 \<in> reach h' 6"
    using demo_copy_map(2) r by (auto simp: reach_def ptr_foot_def foot_ha_def foot_om_def split: option.splits)
  then have "object_at (h'\<lparr>cells := (cells h')(7 \<mapsto> CMap [])\<rparr>) 3 = Some v" by (intro w) auto
  with r v(2) demo_copy_map(2) show ?thesis by (auto split: option.splits)
qed

text \<open>C36. Copying through the \<open>runtime.Object\<close> interface: a nil pointer gives the nil interface (not an interface
  holding a nil pointer) and touches no memory; any other pointer gives an interface of the same dynamic type holding a new
  pointer to the same value. For a list the value includes every item, and no variable reachable from the copied list is
  reachable from the original.\<close>

theorem DeepCopyObject_correct:
  assumes "copy_library L" and "heap_ok h"
  shows "run_state (HACluster_DeepCopyObject L None) h = (NilObject, h) \<and>
    run_state (HAClusterList_DeepCopyObject L None) h = (NilObject, h) \<and>
    (\<forall>a v. object_at h a = Some v \<longrightarrow> (\<exists>b h'. b \<noteq> a \<and>
       run_state (HACluster_DeepCopyObject L (Some a)) h = (HAClusterObject (Some b), h') \<and> object_at h' b = Some v)) \<and>
    (\<forall>a v. ptr_view k_halist view_halist h (Some a) = Some (Some v) \<longrightarrow> (\<exists>b h'.
       run_state (HAClusterList_DeepCopyObject L (Some a)) h = (HAClusterListObject (Some b), h') \<and>
       ptr_view k_halist view_halist h' (Some b) = Some (Some v) \<and>
       ptr_foot k_halist foot_halist h' (Some a) \<inter> ptr_foot k_halist foot_halist h' (Some b) = {}))"
proof (intro conjI allI impI)
  show "run_state (HACluster_DeepCopyObject L None) h = (NilObject, h)"
    "run_state (HAClusterList_DeepCopyObject L None) h = (NilObject, h)"
    by (simp_all add: HACluster_DeepCopyObject_def HACluster_DeepCopy_def HAClusterList_DeepCopyObject_def
        HAClusterList_DeepCopy_def ptr_copy_nil)
next
  fix a v assume v: "object_at h a = Some v"
  obtain q h' where r: "run_state (HACluster_DeepCopy L (Some a)) h = (q, h')" by fastforce
  from copy_library.ha_separate [OF assms v r] r
  show "\<exists>b h'. b \<noteq> a \<and> run_state (HACluster_DeepCopyObject L (Some a)) h = (HAClusterObject (Some b), h') \<and>
      object_at h' b = Some v"
    by (auto simp: HACluster_DeepCopyObject_def)
next
  fix a v assume v: "ptr_view k_halist view_halist h (Some a) = Some (Some v)"
  obtain q h' where r: "run_state (HAClusterList_DeepCopy L (Some a)) h = (q, h')" by fastforce
  from copy_library.halist_separate [OF assms v r] obtain b where b: "q = Some b"
    "ptr_view k_halist view_halist h' (Some b) = Some (Some v)"
    "ptr_foot k_halist foot_halist h' (Some a) \<inter> ptr_foot k_halist foot_halist h' (Some b) = {}" by blast
  then show "\<exists>b h'. run_state (HAClusterList_DeepCopyObject L (Some a)) h = (HAClusterListObject (Some b), h') \<and>
      ptr_view k_halist view_halist h' (Some b) = Some (Some v) \<and>
      ptr_foot k_halist foot_halist h' (Some a) \<inter> ptr_foot k_halist foot_halist h' (Some b) = {}"
    using r by (intro exI [of _ b] exI [of _ h']) (simp add: HAClusterList_DeepCopyObject_def)
qed

theorem DeepCopyObject_correct_witness:
  "run_state (HACluster_DeepCopyObject ref_copylib None) demo_heap = (NilObject, demo_heap) \<and>
   (\<exists>b h'. run_state (HAClusterList_DeepCopyObject ref_copylib (Some 4)) demo_heap = (HAClusterListObject (Some b), h') \<and>
     ptr_foot k_halist foot_halist h' (Some 4) \<inter> ptr_foot k_halist foot_halist h' (Some b) = {})"
proof -
  have "map_option (map_option (\<lambda>_. ())) (ptr_view k_halist view_halist demo_heap (Some 4)) = Some (Some ())" by code_simp
  then have "\<exists>v. ptr_view k_halist view_halist demo_heap (Some 4) = Some (Some v)" by auto
  with DeepCopyObject_correct [OF ref_copylib.copy_library_axioms demo_heap_ok] show ?thesis by blast
qed

end
