(* ===== verification/Spec2Isabelle.thy ===== *)
theory Spec2Isabelle
  imports Failover_Reported Topology_Convergence Main_Setup Deep_Copy_Properties
begin

text \<open>
  A verification of \<^bold>\<open>cnpg-ha\<close>, a Kubernetes operator that keeps one PostgreSQL primary across
  several sites, each a CloudNativePG (CNPG) Cluster on a Kubernetes cluster of its own.

  \<^bold>\<open>The program.\<close> For every \<open>HACluster\<close> object the controller
  (\<open>internal/controller/hacluster_controller.go\<close>) repeats one reconcile: read the object; observe each
  site (\<open>internal/health\<close> reads the CNPG Cluster, \<open>internal/postgres\<close> optionally asks the database for
  its WAL position, \<open>internal/remoteclient\<close> provides the client of a remote site from a kubeconfig Secret);
  honour a promote annotation (Manual mode) or count failures and fail over (Automatic mode) with the steps
  of \<open>internal/promotion\<close>; decide the current primary; write status, conditions and metrics
  (\<open>internal/metrics\<close>); make the other sites follow the primary. \<open>cmd/main.go\<close> starts it.

  \<^bold>\<open>Theories.\<close>
  \<^item> \<open>Prelude\<close>, \<open>Go_Std\<close>, \<open>Go_Float\<close>: outcomes (value, error, panic), error values with their wrapping,
    the state monad with a weakest-precondition operator, Go maps, and the parts of the Go standard library
    the program calls (\<open>fmt\<close>, \<open>strconv\<close>, \<open>strings\<close>, \<open>net\<close>, \<open>net/url\<close>, \<open>time\<close>, binary64).
  \<^item> \<open>Api_Types\<close>: the custom resource (\<open>api/v1alpha1/hacluster_types.go\<close>) and its schema markers.
  \<^item> \<open>Environment\<close>: everything outside the repository, as parameters of the definitions; \<open>traced\<close>
    environments that record the calls; the locale \<open>run_relation\<close> for relations between the start and the
    end of a run; the laws of the parameters that some theorems assume. \<open>Reference_World\<close> is a
    concrete environment that satisfies them, on which the witnesses run.
  \<^item> \<open>Health\<close>, \<open>Promotion\<close>, \<open>Remote_Client\<close>, \<open>Postgres_Probe\<close>, \<open>Metrics\<close>: one theory per package.
    \<open>Promotion\<close> states the contract of a read-plan-write step as the locale \<open>settling_step\<close> and
    interprets it on the four operations; \<open>Remote_Client\<close> has \<open>keyed_cache\<close>, \<open>Postgres_Probe\<close> has
    \<open>lsn_prober\<close> (the \<open>Prober\<close> interface).
  \<^item> \<open>Controller_Decide\<close>: the pure decisions (\<open>chooseTarget\<close>, \<open>decideCurrentPrimary\<close>,
    \<open>detectSplitBrain\<close>, \<open>applyPromotionEffect\<close>, effective settings), with the locale \<open>preference\<close>.
  \<^item> \<open>Controller_Observe\<close>: observing the sites. \<open>Controller_Promote\<close>: failure counters (locale
    \<open>failure_counter\<close>), \<open>runPromotion\<close>, both handlers. \<open>Promotion_Sequence\<close> and
    \<open>Failover_Handlers\<close>: their properties.
  \<^item> \<open>Controller_Topology\<close>: \<open>reconcileReplicaTopology\<close> and the rejoin rule.
    \<open>Topology_Convergence\<close>: what a whole pass achieves. \<open>Controller_Status\<close>: conditions and metrics.
  \<^item> \<open>Controller_Reconcile\<close>: \<open>Reconcile\<close>, composed of the above in the order of the source, and the
    operator's lifetime as the step relation \<open>lifetime_step\<close>. \<open>Reconcile_Properties\<close>: their properties.
    \<open>Failover_Reported\<close>: from a promotion to the status that reports it.
  \<^item> \<open>Go_Flag\<close>: Go's \<open>flag\<close> package. \<open>Main_Setup\<close>: \<open>cmd/main.go\<close> from the command line to the
    running manager, \<open>SetupWithManager\<close>, and the registration of the API group
    (\<open>api/v1alpha1/groupversion_info.go\<close>).
  \<^item> \<open>Deep_Copy\<close>: \<open>api/v1alpha1/zz_generated.deepcopy.go\<close> over an explicit memory, with addresses for
    pointers, slices and maps. \<open>Deep_Copy_Properties\<close>: the contract of a deep copy as the locale
    \<open>deep_copier\<close>, given by \<open>sublocale\<close> to every generated \<open>DeepCopy\<close> method from the same contract for
    the copy functions of Kubernetes types (locale \<open>copy_library\<close>).

  \<^bold>\<open>State.\<close> A run threads a record: the world (a parameter type: all API servers, clocks, databases and
  metric registries), the client cache (\<open>clients\<close>), and the failure counters (\<open>failCount\<close>). The
  \<open>HACluster\<close> object a Go function mutates through a pointer is passed in and returned. Strings are
  byte strings; \<open>int\<close>, \<open>int64\<close>, \<open>uint64\<close> and \<open>time.Duration\<close> are 64-bit words and
  \<open>int32\<close> a 32-bit word; a time is a number of nanoseconds. That objects may be treated as values is what the deep copies
  are for: controller-runtime hands a reconcile a copy, and a copy shares no memory with its original.

  \<^bold>\<open>What is shown.\<close>
  \<^item> Safety of a promotion: the old primary is fenced before anything else is written; a success leaves one site in
    primary mode and the other fenced, or missing; ill-formed requests make no call.
  \<^item> Automatic failover acts only when due, never before the threshold of consecutive failures, and does act at the
    threshold; a promote annotation acts only when granted; nothing is promoted during a split-brain; what each
    outcome leaves in the status. The reconcile that promotes a site also reports it: its status names that site alone as
    ready primary. The one exception is shown too: a third site is promoted beside a healthy primary that is not the
    recorded one.
  \<^item> The rejoin rule, for one topology pass and over the operator's whole life with restarts and outside
    interference: without \<open>AutoReplica\<close> no site seen only in primary mode is rebuilt. A successful pass leaves every
    reachable site fenced or following the primary.
  \<^item> Each step of \<open>internal/promotion\<close> establishes its goal, changes nothing else and is idempotent.
  \<^item> A reconcile does not panic (under a named condition), writes the status exactly once and consistently, and
    asks to run again.
  \<^item> Decisions, conditions and metrics say what was observed; WAL positions parse and order correctly; byte lags do not
    underflow; credentials survive the connection string; cached clients do not mix.
  \<^item> Command lines parse back to the flags they were made from; the start-up calls come in order and the first failure
    ends the process; deep copies are equal and independent.

  \<^bold>\<open>Hypotheses.\<close> Theorems over \<open>traced E\<close> hold for every environment, with failures and
  concurrent writers anywhere. The functional theorems about objects assume \<open>store_laws\<close> and
  \<open>unstructured_laws\<close> (reads return what was written, without concurrent writers),
  \<open>condition_laws\<close> (\<open>meta.SetStatusCondition\<close>), \<open>gauge_laws\<close> (Prometheus vectors),
  \<open>not_found_wraps\<close> (\<open>IsNotFound\<close> looks through wrapping), \<open>events_separate\<close>, \<open>shared_reads\<close> (clients of one
  server read the same) or \<open>clients_separate\<close> (reading Secrets changes no Cluster); each is shown to
  hold of the reference environment, and \<open>copy_library\<close> of a concrete copy library. No definition needs fuel: every loop
  of the program is a recursion over a finite list, and \<open>flag.Parse\<close> consumes arguments.

  \<^bold>\<open>Not modelled.\<close> Log lines; contexts, cancellation and the probe timeout; the mutexes (each call on the
  cache or the counters is atomic, and reconciles of different objects interleave as whole reconciles); logger
  and signal handling in \<open>main\<close>; help texts; slice capacities (no generated function appends);
  charts, manifests, scripts and tests.
\<close>

end
